(* ===== verification/Prelude.thy ===== *)
theory Prelude
  imports Main "HOL-Library.Word" "HOL-Library.Finite_Map" "HOL-Library.Multiset"
begin

text \<open>
  Shared vocabulary of the development: the machine types of the Go sources, the
  sum-typed results that model Go's \<open>(value, error)\<close> returns, the enumeration of Go
  maps, and the interfaces (locales) of guarded state machines that the component
  theories interpret on their own operations.
\<close>

section \<open>Machine types\<close>

text \<open>
  A \<open>chainhash.Hash\<close> is a 32-byte array that the code orders by \<open>bytes.Compare\<close>.
  Read as a big-endian 256-bit number that order is the order of \<open>256 word\<close>.
  \<open>int32\<close> values are \<open>32 word\<close> read with \<open>sint\<close>, \<open>uint32\<close> values are
  \<open>32 word\<close> read with \<open>uint\<close>; addition and subtraction on both wrap as in Go.
\<close>

type_synonym hash = "256 word"
type_synonym i32 = "32 word"
type_synonym u32 = "32 word"
type_synonym i64 = "64 word"
type_synonym u64 = "64 word"
type_synonym byte = "8 word"

text \<open>Public keys are opaque values; their serializations are library functions.\<close>

type_synonym pubKey = "byte list"

abbreviation max_int32 :: int where
  "max_int32 \<equiv> 2147483647"

section \<open>Results\<close>

text \<open>
  A Go function returning \<open>(T, error)\<close> is modelled by \<open>'e + 't\<close>: \<open>Inl e\<close> is the
  early return with an error, \<open>Inr x\<close> the successful return.
\<close>

definition bindR :: "'e + 'a \<Rightarrow> ('a \<Rightarrow> 'e + 'b) \<Rightarrow> 'e + 'b" where
  "bindR m k = (case m of Inl e \<Rightarrow> Inl e | Inr x \<Rightarrow> k x)"

lemma bindR_simps [simp]:
  "bindR (Inl e) k = Inl e"
  "bindR (Inr x) k = k x"
  by (simp_all add: bindR_def)

lemma bindR_eq_Inr [simp]:
  "bindR m k = Inr y \<longleftrightarrow> (\<exists>x. m = Inr x \<and> k x = Inr y)"
  by (cases m) auto

lemma bindR_eq_Inl:
  "bindR m k = Inl e \<longleftrightarrow> m = Inl e \<or> (\<exists>x. m = Inr x \<and> k x = Inl e)"
  by (cases m) auto

definition okR :: "'e + 'a \<Rightarrow> bool" where
  "okR m \<longleftrightarrow> (case m of Inl _ \<Rightarrow> False | Inr _ \<Rightarrow> True)"

lemma okR_simps [simp]: "\<not> okR (Inl e)" "okR (Inr x)"
  by (simp_all add: okR_def)

lemma okR_iff: "okR m \<longleftrightarrow> (\<exists>x. m = Inr x)"
  by (cases m) auto

text \<open>A loop that returns the first error it meets; \<open>None\<close> is the nil error.\<close>

fun firstErr :: "('a \<Rightarrow> 'e option) \<Rightarrow> 'a list \<Rightarrow> 'e option" where
  "firstErr f [] = None"
| "firstErr f (x # xs) = (case f x of None \<Rightarrow> firstErr f xs | Some e \<Rightarrow> Some e)"

lemma firstErr_None [simp]: "firstErr f xs = None \<longleftrightarrow> (\<forall>x \<in> set xs. f x = None)"
  by (induction xs) (auto split: option.split)

lemma firstErr_Some: "firstErr f xs = Some e \<Longrightarrow> \<exists>x \<in> set xs. f x = Some e"
  by (induction xs) (auto split: option.splits)

text \<open>Sequencing of checks that return a bare \<open>error\<close>.\<close>

definition thenErr :: "'e option \<Rightarrow> 'e option \<Rightarrow> 'e option" where
  "thenErr a b = (case a of None \<Rightarrow> b | Some e \<Rightarrow> Some e)"

lemma thenErr_None [simp]: "thenErr a b = None \<longleftrightarrow> a = None \<and> b = None"
  by (auto simp: thenErr_def split: option.split)

lemma thenErr_simps [simp]: "thenErr None b = b" "thenErr (Some e) b = Some e"
  by (simp_all add: thenErr_def)

section \<open>Enumerations of Go maps\<close>

text \<open>
  A \<open>for k := range m\<close> loop visits the keys of \<open>m\<close> once each, in an order the
  language leaves open. The order is a parameter of the definitions that run such a
  loop: a schedule \<open>rk\<close> ranks the keys of each key set, and the loop visits them by
  rank. Every schedule gives an enumeration of the keys (\<open>set_go_range\<close>,
  \<open>distinct_go_range\<close>), and every enumeration is given by a schedule
  (\<open>go_range_complete\<close>), so a theorem for all \<open>rk\<close> is a theorem for every
  iteration order.
\<close>

definition go_range :: "('k set \<Rightarrow> 'k \<Rightarrow> nat) \<Rightarrow> 'k::linorder set \<Rightarrow> 'k list" where
  "go_range rk A = sort_key (rk A) (sorted_list_of_set A)"

lemma set_go_range [simp]: "finite A \<Longrightarrow> set (go_range rk A) = A"
  by (simp add: go_range_def)

lemma distinct_go_range [simp]: "distinct (go_range rk A)"
  by (simp add: go_range_def)

lemma go_range_empty [simp]: "go_range rk {} = []"
  by (simp add: go_range_def)

lemma sort_go_range [simp]: "sort (go_range rk A) = sorted_list_of_set A"
proof -
  have "mset (go_range rk A) = mset (sorted_list_of_set A)"
    by (simp add: go_range_def)
  then show ?thesis
    by (metis properties_for_sort sorted_sorted_list_of_set)
qed

lemma go_range_complete:
  assumes "\<And>A. finite A \<Longrightarrow> distinct (f A) \<and> set (f A) = A"
  shows "\<exists>rk. \<forall>A. finite A \<longrightarrow> go_range rk A = f A"
proof -
  define rk where "rk = (\<lambda>A x. THE i. i < length (f A) \<and> f A ! i = x)"
  have "go_range rk A = f A" if fin: "finite A" for A
  proof -
    have d: "distinct (f A)" and s: "set (f A) = A"
      using assms [OF fin] by auto
    have rk_nth: "rk A (f A ! i) = i" if "i < length (f A)" for i
      unfolding rk_def using that d by (intro the_equality) (auto simp: nth_eq_iff_index_eq)
    then have "map (rk A) (f A) = [0..<length (f A)]"
      by (intro nth_equalityI) auto
    then have sorted: "sorted (map (rk A) (f A))" and "distinct (map (rk A) (f A))"
      by simp_all
    then have inj: "inj_on (rk A) A"
      using s by (simp add: distinct_map)
    have "mset (sorted_list_of_set A) = mset (f A)"
      using d s fin by (metis distinct_sorted_list_of_set set_eq_iff_mset_eq_distinct set_sorted_list_of_set)
    then show ?thesis
      unfolding go_range_def using sorted inj s fin
      by (intro sort_key_inj_key_eq) auto
  qed
  then show ?thesis by blast
qed

section \<open>Guarded state machines\<close>

text \<open>
  An object with mutating methods that return an error is a machine: a call either
  returns a new state or an error, and an error leaves the object as it was. A scoped machine
  keeps its invariant under the calls of a scope.
\<close>

fun run_machine :: "('s \<Rightarrow> 'c \<Rightarrow> 'e + 's) \<Rightarrow> 's \<Rightarrow> 'c list \<Rightarrow> 's" where
  "run_machine step s [] = s"
| "run_machine step s (c # cs) =
     (case step s c of Inl _ \<Rightarrow> run_machine step s cs | Inr s' \<Rightarrow> run_machine step s' cs)"

locale scoped_machine =
  fixes step :: "'s \<Rightarrow> 'c \<Rightarrow> 'e + 's"
    and inv :: "'s \<Rightarrow> bool"
    and allowed :: "'c \<Rightarrow> bool"
  assumes step_scoped: "inv s \<Longrightarrow> allowed c \<Longrightarrow> step s c = Inr s' \<Longrightarrow> inv s'"
begin

lemma run_scoped: "inv s \<Longrightarrow> list_all allowed cs \<Longrightarrow> inv (run_machine step s cs)"
  by (induction cs arbitrary: s) (auto split: sum.splits intro: step_scoped)

end

text \<open>A machine whose invariant every call keeps is the special case with all calls allowed.\<close>

locale guarded_machine =
  fixes step :: "'s \<Rightarrow> 'c \<Rightarrow> 'e + 's"
    and inv :: "'s \<Rightarrow> bool"
  assumes step_inv: "inv s \<Longrightarrow> step s c = Inr s' \<Longrightarrow> inv s'"

sublocale guarded_machine \<subseteq> scoped_machine step inv "\<lambda>_. True"
  by unfold_locales (rule step_inv)

context guarded_machine
begin

lemma run_inv: "inv s \<Longrightarrow> inv (run_machine step s cs)"
  by (rule run_scoped) (simp_all add: list_all_iff)

lemma run_append: "run_machine step s (cs @ ds) = run_machine step (run_machine step s cs) ds"
  by (induction cs arbitrary: s) (auto split: sum.splits)

end

text \<open>
  A machine some of whose facts, once true, stay true: \<open>latched x s\<close> is kept by every
  successful call.
\<close>

locale latching_machine = guarded_machine step inv
  for step :: "'s \<Rightarrow> 'c \<Rightarrow> 'e + 's" and inv :: "'s \<Rightarrow> bool" +
  fixes latched :: "'x \<Rightarrow> 's \<Rightarrow> bool"
  assumes step_latched: "inv s \<Longrightarrow> latched x s \<Longrightarrow> step s c = Inr s' \<Longrightarrow> latched x s'"
begin

lemma run_latched: "inv s \<Longrightarrow> latched x s \<Longrightarrow> latched x (run_machine step s cs)"
proof (induction cs arbitrary: s)
  case Nil
  then show ?case by simp
next
  case (Cons c cs)
  then show ?case
    by (cases "step s c") (auto intro: step_inv step_latched)
qed

end

section \<open>Lists\<close>

lemma sort_eq_iff_mset: "sort xs = sort ys \<longleftrightarrow> mset xs = mset (ys :: 'a::linorder list)"
  by (metis mset_sort properties_for_sort sorted_sort)

lemma sort_eq_sorted_list_of_set:
  "distinct xs \<Longrightarrow> sort xs = sorted_list_of_set (set (xs :: 'a::linorder list))"
  by (simp add: sorted_list_of_set_sort_remdups distinct_remdups_id)

lemma count_list_distinct:
  "distinct xs \<Longrightarrow> count_list xs x = (if x \<in> set xs then 1 else 0)"
  by (induction xs) auto

lemma set_nth_concat: "i < length L \<Longrightarrow> set (L ! i) \<subseteq> set (concat L)"
  by (metis UN_upper nth_mem set_concat)

lemma card_split: "finite A \<Longrightarrow> card A = card (A \<inter> B) + card (A - B)"
  using card_Un_disjoint [of "A \<inter> B" "A - B"] by (simp add: Int_Diff_Un Int_Diff_disjoint)

lemma distinct_concat_nth:
  assumes "distinct (concat L)" "i < length L" "j < length L" "x \<in> set (L ! i)" "x \<in> set (L ! j)"
  shows "i = j"
  using assms
proof (induction L arbitrary: i j)
  case (Cons l L)
  show ?case
  proof (cases i; cases j)
    fix i' j' assume "i = Suc i'" "j = Suc j'"
    with Cons show ?thesis by simp
  next
    fix j' assume "i = 0" "j = Suc j'"
    with Cons.prems show ?thesis using set_nth_concat [of j' L] by auto
  next
    fix i' assume "i = Suc i'" "j = 0"
    with Cons.prems show ?thesis using set_nth_concat [of i' L] by auto
  qed simp
qed simp

lemma set_concat_take: "x \<in> set (concat (take i L)) \<longleftrightarrow> (\<exists>j < i. j < length L \<and> x \<in> set (L ! j))"
proof -
  have "x \<in> set (concat (take i L)) \<longleftrightarrow> (\<exists>l \<in> set (take i L). x \<in> set l)" by simp
  also have "\<dots> \<longleftrightarrow> (\<exists>j < length (take i L). x \<in> set (take i L ! j))"
    by (metis in_set_conv_nth)
  also have "\<dots> \<longleftrightarrow> (\<exists>j < i. j < length L \<and> x \<in> set (L ! j))"
    by auto
  finally show ?thesis .
qed

lemma set_concat_nth: "x \<in> set (concat L) \<longleftrightarrow> (\<exists>j < length L. x \<in> set (L ! j))"
  using set_concat_take [of x "length L" L] by auto

lemma acyclic_measure:
  fixes f :: "'a \<Rightarrow> nat"
  assumes "\<And>x y. (x, y) \<in> r \<Longrightarrow> f y < f x"
  shows "acyclic r"
proof -
  have "f y < f x" if "(x, y) \<in> r\<^sup>+" for x y
    using that by (induction rule: trancl.induct) (auto dest: assms intro: less_trans)
  then show ?thesis by (auto simp: acyclic_def)
qed

lemma distinct_set_singleton: "distinct xs \<Longrightarrow> set xs = {x} \<Longrightarrow> xs = [x]"
proof (cases xs)
  case (Cons y ys)
  assume "distinct xs" "set xs = {x}"
  with Cons have "y = x" "set ys \<subseteq> {x}" "x \<notin> set ys" by auto
  then have "ys = []" by (cases ys) auto
  with Cons \<open>y = x\<close> show ?thesis by simp
qed simp

text \<open>The nodes of a layered list, each with the index of its layer.\<close>

fun layer_pairs :: "nat \<Rightarrow> 'a list list \<Rightarrow> (nat \<times> 'a) list" where
  "layer_pairs i [] = []"
| "layer_pairs i (l # ls) = map (Pair i) l @ layer_pairs (Suc i) ls"

lemma map_snd_layer_pairs [simp]: "map snd (layer_pairs i ls) = concat ls"
  by (induction i ls rule: layer_pairs.induct) (auto simp: comp_def)

lemma snd_layer_pairs [simp]: "snd ` set (layer_pairs i ls) = set (concat ls)"
  by (metis list.set_map map_snd_layer_pairs)

lemma in_layer_pairs:
  "(k, x) \<in> set (layer_pairs i ls) \<longleftrightarrow> i \<le> k \<and> k < i + length ls \<and> x \<in> set (ls ! (k - i))"
proof (induction i ls rule: layer_pairs.induct)
  case (2 i l ls)
  then show ?case
    by (cases "k = i") (auto simp: nth_Cons' Suc_diff_le not_less_eq_eq dest!: Suc_le_D)
qed simp

section \<open>Signed words\<close>

lemma sint_of_int32:
  "- 2147483648 \<le> x \<Longrightarrow> x \<le> max_int32 \<Longrightarrow> sint (word_of_int x :: 32 word) = x"
  by (simp add: sint_sbintrunc' signed_take_bit_int_eq_self)

lemma sint32_bounds: "- 2147483648 \<le> sint (x :: 32 word)" "sint (x :: 32 word) \<le> max_int32"
  using sint_greater_eq [of x] sint_less [of x] by simp_all

lemma sint_of_int64: "- (2 ^ 63) \<le> x \<Longrightarrow> x < 2 ^ 63 \<Longrightarrow> sint (word_of_int x :: 64 word) = x"
  by (simp add: sint_sbintrunc' signed_take_bit_int_eq_self)

lemma sint_add64:
  assumes "- (2 ^ 63) \<le> sint a + sint b" and "sint a + sint b < 2 ^ 63"
  shows "sint (a + b) = sint a + sint (b :: 64 word)"
  using sint_of_int64 [OF assms] by simp

lemma sint_sub64:
  assumes "- (2 ^ 63) \<le> sint a - sint b" and "sint a - sint b < 2 ^ 63"
  shows "sint (a - b) = sint a - sint (b :: 64 word)"
  using sint_of_int64 [OF assms] by simp

lemma sint_inj: "sint a = sint b \<longleftrightarrow> a = b"
  by (auto intro: signed_word_eqI)

end
