(* ===== verification/Tree_Queue.thy ===== *)
theory Tree_Queue
  imports Prelude
begin

text \<open>
  The generic FIFO queue of \<open>lib/tree/queue.go\<close>, the interface its clients rely on
  (locale \<open>fifo_queue\<close>) and the interpretation that shows the slice-backed queue
  provides it. The breadth-first walks of the recovery and tree packages are its clients.
\<close>

record 'a queue =
  items :: "'a list"

definition NewQueue :: "'a queue" where
  "NewQueue = \<lparr>items = []\<rparr>"

definition Enqueue :: "'a \<Rightarrow> 'a queue \<Rightarrow> 'a queue" where
  "Enqueue x q = q\<lparr>items := items q @ [x]\<rparr>"

definition Dequeue :: "'a queue \<Rightarrow> 'a option \<times> 'a queue" where
  "Dequeue q = (case items q of [] \<Rightarrow> (None, q) | x # xs \<Rightarrow> (Some x, q\<lparr>items := xs\<rparr>))"

definition Peek :: "'a queue \<Rightarrow> 'a option" where
  "Peek q = (case items q of [] \<Rightarrow> None | x # _ \<Rightarrow> Some x)"

definition Len :: "'a queue \<Rightarrow> nat" where
  "Len q = length (items q)"

definition IsEmpty :: "'a queue \<Rightarrow> bool" where
  "IsEmpty q \<longleftrightarrow> items q = []"

definition Clear :: "'a queue \<Rightarrow> 'a queue" where
  "Clear q = q\<lparr>items := []\<rparr>"

section \<open>The interface\<close>

fun drain :: "('q \<Rightarrow> 'a option \<times> 'q) \<Rightarrow> nat \<Rightarrow> 'q \<Rightarrow> 'a list \<times> 'q" where
  "drain deq 0 q = ([], q)"
| "drain deq (Suc n) q =
     (case deq q of
        (None, q') \<Rightarrow> ([], q')
      | (Some x, q') \<Rightarrow> (let (xs, q'') = drain deq n q' in (x # xs, q'')))"

locale fifo_queue =
  fixes new :: 'q
    and enq :: "'a \<Rightarrow> 'q \<Rightarrow> 'q"
    and deq :: "'q \<Rightarrow> 'a option \<times> 'q"
    and contents :: "'q \<Rightarrow> 'a list"
  assumes contents_new [simp]: "contents new = []"
    and contents_enq [simp]: "contents (enq x q) = contents q @ [x]"
    and deq_empty: "contents q = [] \<Longrightarrow> deq q = (None, q)"
    and deq_cons: "contents q = x # xs \<Longrightarrow> \<exists>q'. deq q = (Some x, q') \<and> contents q' = xs"
begin

lemma contents_fold_enq [simp]: "contents (fold enq xs q) = contents q @ xs"
  by (induction xs arbitrary: q) auto

lemma deq_None: "deq q = (None, q') \<longleftrightarrow> contents q = [] \<and> q' = q"
proof (cases "contents q")
  case Nil
  then show ?thesis using deq_empty by auto
next
  case (Cons x xs)
  then show ?thesis using deq_cons [OF Cons] by auto
qed

lemma deq_Some: "deq q = (Some x, q') \<Longrightarrow> contents q = x # contents q'"
proof (cases "contents q")
  case Nil
  assume "deq q = (Some x, q')"
  then show ?thesis using deq_empty [OF Nil] by simp
next
  case (Cons y ys)
  assume "deq q = (Some x, q')"
  then show ?thesis using deq_cons [OF Cons] Cons by auto
qed

text \<open>Draining a queue returns exactly what was enqueued, in order of arrival.\<close>

lemma drain_order:
  "contents q = xs @ ys \<Longrightarrow> \<exists>q'. drain deq (length xs) q = (xs, q') \<and> contents q' = ys"
proof (induction xs arbitrary: q)
  case (Cons x xs)
  then obtain q1 where q1: "deq q = (Some x, q1)" "contents q1 = xs @ ys"
    using deq_cons by fastforce
  with Cons.IH [OF q1(2)] show ?case by auto
qed simp

end

interpretation tq: fifo_queue NewQueue Enqueue Dequeue items
proof (standard, goal_cases)
  case (4 q x xs)
  then show ?case by (auto simp: Dequeue_def)
qed (auto simp: NewQueue_def Enqueue_def Dequeue_def)

lemma Peek_Dequeue: "Peek q = fst (Dequeue q)"
  by (simp add: Peek_def Dequeue_def split: list.split)

lemma IsEmpty_Len: "IsEmpty q \<longleftrightarrow> Len q = 0"
  by (simp add: IsEmpty_def Len_def)

lemma Len_Enqueue: "Len (Enqueue x q) = Suc (Len q)"
  by (simp add: Len_def Enqueue_def)

lemma IsEmpty_Clear: "IsEmpty (Clear q)"
  by (simp add: IsEmpty_def Clear_def)

end
