(* ===== verification/Recovery_Proof.thy ===== *)
theory Recovery_Proof
  imports Tree_Queue "HOL-Library.Product_Lexorder"
begin

text \<open>
  The immutable recovery proof graph of \<open>lib/recovery/proof.go\<close>: the transactions that
  must be broadcast, in dependency order, to materialise one target outpoint. The
  constructor \<open>NewProof\<close> indexes the nodes by txid, links each node to its in-graph
  parents, rejects nodes that do not lead to the target and layers the graph with Kahn's
  algorithm. \<open>proof_wf\<close> states what a constructed proof promises its clients.

  \<open>wire.MsgTx.TxHash\<close> belongs to btcd, so it is a parameter \<open>th\<close> of the definitions
  that call it. A \<open>wire.MsgTx\<close> is the record of the two fields the package reads.
  Every \<open>for range\<close> over a Go map takes its order from a schedule \<open>rk\<close>.
\<close>

section \<open>Data\<close>

record outPoint =
  op_hash :: hash
  op_index :: u32

record txOut =
  out_value :: i64
  out_pkScript :: "byte list"

record msgTx =
  tx_ins :: "outPoint list"
  tx_outs :: "txOut list"

datatype nodeKind = NodeKindTree | NodeKindCheckpoint | NodeKindArk

record node =
  node_kind :: nodeKind
  node_tx :: "msgTx option"

datatype proof_error =
    NilNode
  | NilTx
  | OutputIndexOutOfBounds u32
  | MultipleAnchors
  | NoNodes
  | TooManyNodes nat
  | CSVDelayTooLarge u32
  | DuplicateTxid hash
  | TargetTxidNotFound hash
  | TargetIndexOutOfBounds u32
  | NotContributing
  | ContainsCycle
  | UnknownTxid hash
  | NegativeConfirmHeight i32
  | MaturityOverflow

type_synonym adj = "hash \<Rightarrow> hash list"

record recoveryProof =
  targetOutpoint :: outPoint
  csvDelay :: u32
  proof_nodes :: "(hash, node) fmap"
  proof_parents :: adj
  proof_children :: adj
  proof_layers :: "hash list list"
  layerByTxid :: "(hash, nat) fmap"

definition MaxCSVDelay :: u32 where
  "MaxCSVDelay = 65535"

definition MaxProofNodes :: nat where
  "MaxProofNodes = 100000"

definition AnchorPkScript :: "byte list" where
  "AnchorPkScript = [0x51, 0x02, 0x4e, 0x73]"

section \<open>Nodes\<close>

text \<open>A \<open>*Node\<close> is an optional node: \<open>None\<close> is the nil pointer.\<close>

definition TXID :: "(msgTx \<Rightarrow> hash) \<Rightarrow> node option \<Rightarrow> proof_error + hash" where
  "TXID th n =
     (case n of
        None \<Rightarrow> Inl NilNode
      | Some nd \<Rightarrow>
          (case node_tx nd of
             None \<Rightarrow> Inl NilTx
           | Some tx \<Rightarrow> Inr (th tx)))"

definition Output :: "node option \<Rightarrow> u32 \<Rightarrow> proof_error + txOut" where
  "Output n index =
     (case n of
        None \<Rightarrow> Inl NilNode
      | Some nd \<Rightarrow>
          (case node_tx nd of
             None \<Rightarrow> Inl NilTx
           | Some tx \<Rightarrow>
               if unat index \<ge> length (tx_outs tx) then Inl (OutputIndexOutOfBounds index)
               else Inr (tx_outs tx ! unat index)))"

text \<open>The scan for the anchor output: \<open>found\<close> holds the index of the one seen so far.\<close>

fun anchor_scan :: "txOut list \<Rightarrow> nat \<Rightarrow> u32 option \<Rightarrow> proof_error + u32 option" where
  "anchor_scan [] i found = Inr found"
| "anchor_scan (out # outs) i found =
     (if out_pkScript out \<noteq> AnchorPkScript then anchor_scan outs (Suc i) found
      else if found \<noteq> None then Inl MultipleAnchors
      else anchor_scan outs (Suc i) (Some (word_of_nat i)))"

definition AnchorOutputIndex :: "node option \<Rightarrow> proof_error + u32 option" where
  "AnchorOutputIndex n =
     (case n of
        None \<Rightarrow> Inl NilNode
      | Some nd \<Rightarrow>
          (case node_tx nd of
             None \<Rightarrow> Inl NilTx
           | Some tx \<Rightarrow> anchor_scan (tx_outs tx) 0 None))"

definition AnchorOutpoint :: "(msgTx \<Rightarrow> hash) \<Rightarrow> node option \<Rightarrow> proof_error + outPoint option" where
  "AnchorOutpoint th n =
     bindR (TXID th n) (\<lambda>txid.
     bindR (AnchorOutputIndex n) (\<lambda>index.
     Inr (map_option (\<lambda>i. \<lparr>op_hash = txid, op_index = i\<rparr>) index)))"

section \<open>Indexing and linking\<close>

text \<open>Stage 2 of \<open>NewProof\<close>: the txid index, rejecting nil nodes and duplicates.\<close>

fun index_nodes :: "(msgTx \<Rightarrow> hash) \<Rightarrow> node option list \<Rightarrow> (hash, node) fmap
    \<Rightarrow> proof_error + (hash, node) fmap" where
  "index_nodes th [] m = Inr m"
| "index_nodes th (None # ns) m = Inl NilNode"
| "index_nodes th (Some nd # ns) m =
     bindR (TXID th (Some nd)) (\<lambda>txid.
       if fmlookup m txid \<noteq> None then Inl (DuplicateTxid txid)
       else index_nodes th ns (fmupd txid nd m))"

text \<open>Stage 3: the inner loop over one node's inputs, then the loop over all nodes.\<close>

fun link_inputs :: "hash set \<Rightarrow> hash \<Rightarrow> outPoint list \<Rightarrow> hash set \<Rightarrow> adj \<times> adj \<Rightarrow> adj \<times> adj" where
  "link_inputs ids txid [] seen pc = pc"
| "link_inputs ids txid (op # ops) seen (ps, cs) =
     (let parentTxid = op_hash op in
      if parentTxid \<notin> ids then link_inputs ids txid ops seen (ps, cs)
      else if parentTxid \<in> seen then link_inputs ids txid ops seen (ps, cs)
      else link_inputs ids txid ops (insert parentTxid seen)
             (ps(txid := ps txid @ [parentTxid]),
              cs(parentTxid := cs parentTxid @ [txid])))"

definition node_ins :: "(hash, node) fmap \<Rightarrow> hash \<Rightarrow> outPoint list" where
  "node_ins m txid =
     (case fmlookup m txid of
        None \<Rightarrow> []
      | Some nd \<Rightarrow> (case node_tx nd of None \<Rightarrow> [] | Some tx \<Rightarrow> tx_ins tx))"

fun link_nodes :: "(hash, node) fmap \<Rightarrow> hash list \<Rightarrow> adj \<times> adj \<Rightarrow> adj \<times> adj" where
  "link_nodes m [] pc = pc"
| "link_nodes m (txid # txids) pc =
     link_nodes m txids (link_inputs (fmdom' m) txid (node_ins m txid) {} pc)"

definition deriveEdges :: "(hash set \<Rightarrow> hash \<Rightarrow> nat) \<Rightarrow> (hash, node) fmap \<Rightarrow> adj \<times> adj" where
  "deriveEdges rk m =
     (let (ps, cs) = link_nodes m (go_range rk (fmdom' m)) (\<lambda>_. [], \<lambda>_. [])
      in (\<lambda>t. sort (ps t), \<lambda>t. sort (cs t)))"

section \<open>Reachability\<close>

fun visit_parent :: "hash \<Rightarrow> hash set \<times> hash queue \<Rightarrow> hash set \<times> hash queue" where
  "visit_parent parent (reachable, queue) =
     (if parent \<in> reachable then (reachable, queue)
      else (insert parent reachable, Enqueue parent queue))"

lemma visit_parents_measure:
  "fold visit_parent ps (r, q) = (r', q') \<Longrightarrow>
     card (- r') + Len q' = card (- r) + Len q"
proof (induction ps arbitrary: r q)
  case (Cons p ps)
  show ?case
  proof (cases "p \<in> r")
    case True
    with Cons show ?thesis by simp
  next
    case False
    then have "card (- insert p r) = card (- r) - 1" "card (- r) > 0"
      by (auto simp: Compl_insert card_gt_0_iff)
    with False Cons.IH [of "insert p r" "Enqueue p q"] Cons.prems show ?thesis
      by (auto simp: Len_Enqueue)
  qed
qed simp

lemma Len_Dequeue: "Dequeue q = (Some x, q') \<Longrightarrow> Len q = Suc (Len q')"
  using tq.deq_Some [of q x q'] by (simp add: Len_def)

function ancestor_walk :: "adj \<Rightarrow> hash queue \<Rightarrow> hash set \<Rightarrow> hash set" where
  "ancestor_walk parents queue reachable =
     (case Dequeue queue of
        (None, _) \<Rightarrow> reachable
      | (Some txid, queue') \<Rightarrow>
          (case fold visit_parent (parents txid) (reachable, queue') of
             (reachable', queue'') \<Rightarrow> ancestor_walk parents queue'' reachable'))"
  by pat_completeness auto
termination
  by (relation "measure (\<lambda>(_, q, r). card (- r) + Len q)")
    (auto dest!: Len_Dequeue [OF sym] visit_parents_measure [OF sym])

declare ancestor_walk.simps [simp del]

definition collectReachableAncestors :: "hash \<Rightarrow> adj \<Rightarrow> hash set" where
  "collectReachableAncestors start parents =
     ancestor_walk parents (Enqueue start NewQueue) {start}"

section \<open>Layering\<close>

fun dec_child :: "hash \<Rightarrow> (hash \<Rightarrow> int) \<times> hash set \<Rightarrow> (hash \<Rightarrow> int) \<times> hash set" where
  "dec_child child (indegree, nextCounts) =
     (let d = indegree child - 1 in
      (indegree(child := d), if d = 0 then insert child nextCounts else nextCounts))"

text \<open>One frontier: number its nodes, release their children.\<close>

fun process_layer :: "adj \<Rightarrow> nat \<Rightarrow> hash list \<Rightarrow> (hash \<Rightarrow> int) \<times> hash set \<times> nat \<times> (hash, nat) fmap
    \<Rightarrow> (hash \<Rightarrow> int) \<times> hash set \<times> nat \<times> (hash, nat) fmap" where
  "process_layer children layerIndex [] st = st"
| "process_layer children layerIndex (txid # txids) (indegree, nextCounts, processed, lbt) =
     (let (indegree', nextCounts') = fold dec_child (children txid) (indegree, nextCounts)
      in process_layer children layerIndex txids
           (indegree', nextCounts', Suc processed, fmupd txid layerIndex lbt))"

text \<open>
  \<open>release xs d\<close> describes both inner loops at once: every occurrence of a txid in
  \<open>xs\<close> takes one from its in-degree, and the txids released are those whose in-degree
  was positive and is used up.
\<close>

lemma fold_dec_child:
  "fold dec_child xs (d, nx) =
     (\<lambda>t. d t - int (count_list xs t), nx \<union> {t. 0 < d t \<and> d t \<le> int (count_list xs t)})"
proof (induction xs arbitrary: d nx)
  case Nil
  then show ?case by auto
next
  case (Cons x xs)
  show ?case
    by (auto simp: Cons.IH Let_def fun_eq_iff)
qed

lemma process_layer_eq:
  "process_layer ch i ts (d, nx, pr, lb) =
     (\<lambda>t. d t - int (count_list (concat (map ch ts)) t),
      nx \<union> {t. 0 < d t \<and> d t \<le> int (count_list (concat (map ch ts)) t)},
      pr + length ts, fold (\<lambda>t. fmupd t i) ts lb)"
proof (induction ts arbitrary: d nx pr lb)
  case (Cons t ts)
  show ?case
    by (auto simp: Cons.IH fold_dec_child fun_eq_iff set_eq_iff)
qed auto

lemma process_layer_decreases:
  assumes "process_layer ch i ts (d, {}, pr, lb) = (d', nx, pr', lb')"
  shows "2 * card {t. 0 < d' t} + (if nx = {} then 0 else 1) < Suc (2 * card {t. 0 < d t})"
proof -
  define xs where "xs = concat (map ch ts)"
  have d': "d' = (\<lambda>t. d t - int (count_list xs t))"
    and nx: "nx = {t. 0 < d t \<and> d t \<le> int (count_list xs t)}"
    using assms by (simp_all add: process_layer_eq xs_def)
  have sub: "{t. 0 < d' t} \<subseteq> {t. 0 < d t}"
  proof
    fix t assume "t \<in> {t. 0 < d' t}"
    moreover have "0 \<le> int (count_list xs t)" by simp
    ultimately show "t \<in> {t. 0 < d t}" unfolding d' by simp
  qed
  show ?thesis
  proof (cases "nx = {}")
    case True
    with card_mono [OF _ sub] show ?thesis by simp
  next
    case False
    then obtain t where "0 < d t" "\<not> 0 < d' t"
      using nx d' by auto
    with sub have "{t. 0 < d' t} \<subset> {t. 0 < d t}" by auto
    then have "card {t. 0 < d' t} < card {t. 0 < d t}"
      by (intro psubset_card_mono) auto
    then show ?thesis by simp
  qed
qed

function layer_loop :: "(hash set \<Rightarrow> hash \<Rightarrow> nat) \<Rightarrow> adj \<Rightarrow> hash list \<Rightarrow> (hash \<Rightarrow> int) \<Rightarrow> nat
    \<Rightarrow> hash list list \<Rightarrow> (hash, nat) fmap \<Rightarrow> nat \<times> hash list list \<times> (hash, nat) fmap" where
  "layer_loop rk children ready indegree processed layers lbt =
     (if ready = [] then (processed, layers, lbt)
      else case process_layer children (length layers) ready (indegree, {}, processed, lbt) of
        (indegree', nextCounts, processed', lbt') \<Rightarrow>
          layer_loop rk children (sort (go_range rk nextCounts)) indegree' processed'
            (layers @ [ready]) lbt')"
  by pat_completeness auto
termination
  by (relation "measure (\<lambda>(_, _, ready, d, _). 2 * card {t. 0 < d t} + (if ready = [] then 0 else 1))")
    (auto dest!: process_layer_decreases [OF sym] split: if_splits)

declare layer_loop.simps [simp del]

definition buildLayers :: "(hash set \<Rightarrow> hash \<Rightarrow> nat) \<Rightarrow> (hash, node) fmap \<Rightarrow> adj \<Rightarrow> adj
    \<Rightarrow> proof_error + hash list list \<times> (hash, nat) fmap" where
  "buildLayers rk nodes parents children =
     (let indegree = (\<lambda>t. if t \<in> fmdom' nodes then int (length (parents t)) else 0);
          ready = sort (filter (\<lambda>t. indegree t = 0) (go_range rk (fmdom' nodes)))
      in case layer_loop rk children ready indegree 0 [] fmempty of
           (processed, layers, lbt) \<Rightarrow>
             if processed \<noteq> card (fmdom' nodes) then Inl ContainsCycle
             else Inr (layers, lbt))"

section \<open>The constructor\<close>

definition NewProof :: "(hash set \<Rightarrow> hash \<Rightarrow> nat) \<Rightarrow> (msgTx \<Rightarrow> hash) \<Rightarrow> outPoint \<Rightarrow> u32
    \<Rightarrow> node option list \<Rightarrow> proof_error + recoveryProof" where
  "NewProof rk th target delay nodes =
     (if length nodes = 0 then Inl NoNodes
      else if length nodes > MaxProofNodes then Inl (TooManyNodes (length nodes))
      else if delay > MaxCSVDelay then Inl (CSVDelayTooLarge delay)
      else bindR (index_nodes th nodes fmempty) (\<lambda>nodeMap.
        case fmlookup nodeMap (op_hash target) of
          None \<Rightarrow> Inl (TargetTxidNotFound (op_hash target))
        | Some targetNode \<Rightarrow>
            (case node_tx targetNode of
               None \<Rightarrow> Inl NilTx
             | Some tx \<Rightarrow>
                 if unat (op_index target) \<ge> length (tx_outs tx)
                 then Inl (TargetIndexOutOfBounds (op_index target))
                 else
                   (let (parents, children) = deriveEdges rk nodeMap;
                        reachable = collectReachableAncestors (op_hash target) parents
                    in if \<exists>txid \<in> fmdom' nodeMap. txid \<notin> reachable then Inl NotContributing
                       else bindR (buildLayers rk nodeMap parents children) (\<lambda>(layers, lbt).
                         Inr \<lparr>targetOutpoint = target, csvDelay = delay, proof_nodes = nodeMap,
                              proof_parents = parents, proof_children = children,
                              proof_layers = layers, layerByTxid = lbt\<rparr>)))))"

section \<open>Accessors\<close>

definition TargetOutpoint :: "recoveryProof \<Rightarrow> outPoint" where
  "TargetOutpoint p = targetOutpoint p"

definition CSVDelay :: "recoveryProof \<Rightarrow> u32" where
  "CSVDelay p = csvDelay p"

definition Node :: "recoveryProof \<Rightarrow> hash \<Rightarrow> node option" where
  "Node p txid = fmlookup (proof_nodes p) txid"

definition TargetNode :: "recoveryProof \<Rightarrow> proof_error + node" where
  "TargetNode p =
     (case Node p (op_hash (targetOutpoint p)) of
        None \<Rightarrow> Inl (TargetTxidNotFound (op_hash (targetOutpoint p)))
      | Some nd \<Rightarrow> Inr nd)"

definition TargetOutput :: "recoveryProof \<Rightarrow> proof_error + txOut" where
  "TargetOutput p =
     bindR (TargetNode p) (\<lambda>nd. Output (Some nd) (op_index (targetOutpoint p)))"

definition ParentTxids :: "recoveryProof \<Rightarrow> hash \<Rightarrow> proof_error + hash list" where
  "ParentTxids p txid =
     (if fmlookup (proof_nodes p) txid = None then Inl (UnknownTxid txid)
      else Inr (proof_parents p txid))"

definition ChildTxids :: "recoveryProof \<Rightarrow> hash \<Rightarrow> proof_error + hash list" where
  "ChildTxids p txid =
     (if fmlookup (proof_nodes p) txid = None then Inl (UnknownTxid txid)
      else Inr (proof_children p txid))"

definition RootTxids :: "recoveryProof \<Rightarrow> hash list" where
  "RootTxids p = (case proof_layers p of [] \<Rightarrow> [] | l # _ \<Rightarrow> l)"

text \<open>The loop over one root's inputs, threading the \<open>seen\<close> set and the result slice.\<close>

fun scan_inputs :: "hash set \<Rightarrow> outPoint list \<Rightarrow> outPoint set \<times> outPoint list
    \<Rightarrow> outPoint set \<times> outPoint list" where
  "scan_inputs ids [] acc = acc"
| "scan_inputs ids (op # ops) (seen, external) =
     (if op_hash op \<in> ids then scan_inputs ids ops (seen, external)
      else if op \<in> seen then scan_inputs ids ops (seen, external)
      else scan_inputs ids ops (insert op seen, external @ [op]))"

fun scan_roots :: "(hash, node) fmap \<Rightarrow> hash list \<Rightarrow> outPoint set \<times> outPoint list
    \<Rightarrow> outPoint set \<times> outPoint list" where
  "scan_roots m [] acc = acc"
| "scan_roots m (root # roots) acc = scan_roots m roots (scan_inputs (fmdom' m) (node_ins m root) acc)"

definition RootExternalInputs :: "recoveryProof \<Rightarrow> outPoint list" where
  "RootExternalInputs p =
     sort_key (\<lambda>op. (op_hash op, op_index op))
       (snd (scan_roots (proof_nodes p) (RootTxids p) ({}, [])))"

definition Layer :: "recoveryProof \<Rightarrow> hash \<Rightarrow> proof_error + nat" where
  "Layer p txid =
     (case fmlookup (layerByTxid p) txid of
        None \<Rightarrow> Inl (UnknownTxid txid)
      | Some layer \<Rightarrow> Inr layer)"

definition Layers :: "recoveryProof \<Rightarrow> hash list list" where
  "Layers p = map (\<lambda>layer. layer) (proof_layers p)"

end
