(* ===== verification/Recovery_Graph.thy ===== *)
theory Recovery_Graph
  imports Recovery_Proof
begin

text \<open>
  Correctness of the recovery proof constructor: what each stage of \<open>NewProof\<close>
  computes, the layering produced by Kahn's algorithm (locale \<open>linked_graph\<close>), the
  well-formedness \<open>proof_wf\<close> of every constructed proof and the independence of the
  result from Go's map iteration order and from the order of the node slice.
\<close>

section \<open>The node index\<close>

definition node_ok :: "node option \<Rightarrow> bool" where
  "node_ok n \<longleftrightarrow> n \<noteq> None \<and> node_tx (the n) \<noteq> None"

definition node_key :: "(msgTx \<Rightarrow> hash) \<Rightarrow> node option \<Rightarrow> hash" where
  "node_key th n = th (the (node_tx (the n)))"

lemma index_nodes_Inr:
  "index_nodes th ns m = Inr m' \<longleftrightarrow>
     list_all node_ok ns \<and> distinct (map (node_key th) ns) \<and>
     node_key th ` set ns \<inter> fmdom' m = {} \<and>
     m' = fold (\<lambda>n. fmupd (node_key th n) (the n)) ns m"
proof (induction th ns m rule: index_nodes.induct)
  case (3 th nd ns m)
  show ?case
  proof (cases "node_tx nd")
    case None
    then show ?thesis by (simp add: TXID_def node_ok_def)
  next
    case (Some tx)
    then show ?thesis
      using "3.IH" [of "th tx"]
      by (auto simp: TXID_def node_ok_def node_key_def fmdom'_notI fmlookup_dom'_iff)
  qed
qed (auto simp: node_ok_def)

lemma fmlookup_fold_upd:
  assumes "distinct (map k ns)"
  shows "fmlookup (fold (\<lambda>n. fmupd (k n) (v n)) ns m) t =
    (if t \<in> k ` set ns then Some (v (THE n. n \<in> set ns \<and> k n = t)) else fmlookup m t)"
  using assms
proof (induction ns arbitrary: m)
  case (Cons n ns)
  have the: "(THE n'. n' \<in> set (n # ns) \<and> k n' = t) = n" if "k n = t"
    using that Cons.prems by (intro the_equality) (auto simp: image_iff)
  have rest: "(THE n'. n' \<in> set (n # ns) \<and> k n' = t) = (THE n'. n' \<in> set ns \<and> k n' = t)" if "k n \<noteq> t"
    using that by (intro arg_cong [where f = The]) auto
  show ?case
    using Cons the rest by (auto simp: image_iff)
qed simp

lemma index_nodes_perm:
  assumes "index_nodes th ns fmempty = Inr m" and "mset ns' = mset ns"
  shows "index_nodes th ns' fmempty = Inr m"
proof -
  have eq: "set ns' = set ns"
    using assms(2) by (rule mset_eq_setD)
  have d: "distinct (map (node_key th) ns')" "distinct (map (node_key th) ns)"
    using assms by (auto simp: index_nodes_Inr) (metis mset_eq_imp_distinct_iff mset_map)
  have "fold (\<lambda>n. fmupd (node_key th n) (the n)) ns' fmempty
      = fold (\<lambda>n. fmupd (node_key th n) (the n)) ns fmempty"
    by (rule fmap_ext) (simp add: fmlookup_fold_upd d eq)
  with assms d eq show ?thesis
    by (auto simp: index_nodes_Inr list_all_iff)
qed

lemma index_nodes_lookup:
  assumes "index_nodes th ns fmempty = Inr m" and "fmlookup m t = Some nd"
  shows "\<exists>tx. node_tx nd = Some tx \<and> th tx = t \<and> Some nd \<in> set ns"
proof -
  have d: "distinct (map (node_key th) ns)" and ok: "list_all node_ok ns"
    and m: "m = fold (\<lambda>n. fmupd (node_key th n) (the n)) ns fmempty"
    using assms by (auto simp: index_nodes_Inr)
  obtain n where n: "n \<in> set ns" "node_key th n = t"
    using assms(2) by (auto simp: m fmlookup_fold_upd [OF d] split: if_splits)
  then have "(THE n. n \<in> set ns \<and> node_key th n = t) = n"
    using d by (intro the_equality) (auto simp: distinct_map inj_on_def)
  with n assms(2) have "nd = the n"
    by (auto simp: m fmlookup_fold_upd [OF d] split: if_splits)
  with n ok show ?thesis
    by (auto simp: list_all_iff node_ok_def node_key_def)
qed

section \<open>Edges\<close>

text \<open>The parents and children of a node, as sets put in canonical order.\<close>

definition parents_of :: "(hash, node) fmap \<Rightarrow> hash \<Rightarrow> hash list" where
  "parents_of m t = sorted_list_of_set (op_hash ` set (node_ins m t) \<inter> fmdom' m)"

definition children_of :: "(hash, node) fmap \<Rightarrow> hash \<Rightarrow> hash list" where
  "children_of m p = sorted_list_of_set {t \<in> fmdom' m. p \<in> set (parents_of m t)}"

fun fresh_parents :: "hash set \<Rightarrow> outPoint list \<Rightarrow> hash set \<Rightarrow> hash list" where
  "fresh_parents ids [] seen = []"
| "fresh_parents ids (op # ops) seen =
     (if op_hash op \<notin> ids \<or> op_hash op \<in> seen then fresh_parents ids ops seen
      else op_hash op # fresh_parents ids ops (insert (op_hash op) seen))"

lemma set_fresh_parents: "set (fresh_parents ids ops seen) = (op_hash ` set ops \<inter> ids) - seen"
  by (induction ids ops seen rule: fresh_parents.induct) auto

lemma distinct_fresh_parents: "distinct (fresh_parents ids ops seen)"
  by (induction ids ops seen rule: fresh_parents.induct) (auto simp: set_fresh_parents)

lemma link_inputs_eq:
  "link_inputs ids t ops seen (ps, cs) =
     (ps(t := ps t @ fresh_parents ids ops seen),
      \<lambda>p. cs p @ (if p \<in> set (fresh_parents ids ops seen) then [t] else []))"
proof (induction ids t ops seen "(ps, cs)" arbitrary: ps cs rule: link_inputs.induct)
  case (2 ids t op ops seen ps cs)
  then show ?case
    by (auto simp: Let_def fun_eq_iff set_fresh_parents)
qed auto

lemma link_nodes_eq:
  assumes "distinct ts" and "\<forall>t \<in> set ts. ps t = []"
  shows "link_nodes m ts (ps, cs) =
     (\<lambda>t. if t \<in> set ts then fresh_parents (fmdom' m) (node_ins m t) {} else ps t,
      \<lambda>p. cs p @ filter (\<lambda>t. p \<in> set (fresh_parents (fmdom' m) (node_ins m t) {})) ts)"
  using assms
proof (induction ts arbitrary: ps cs)
  case (Cons t ts)
  then show ?case
    by (auto simp: link_inputs_eq fun_eq_iff)
qed auto

lemma sort_fresh_parents: "sort (fresh_parents (fmdom' m) (node_ins m t) {}) = parents_of m t"
  by (simp add: parents_of_def sort_eq_sorted_list_of_set distinct_fresh_parents set_fresh_parents)

lemma set_parents_of [simp]: "set (parents_of m t) = op_hash ` set (node_ins m t) \<inter> fmdom' m"
  by (simp add: parents_of_def)

lemma set_children_of [simp]: "set (children_of m p) = {t \<in> fmdom' m. p \<in> set (parents_of m t)}"
  by (simp add: children_of_def)

lemma distinct_edges [simp]: "distinct (parents_of m t)" "distinct (children_of m t)"
  by (simp_all add: parents_of_def children_of_def)

lemma parents_of_outside [simp]: "t \<notin> fmdom' m \<Longrightarrow> parents_of m t = []"
  by (simp add: parents_of_def node_ins_def fmdom'_notD)

lemma deriveEdges_eq: "deriveEdges rk m = (parents_of m, children_of m)"
proof -
  let ?ts = "go_range rk (fmdom' m)"
  have "(\<lambda>t. sort (if t \<in> set ?ts then fresh_parents (fmdom' m) (node_ins m t) {} else [])) = parents_of m"
    by (auto simp: fun_eq_iff sort_fresh_parents)
  moreover have "sort (filter (\<lambda>t. p \<in> set (fresh_parents (fmdom' m) (node_ins m t) {})) ?ts) = children_of m p" for p
    by (subst sort_eq_sorted_list_of_set)
      (auto simp: children_of_def set_fresh_parents intro!: arg_cong [where f = sorted_list_of_set])
  ultimately show ?thesis
    by (simp add: deriveEdges_def link_nodes_eq)
qed

section \<open>Ancestors\<close>

definition parent_edges :: "adj \<Rightarrow> (hash \<times> hash) set" where
  "parent_edges ps = {(t, p). p \<in> set (ps t)}"

lemma fold_visit_parent:
  "fold visit_parent ps (r, q) = (r', q') \<Longrightarrow>
     r' = r \<union> set ps \<and> set (items q') = set (items q) \<union> (set ps - r)"
proof (induction ps arbitrary: r q)
  case (Cons p ps)
  then show ?case
    by (cases "p \<in> r") (force simp: Enqueue_def)+
qed simp

lemma ancestor_walk_closure:
  assumes "set (items q) \<subseteq> r"
    and "\<forall>t \<in> r - set (items q). set (ps t) \<subseteq> r"
  shows "ancestor_walk ps q r = (parent_edges ps)\<^sup>* `` r"
  using assms
proof (induction ps q r rule: ancestor_walk.induct)
  case (1 ps q r)
  show ?case
  proof (cases "Dequeue q")
    case (Pair x q1)
    show ?thesis
    proof (cases x)
      case None
      with Pair have "items q = []" by (simp add: tq.deq_None)
      with "1.prems" have "parent_edges ps `` r \<subseteq> r"
        by (auto simp: parent_edges_def)
      then have "(parent_edges ps)\<^sup>* `` r = r"
        by (rule Image_closed_trancl)
      with None Pair show ?thesis by (simp add: ancestor_walk.simps [of ps q r])
    next
      case (Some t)
      with Pair have q: "items q = t # items q1" by (simp add: tq.deq_Some)
      obtain r' q2 where f: "fold visit_parent (ps t) (r, q1) = (r', q2)"
        by (cases "fold visit_parent (ps t) (r, q1)")
      from fold_visit_parent [OF f]
      have r': "r' = r \<union> set (ps t)" and q2: "set (items q2) = set (items q1) \<union> (set (ps t) - r)"
        by auto
      have pre: "set (items q2) \<subseteq> r'" "\<forall>u \<in> r' - set (items q2). set (ps u) \<subseteq> r'"
        using "1.prems" q by (auto simp: r' q2)
      from "1.IH" [OF Pair [symmetric] Some f [symmetric] pre]
      have "ancestor_walk ps q r = (parent_edges ps)\<^sup>* `` r'"
        using Pair Some f by (simp add: ancestor_walk.simps [of ps q r])
      moreover have "t \<in> r" using "1.prems"(1) q by simp
      then have "r' \<subseteq> (parent_edges ps)\<^sup>* `` r"
        by (auto simp: r' parent_edges_def Image_iff intro: r_into_rtrancl)
      then have "(parent_edges ps)\<^sup>* `` r' = (parent_edges ps)\<^sup>* `` r"
        using r' by (auto simp: Image_iff) (meson ImageE rtrancl_trans subsetD)
      ultimately show ?thesis by simp
    qed
  qed
qed

lemma collectReachableAncestors_eq:
  "collectReachableAncestors start ps = {t. (start, t) \<in> (parent_edges ps)\<^sup>*}"
  unfolding collectReachableAncestors_def
  by (subst ancestor_walk_closure) (auto simp: Enqueue_def NewQueue_def Image_iff)

section \<open>Layering\<close>

text \<open>
  \<open>layering N ps L\<close>: the layers \<open>L\<close> hold distinct nodes of \<open>N\<close>, each after all its
  parents, and from the second layer on each with a parent in the layer just before.
\<close>

definition layering :: "hash set \<Rightarrow> adj \<Rightarrow> hash list list \<Rightarrow> bool" where
  "layering N ps L \<longleftrightarrow>
     distinct (concat L) \<and> set (concat L) \<subseteq> N \<and>
     (\<forall>i < length L. L ! i \<noteq> [] \<and> sorted (L ! i)) \<and>
     (\<forall>i < length L. \<forall>t \<in> set (L ! i). set (ps t) \<subseteq> set (concat (take i L))) \<and>
     (\<forall>i. Suc i < length L \<longrightarrow> (\<forall>t \<in> set (L ! Suc i). set (ps t) \<inter> set (L ! i) \<noteq> {}))"

definition layer_index :: "hash list list \<Rightarrow> (hash, nat) fmap \<Rightarrow> bool" where
  "layer_index L lb \<longleftrightarrow> (\<forall>t i. fmlookup lb t = Some i \<longleftrightarrow> i < length L \<and> t \<in> set (L ! i))"

lemma fmlookup_fold_const:
  "fmlookup (fold (\<lambda>t. fmupd t i) ts lb) t = (if t \<in> set ts then Some i else fmlookup lb t)"
  by (induction ts arbitrary: lb) auto

lemma layer_index_snoc:
  assumes "layer_index L lb" and "set l \<inter> set (concat L) = {}"
  shows "layer_index (L @ [l]) (fold (\<lambda>t. fmupd t (length L)) l lb)"
  unfolding layer_index_def
proof (intro allI)
  fix t i
  have idx: "fmlookup lb t = Some i \<longleftrightarrow> i < length L \<and> t \<in> set (L ! i)"
    using assms(1) by (simp add: layer_index_def)
  have "t \<notin> set l" if "i < length L" "t \<in> set (L ! i)"
    using that assms(2) set_nth_concat by blast
  then show "fmlookup (fold (\<lambda>t. fmupd t (length L)) l lb) t = Some i \<longleftrightarrow>
      i < length (L @ [l]) \<and> t \<in> set ((L @ [l]) ! i)"
    using idx by (auto simp: fmlookup_fold_const nth_append less_Suc_eq)
qed

lemma count_concat_children:
  assumes "distinct ts" and "\<forall>p \<in> set ts. distinct (ch p)"
  shows "count_list (concat (map ch ts)) t = card {p \<in> set ts. t \<in> set (ch p)}"
  using assms
proof (induction ts)
  case (Cons p ts)
  have split: "{q \<in> set (p # ts). t \<in> set (ch q)} =
      (if t \<in> set (ch p) then {p} else {}) \<union> {q \<in> set ts. t \<in> set (ch q)}"
    by auto
  have "count_list (ch p) t = (if t \<in> set (ch p) then 1 else 0)"
    using Cons.prems by (simp add: count_list_distinct)
  with Cons show ?case
    unfolding split by (simp add: count_list_append)
qed simp

lemma layering_parents:
  "layering N ps L \<Longrightarrow> i < length L \<Longrightarrow> t \<in> set (L ! i) \<Longrightarrow> set (ps t) \<subseteq> set (concat (take i L))"
  by (simp add: layering_def)

lemma layering_prev:
  assumes "layering N ps L" and "Suc i < length L" and "t \<in> set (L ! Suc i)"
  shows "\<exists>q \<in> set (ps t). q \<in> set (L ! i)"
proof -
  have "set (ps t) \<inter> set (L ! i) \<noteq> {}"
    using assms by (simp add: layering_def)
  then show ?thesis by blast
qed

lemma layering_closed:
  assumes "layering N ps L" and "t \<in> set (concat L)"
  shows "set (ps t) \<subseteq> set (concat L)"
proof -
  from assms(2) obtain l where "l \<in> set L" "t \<in> set l"
    by auto
  then obtain i where "i < length L" "t \<in> set (L ! i)"
    by (metis in_set_conv_nth)
  with assms(1) have "set (ps t) \<subseteq> set (concat (take i L))"
    by (auto simp: layering_def)
  also have "\<dots> \<subseteq> set (concat L)"
    using set_take_subset by fastforce
  finally show ?thesis .
qed

lemma layer_loop_Nil [simp]: "layer_loop rk ch [] d pr L lb = (pr, L, lb)"
  by (simp add: layer_loop.simps)

lemma layer_loop_step:
  "ready \<noteq> [] \<Longrightarrow> process_layer ch (length L) ready (d, {}, pr, lb) = (d', nx, pr', lb') \<Longrightarrow>
   layer_loop rk ch ready d pr L lb = layer_loop rk ch (sort (go_range rk nx)) d' pr' (L @ [ready]) lb'"
  by (simp add: layer_loop.simps [of rk ch ready])

text \<open>
  Kahn's algorithm on a finite graph whose child lists invert its parent lists. The
  laws are what \<open>NewProof\<close> establishes before it calls \<open>buildLayers\<close>.
\<close>

locale linked_graph =
  fixes N :: "hash set" and ps cs :: adj
  assumes distinct_ps: "distinct (ps t)"
    and ps_in: "set (ps t) \<subseteq> N"
    and ps_out: "t \<notin> N \<Longrightarrow> ps t = []"
    and distinct_cs: "distinct (cs p)"
    and cs_iff: "t \<in> set (cs p) \<longleftrightarrow> t \<in> N \<and> p \<in> set (ps t)"
begin

definition kahn_inv :: "hash list \<Rightarrow> (hash \<Rightarrow> int) \<Rightarrow> nat \<Rightarrow> hash list list \<Rightarrow> (hash, nat) fmap \<Rightarrow> bool" where
  "kahn_inv ready d pr L lb \<longleftrightarrow>
     layering N ps L \<and> layer_index L lb \<and> pr = length (concat L) \<and>
     distinct ready \<and> sorted ready \<and>
     set ready = {t \<in> N - set (concat L). set (ps t) \<subseteq> set (concat L)} \<and>
     (L \<noteq> [] \<longrightarrow> (\<forall>t \<in> set ready. set (ps t) \<inter> set (last L) \<noteq> {})) \<and>
     (\<forall>t. d t = (if t \<in> N then int (card (set (ps t) - set (concat L))) else 0))"

lemma layering_snoc:
  assumes "layering N ps L" and "ready \<noteq> []" and "distinct ready" and "sorted ready"
    and ready: "set ready = {t \<in> N - set (concat L). set (ps t) \<subseteq> set (concat L)}"
    and prev: "L \<noteq> [] \<longrightarrow> (\<forall>t \<in> set ready. set (ps t) \<inter> set (last L) \<noteq> {})"
  shows "layering N ps (L @ [ready])"
proof -
  have "set (ps t) \<inter> set ((L @ [ready]) ! i) \<noteq> {}"
    if "Suc i < length (L @ [ready])" "t \<in> set ((L @ [ready]) ! Suc i)" for i t
  proof (cases "Suc i < length L")
    case True
    with that assms(1) show ?thesis by (auto simp: layering_def nth_append)
  next
    case False
    with that have i: "Suc i = length L" by simp
    then have ne: "L \<noteq> []" by auto
    then have "last L = L ! i" by (simp add: last_conv_nth flip: i)
    with that prev i ne show ?thesis by (auto simp: nth_append)
  qed
  with assms show ?thesis
    by (auto simp: layering_def nth_append less_Suc_eq)
qed

lemma released_count:
  assumes "distinct ready" and "t \<in> N"
  shows "count_list (concat (map cs ready)) t = card (set (ps t) \<inter> set ready)"
proof -
  have "{p \<in> set ready. t \<in> set (cs p)} = set (ps t) \<inter> set ready"
    using assms(2) by (auto simp: cs_iff)
  then show ?thesis
    using assms(1) by (simp add: count_concat_children distinct_cs)
qed

lemma released_outside:
  "t \<notin> N \<Longrightarrow> count_list (concat (map cs ready)) t = 0"
  by (auto simp: count_list_0_iff cs_iff)

lemma kahn_step:
  assumes inv: "kahn_inv ready d pr L lb" and ne: "ready \<noteq> []"
    and step: "process_layer cs (length L) ready (d, {}, pr, lb) = (d', nx, pr', lb')"
  shows "kahn_inv (sort (go_range rk nx)) d' pr' (L @ [ready]) lb'"
proof -
  let ?P = "set (concat L)"
  have rd: "set ready = {t \<in> N - ?P. set (ps t) \<subseteq> ?P}" and dist: "distinct ready"
    and d: "\<And>t. d t = (if t \<in> N then int (card (set (ps t) - ?P)) else 0)"
    using inv by (auto simp: kahn_inv_def)
  have d': "d' = (\<lambda>t. d t - int (count_list (concat (map cs ready)) t))"
    and nx: "nx = {t. 0 < d t \<and> d t \<le> int (count_list (concat (map cs ready)) t)}"
    and pr': "pr' = pr + length ready" and lb': "lb' = fold (\<lambda>t. fmupd t (length L)) ready lb"
    using step by (simp_all add: process_layer_eq)
  have split: "card (set (ps t) - ?P) = card (set (ps t) \<inter> set ready) + card (set (ps t) - (?P \<union> set ready))"
    for t
  proof -
    have "(set (ps t) - ?P) \<inter> set ready = set (ps t) \<inter> set ready"
      and "set (ps t) - ?P - set ready = set (ps t) - (?P \<union> set ready)"
      using rd by blast+
    with card_split [of "set (ps t) - ?P" "set ready"] show ?thesis by simp
  qed
  have d'_eq: "d' t = (if t \<in> N then int (card (set (ps t) - (?P \<union> set ready))) else 0)" for t
    using split [of t] by (simp add: d' d released_count [OF dist] released_outside)
  have nx_eq: "nx = {t \<in> N - (?P \<union> set ready). set (ps t) \<subseteq> ?P \<union> set ready}"
  proof (rule set_eqI)
    fix t
    define a b c where "a = card (set (ps t) - ?P)" and "b = card (set (ps t) \<inter> set ready)"
      and "c = card (set (ps t) - (?P \<union> set ready))"
    have "t \<in> nx \<longleftrightarrow> t \<in> N \<and> 0 < a \<and> a \<le> b"
      unfolding a_def b_def by (simp add: nx d released_count [OF dist] released_outside)
    also have "\<dots> \<longleftrightarrow> t \<in> N \<and> a \<noteq> 0 \<and> c = 0"
      using split [of t] unfolding a_def [symmetric] b_def [symmetric] c_def [symmetric] by auto
    also have "\<dots> \<longleftrightarrow> t \<in> N \<and> \<not> set (ps t) \<subseteq> ?P \<and> set (ps t) \<subseteq> ?P \<union> set ready"
      by (auto simp: a_def c_def)
    finally have "t \<in> nx \<longleftrightarrow> t \<in> N \<and> \<not> set (ps t) \<subseteq> ?P \<and> set (ps t) \<subseteq> ?P \<union> set ready" .
    moreover have "set (ps t) \<subseteq> ?P" if "t \<in> ?P"
      using inv that unfolding kahn_inv_def by (blast dest: layering_closed)
    ultimately show "t \<in> nx \<longleftrightarrow> t \<in> {t \<in> N - (?P \<union> set ready). set (ps t) \<subseteq> ?P \<union> set ready}"
      using rd by auto
  qed
  have "layering N ps (L @ [ready])"
    using inv ne unfolding kahn_inv_def by (intro layering_snoc) blast+
  moreover have "layer_index (L @ [ready]) lb'"
    using inv rd unfolding lb' by (intro layer_index_snoc) (auto simp: kahn_inv_def)
  moreover have "\<forall>t \<in> nx. set (ps t) \<inter> set ready \<noteq> {}"
    using rd by (auto simp: nx_eq)
  ultimately show ?thesis
    using inv by (auto simp: kahn_inv_def pr' d'_eq nx_eq)
qed

lemma layer_loop_inv:
  assumes "kahn_inv ready d pr L lb" and "ch = cs"
  shows "\<exists>d' pr' L' lb'. layer_loop rk ch ready d pr L lb = (pr', L', lb') \<and> kahn_inv [] d' pr' L' lb'"
  using assms
proof (induction rk ch ready d pr L lb rule: layer_loop.induct)
  case (1 rk ch ready d pr L lb)
  show ?case
  proof (cases "ready = []")
    case True
    with "1.prems" show ?thesis by auto
  next
    case False
    obtain d' nx pr' lb' where step: "process_layer ch (length L) ready (d, {}, pr, lb) = (d', nx, pr', lb')"
      by (cases "process_layer ch (length L) ready (d, {}, pr, lb)") auto
    have next_inv: "kahn_inv (sort (go_range rk nx)) d' pr' (L @ [ready]) lb'"
      using step "1.prems"(2) by (intro kahn_step [OF "1.prems"(1) False]) simp
    show ?thesis
      unfolding layer_loop_step [OF False step]
      by (rule "1.IH" [OF False step [symmetric] refl refl next_inv "1.prems"(2)])
  qed
qed

text \<open>When the frontier is empty, what is left has a parent among what is left.\<close>

lemma leftover_cyclic:
  assumes "kahn_inv [] d pr L lb" and "set (concat L) \<noteq> N" and "finite N"
  shows "\<not> acyclic (parent_edges ps)"
proof
  let ?R = "N - set (concat L)"
  assume "acyclic (parent_edges ps)"
  have stuck: "\<exists>p. p \<in> ?R \<and> (t, p) \<in> parent_edges ps" if "t \<in> ?R" for t
    using assms(1) that ps_in by (fastforce simp: kahn_inv_def parent_edges_def)
  have "parent_edges ps \<subseteq> UNIV" by simp
  then have "wf ((parent_edges ps)\<inverse>)"
    using \<open>acyclic (parent_edges ps)\<close> by (intro finite_acyclic_wf_converse) auto
  moreover have "?R \<noteq> {}"
    using assms(1,2) by (auto simp: kahn_inv_def layering_def)
  ultimately obtain t where "t \<in> ?R" "\<forall>p. (p, t) \<in> (parent_edges ps)\<inverse> \<longrightarrow> p \<notin> ?R"
    by (metis wf_eq_minimal ex_in_conv)
  with stuck [of t] show False by auto
qed

lemma layering_acyclic:
  assumes lay: "layering N ps L" and all: "set (concat L) = N"
  shows "acyclic (parent_edges ps)"
proof -
  define level where "level t = (LEAST i. i < length L \<and> t \<in> set (L ! i))" for t
  have level: "level t = i" if "i < length L" "t \<in> set (L ! i)" for t i
    unfolding level_def using that lay
    by (intro Least_equality) (auto simp: layering_def dest: distinct_concat_nth)
  show ?thesis
  proof (rule acyclic_measure [where f = level])
    fix t p
    assume e: "(t, p) \<in> parent_edges ps"
    then have "t \<in> set (concat L)"
      using all ps_out by (force simp: parent_edges_def)
    then obtain i where i: "i < length L" "t \<in> set (L ! i)"
      by (auto simp only: set_concat_nth)
    with e have "p \<in> set (concat (take i L))"
      using layering_parents [OF lay i] by (auto simp: parent_edges_def)
    then obtain j where j: "j < i" "j < length L" "p \<in> set (L ! j)"
      by (auto simp only: set_concat_take)
    from j(1) show "level p < level t"
      unfolding level [OF i] level [OF j(2,3)] .
  qed
qed

theorem layers_or_cycle:
  assumes "finite N"
    and d0: "\<And>t. d t = (if t \<in> N then int (length (ps t)) else 0)"
    and ready: "sort (filter (\<lambda>t. d t = 0) (go_range rk N)) = r"
    and run: "layer_loop rk cs r d 0 [] fmempty = (pr, L, lb)"
  shows "if pr = card N then layering N ps L \<and> layer_index L lb \<and> set (concat L) = N
         else \<not> acyclic (parent_edges ps)"
proof -
  have r: "set r = {t \<in> N. set (ps t) = {}}" and "distinct r" "sorted r"
    using d0 assms(1) by (auto simp flip: ready)
  then have "kahn_inv r d 0 [] fmempty"
    by (auto simp: kahn_inv_def layering_def layer_index_def d0 distinct_card distinct_ps)
  from layer_loop_inv [OF this refl, of rk] run obtain d'
    where inv: "kahn_inv [] d' pr L lb" by auto
  then have lay: "layering N ps L" and "layer_index L lb" and len: "pr = length (concat L)"
    by (simp_all add: kahn_inv_def)
  moreover have pr: "pr = card (set (concat L))"
    using lay len distinct_card [of "concat L"] by (simp add: layering_def)
  moreover have "set (concat L) = N" if "pr = card N"
  proof (rule card_subset_eq)
    show "set (concat L) \<subseteq> N" using lay by (simp add: layering_def)
    show "card (set (concat L)) = card N" by (rule trans [OF pr [symmetric] that])
  qed (rule assms(1))
  moreover have "\<not> acyclic (parent_edges ps)" if "pr \<noteq> card N"
    using leftover_cyclic [OF inv _ assms(1)] that pr by blast
  ultimately show ?thesis by simp
qed

end

text \<open>Every node index satisfies the laws, so the layering lemmas hold for its edges.\<close>

interpretation ng: linked_graph "fmdom' m" "parents_of m" "children_of m" for m
  by unfold_locales auto

lemma layer_loop_order:
  "layer_loop rk ch r d pr L lb = layer_loop rk' ch r d pr L lb"
proof (induction rk ch r d pr L lb rule: layer_loop.induct)
  case (1 rk ch r d pr L lb)
  obtain d' nx pr' lb' where step: "process_layer ch (length L) r (d, {}, pr, lb) = (d', nx, pr', lb')"
    by (cases "process_layer ch (length L) r (d, {}, pr, lb)") auto
  show ?case
  proof (cases "r = []")
    case False
    show ?thesis
      unfolding layer_loop_step [OF False step]
      using "1.IH" [OF False step [symmetric] refl refl] by simp
  qed simp
qed

lemma buildLayers_order: "buildLayers rk m ps cs = buildLayers rk' m ps cs"
proof -
  have "sort (filter P (go_range rk A)) = sort (filter P (go_range rk' A))" for P and A :: "hash set"
    by (simp flip: filter_sort)
  then show ?thesis
    unfolding buildLayers_def Let_def by (simp add: layer_loop_order [of rk _ _ _ _ _ _ rk'])
qed

section \<open>Well-formed proofs\<close>

definition proof_wf :: "recoveryProof \<Rightarrow> bool" where
  "proof_wf p \<longleftrightarrow>
     (\<exists>nd tx. Node p (op_hash (targetOutpoint p)) = Some nd \<and> node_tx nd = Some tx \<and>
        unat (op_index (targetOutpoint p)) < length (tx_outs tx)) \<and>
     csvDelay p \<le> MaxCSVDelay \<and>
     proof_parents p = parents_of (proof_nodes p) \<and>
     proof_children p = children_of (proof_nodes p) \<and>
     layering (fmdom' (proof_nodes p)) (proof_parents p) (proof_layers p) \<and>
     set (concat (proof_layers p)) = fmdom' (proof_nodes p) \<and>
     layer_index (proof_layers p) (layerByTxid p) \<and>
     (\<forall>t \<in> fmdom' (proof_nodes p).
        (op_hash (targetOutpoint p), t) \<in> (parent_edges (proof_parents p))\<^sup>*)"

lemma proof_wfD:
  assumes "proof_wf p"
  shows proof_wf_layering: "layering (fmdom' (proof_nodes p)) (proof_parents p) (proof_layers p)"
    and proof_wf_parents: "proof_parents p = parents_of (proof_nodes p)"
    and proof_wf_children: "proof_children p = children_of (proof_nodes p)"
    and proof_wf_all: "set (concat (proof_layers p)) = fmdom' (proof_nodes p)"
    and proof_wf_index: "layer_index (proof_layers p) (layerByTxid p)"
    and proof_wf_delay: "csvDelay p \<le> MaxCSVDelay"
  using assms unfolding proof_wf_def by argo+

lemma buildLayers_Inr:
  assumes "buildLayers rk m (parents_of m) (children_of m) = Inr (L, lb)"
  shows "layering (fmdom' m) (parents_of m) L \<and> layer_index L lb \<and> set (concat L) = fmdom' m"
  using assms ng.layers_or_cycle [OF finite_fmdom' refl refl, where rk = rk and m = m]
  by (auto simp: buildLayers_def Let_def split: prod.splits if_splits)

lemma buildLayers_Inl:
  assumes "buildLayers rk m (parents_of m) (children_of m) = Inl e"
  shows "e = ContainsCycle \<and> \<not> acyclic (parent_edges (parents_of m))"
  using assms ng.layers_or_cycle [OF finite_fmdom' refl refl, where rk = rk and m = m]
  by (auto simp: buildLayers_def Let_def split: prod.splits if_splits)

text \<open>The whole constructor as one condition: the stages read off \<open>NewProof\<close>.\<close>

lemma NewProof_Inr:
  "NewProof rk th target delay ns = Inr p \<longleftrightarrow>
     ns \<noteq> [] \<and> length ns \<le> MaxProofNodes \<and> delay \<le> MaxCSVDelay \<and>
     (\<exists>m nd tx L lb. index_nodes th ns fmempty = Inr m \<and>
        fmlookup m (op_hash target) = Some nd \<and> node_tx nd = Some tx \<and>
        unat (op_index target) < length (tx_outs tx) \<and>
        (\<forall>t \<in> fmdom' m. (op_hash target, t) \<in> (parent_edges (parents_of m))\<^sup>*) \<and>
        buildLayers rk m (parents_of m) (children_of m) = Inr (L, lb) \<and>
        p = \<lparr>targetOutpoint = target, csvDelay = delay, proof_nodes = m,
             proof_parents = parents_of m, proof_children = children_of m,
             proof_layers = L, layerByTxid = lb\<rparr>)"
proof (cases "index_nodes th ns fmempty")
  case (Inl e)
  then show ?thesis by (simp add: NewProof_def)
next
  case (Inr m)
  show ?thesis
  proof (cases "fmlookup m (op_hash target)")
    case None
    with Inr show ?thesis by (simp add: NewProof_def)
  next
    case (Some nd)
    with Inr show ?thesis
      by (cases "node_tx nd")
        (auto simp: NewProof_def deriveEdges_eq collectReachableAncestors_eq split: if_splits)
  qed
qed

lemma NewProof_wf: "NewProof rk th target delay ns = Inr p \<Longrightarrow> proof_wf p"
  unfolding NewProof_Inr
  by (elim conjE exE, frule buildLayers_Inr) (simp add: proof_wf_def Node_def)

section \<open>The interface of a proof graph\<close>

text \<open>
  What the session and the planner rely on: finitely many nodes, parents inside the
  graph, layers that list every node once with its parents in earlier layers, and a
  target every node is an ancestor of.
\<close>

locale proof_graph =
  fixes ok :: "'p \<Rightarrow> bool"
    and ids :: "'p \<Rightarrow> hash set"
    and par :: "'p \<Rightarrow> hash \<Rightarrow> hash list"
    and lays :: "'p \<Rightarrow> hash list list"
    and tgt :: "'p \<Rightarrow> hash"
  assumes ids_finite: "ok p \<Longrightarrow> finite (ids p)"
    and par_in: "ok p \<Longrightarrow> set (par p t) \<subseteq> ids p"
    and lays_set: "ok p \<Longrightarrow> set (concat (lays p)) = ids p"
    and lays_distinct: "ok p \<Longrightarrow> distinct (concat (lays p))"
    and lays_par: "ok p \<Longrightarrow> i < length (lays p) \<Longrightarrow> t \<in> set (lays p ! i) \<Longrightarrow> q \<in> set (par p t)
       \<Longrightarrow> \<exists>j < i. q \<in> set (lays p ! j)"
    and lays_nonempty: "ok p \<Longrightarrow> i < length (lays p) \<Longrightarrow> lays p ! i \<noteq> []"
    and tgt_in: "ok p \<Longrightarrow> tgt p \<in> ids p"
    and tgt_reach: "ok p \<Longrightarrow> t \<in> ids p \<Longrightarrow> (tgt p, t) \<in> (parent_edges (par p))\<^sup>*"
begin

lemma layer_of: "ok p \<Longrightarrow> t \<in> ids p \<Longrightarrow> \<exists>i < length (lays p). t \<in> set (lays p ! i)"
  using lays_set [of p] set_concat_nth [of t "lays p"] by blast

lemma layer_in: "ok p \<Longrightarrow> i < length (lays p) \<Longrightarrow> t \<in> set (lays p ! i) \<Longrightarrow> t \<in> ids p"
  using lays_set [of p] set_concat_nth [of t "lays p"] by blast

text \<open>A set closed under parents that holds the target holds every node.\<close>

lemma target_closes:
  assumes ok: "ok p" and closed: "\<And>t q. t \<in> C \<Longrightarrow> q \<in> set (par p t) \<Longrightarrow> q \<in> C" and "tgt p \<in> C"
  shows "ids p \<subseteq> C"
proof
  fix t assume "t \<in> ids p"
  with ok have "(tgt p, t) \<in> (parent_edges (par p))\<^sup>*" by (rule tgt_reach)
  then show "t \<in> C"
    by (induction rule: rtrancl_induct) (auto simp: parent_edges_def intro: closed assms(3))
qed

text \<open>Whatever is done, some node is next: the earliest layer not finished has one.\<close>

lemma frontier_exists:
  assumes ok: "ok p" and "\<not> ids p \<subseteq> C"
  shows "\<exists>t \<in> ids p - C. set (par p t) \<subseteq> C"
proof -
  define pending where "pending i \<longleftrightarrow> i < length (lays p) \<and> \<not> set (lays p ! i) \<subseteq> C" for i
  obtain i where "pending i"
    using assms layer_of [OF ok] unfolding pending_def by blast
  then have least: "pending (Least pending)" "\<And>j. j < Least pending \<Longrightarrow> \<not> pending j"
    by (auto intro: LeastI dest: not_less_Least)
  then obtain t where t: "t \<in> set (lays p ! Least pending)" "t \<notin> C" "Least pending < length (lays p)"
    by (auto simp: pending_def)
  have "q \<in> C" if "q \<in> set (par p t)" for q
  proof -
    obtain j where "j < Least pending" "q \<in> set (lays p ! j)"
      using lays_par [OF ok t(3,1) \<open>q \<in> set (par p t)\<close>] by blast
    with least(2) t(3) show ?thesis by (auto simp: pending_def)
  qed
  with t layer_in [OF ok t(3,1)] show ?thesis by blast
qed

text \<open>Read one after the other, the layers are a broadcast order: parents come first.\<close>

lemma topological_order:
  assumes ok: "ok p" and split: "concat (lays p) = xs @ t # ys"
  shows "set (par p t) \<subseteq> set xs"
proof -
  have "t \<in> ids p"
    using lays_set [OF ok] split by auto
  then obtain i where i: "i < length (lays p)" "t \<in> set (lays p ! i)"
    using layer_of [OF ok] by blast
  let ?A = "concat (take i (lays p))"
  have "concat (lays p) = ?A @ concat (drop i (lays p))"
    by (simp flip: concat_append)
  then have eq: "xs @ t # ys = ?A @ concat (drop i (lays p))"
    using split by simp
  have fresh: "t \<notin> set ?A"
  proof
    assume "t \<in> set ?A"
    then obtain j where "j < i" "j < length (lays p)" "t \<in> set (lays p ! j)"
      unfolding set_concat_take by blast
    then show False
      using i distinct_concat_nth [OF lays_distinct [OF ok], of i j t] by simp
  qed
  have "\<exists>us. xs = ?A @ us"
  proof (rule ccontr)
    assume "\<nexists>us. xs = ?A @ us"
    with eq obtain us where "xs @ us = ?A" "t # ys = us @ concat (drop i (lays p))"
      unfolding append_eq_append_conv2 by blast
    with \<open>\<nexists>us. xs = ?A @ us\<close> fresh show False
      by (cases us) (auto simp flip: \<open>xs @ us = ?A\<close>)
  qed
  then obtain us where "xs = ?A @ us" ..
  moreover have "set (par p t) \<subseteq> set ?A"
  proof
    fix q assume "q \<in> set (par p t)"
    then obtain j where "j < i" "q \<in> set (lays p ! j)"
      using lays_par [OF ok i] by blast
    with i(1) show "q \<in> set ?A" by (auto simp only: set_concat_take)
  qed
  ultimately show ?thesis by auto
qed

text \<open>The target is alone in the last layer.\<close>

lemma ancestor_layer:
  assumes ok: "ok p" and "(t, q) \<in> (parent_edges (par p))\<^sup>+" and "i < length (lays p)" "t \<in> set (lays p ! i)"
  shows "\<exists>j < i. q \<in> set (lays p ! j)"
  using assms(2-)
proof (induction rule: trancl_induct)
  case (base q)
  then show ?case using lays_par [OF ok] by (auto simp: parent_edges_def)
next
  case (step q r)
  then obtain j where j: "j < i" "q \<in> set (lays p ! j)" by blast
  moreover from j step.prems have "j < length (lays p)" by simp
  ultimately obtain k where "k < j" "r \<in> set (lays p ! k)"
    using lays_par [OF ok, of j q r] step.hyps by (auto simp: parent_edges_def)
  with j show ?case by (meson less_trans)
qed

lemma last_layer: "ok p \<Longrightarrow> last (lays p) = [tgt p]"
proof -
  assume ok: "ok p"
  obtain i where i: "i < length (lays p)" "tgt p \<in> set (lays p ! i)"
    using layer_of [OF ok tgt_in [OF ok]] by blast
  have below: "t = tgt p \<or> j < i" if "j < length (lays p)" "t \<in> set (lays p ! j)" for j t
  proof -
    have "(tgt p, t) \<in> (parent_edges (par p))\<^sup>*"
      using tgt_reach [OF ok layer_in [OF ok that]] .
    then consider "t = tgt p" | "(tgt p, t) \<in> (parent_edges (par p))\<^sup>+"
      by (blast dest: rtranclD)
    then show ?thesis
    proof cases
      case 2
      then obtain k where "k < i" "t \<in> set (lays p ! k)"
        using ancestor_layer [OF ok _ i] by blast
      then have "k = j"
        using i that distinct_concat_nth [OF lays_distinct [OF ok], of k j t] by simp
      with \<open>k < i\<close> show ?thesis by simp
    qed simp
  qed
  have last: "i = length (lays p) - 1"
  proof (rule ccontr)
    assume "i \<noteq> length (lays p) - 1"
    with i(1) have k: "Suc i < length (lays p)" by linarith
    then obtain t where t: "t \<in> set (lays p ! Suc i)"
      using lays_nonempty [OF ok k] by (cases "lays p ! Suc i") auto
    with below [OF k t] have "t = tgt p" by simp
    with t i k show False
      using distinct_concat_nth [OF lays_distinct [OF ok], of "Suc i" i t] by simp
  qed
  have "t = tgt p" if "t \<in> set (lays p ! i)" for t
    using below [OF i(1) that] by simp
  with i(2) have "set (lays p ! i) = {tgt p}" by blast
  moreover have "distinct (lays p ! i)"
    using lays_distinct [OF ok] i(1) by (simp add: distinct_concat_iff)
  ultimately have "lays p ! i = [tgt p]"
    by (simp add: distinct_set_singleton)
  moreover have "lays p \<noteq> []" using i(1) by auto
  ultimately show ?thesis
    using last by (simp add: last_conv_nth)
qed

end

interpretation pg: proof_graph proof_wf "\<lambda>p. fmdom' (proof_nodes p)" proof_parents proof_layers
    "\<lambda>p. op_hash (targetOutpoint p)"
proof (standard, goal_cases)
  case (5 p i t q)
  have "q \<in> set (concat (take i (proof_layers p)))"
    using subsetD [OF layering_parents [OF proof_wf_layering [OF 5(1)] 5(2,3)] 5(4)] .
  then show ?case by (auto simp only: set_concat_take)
next
  case (7 p)
  then show ?case by (auto simp: proof_wf_def Node_def intro: fmdom'I)
qed (auto simp: proof_wf_def layering_def)

section \<open>Roots\<close>

lemma wf_Layer:
  assumes "proof_wf p"
  shows "Layer p t = Inr i \<longleftrightarrow> i < length (proof_layers p) \<and> t \<in> set (proof_layers p ! i)"
proof -
  have "fmlookup (layerByTxid p) t = Some i \<longleftrightarrow> i < length (proof_layers p) \<and> t \<in> set (proof_layers p ! i)"
    using proof_wf_index [OF assms] by (simp add: layer_index_def)
  then show ?thesis by (auto simp: Layer_def split: option.splits)
qed

lemma wf_ParentTxids:
  "proof_wf p \<Longrightarrow> ParentTxids p t = Inr qs \<longleftrightarrow> t \<in> fmdom' (proof_nodes p) \<and> qs = proof_parents p t"
  by (auto simp: ParentTxids_def fmlookup_dom'_iff)

lemma scan_inputs_eq:
  assumes "seen = set ext" and "distinct ext"
  shows "\<exists>ext'. scan_inputs ids ops (seen, ext) = (set ext', ext') \<and> distinct ext' \<and>
           set ext' = set ext \<union> {op \<in> set ops. op_hash op \<notin> ids}"
  using assms
proof (induction ops arbitrary: seen ext)
  case (Cons op ops)
  show ?case
    using Cons.IH [of seen ext] Cons.IH [of "insert op seen" "ext @ [op]"] Cons.prems by auto
qed auto

lemma scan_roots_eq:
  assumes "seen = set ext" and "distinct ext"
  shows "\<exists>ext'. scan_roots m roots (seen, ext) = (set ext', ext') \<and> distinct ext' \<and>
           set ext' = set ext \<union> {op. \<exists>r \<in> set roots. op \<in> set (node_ins m r) \<and> op_hash op \<notin> fmdom' m}"
  using assms
proof (induction roots arbitrary: seen ext)
  case (Cons r roots)
  obtain ext1 where e1: "scan_inputs (fmdom' m) (node_ins m r) (seen, ext) = (set ext1, ext1)"
    "distinct ext1" "set ext1 = set ext \<union> {op \<in> set (node_ins m r). op_hash op \<notin> fmdom' m}"
    using scan_inputs_eq [OF Cons.prems] by blast
  from Cons.IH [OF refl e1(2)] show ?case
    by (auto simp: e1)
qed auto

lemma wf_RootTxids:
  assumes wf: "proof_wf p"
  shows "set (RootTxids p) = {t \<in> fmdom' (proof_nodes p). proof_parents p t = []}"
proof -
  let ?L = "proof_layers p"
  have lay: "layering (fmdom' (proof_nodes p)) (proof_parents p) ?L"
    using wf by (rule proof_wf_layering)
  have roots: "set (RootTxids p) = (if ?L = [] then {} else set (?L ! 0))"
    by (cases ?L) (simp_all add: RootTxids_def)
  have "?L \<noteq> []"
    using pg.layer_of [OF wf pg.tgt_in [OF wf]] by auto
  moreover have "proof_parents p t = []" if "t \<in> set (?L ! 0)" "?L \<noteq> []" for t
    using layering_parents [OF lay, of 0 t] that by simp
  moreover have "t \<in> set (?L ! 0)" if none: "proof_parents p t = []" and "t \<in> fmdom' (proof_nodes p)" for t
  proof -
    obtain i where i: "i < length ?L" "t \<in> set (?L ! i)"
      using pg.layer_of [OF wf \<open>t \<in> fmdom' (proof_nodes p)\<close>] by blast
    then show ?thesis
      using layering_prev [OF lay] none by (cases i) force+
  qed
  ultimately show ?thesis
    unfolding roots using pg.layer_in [OF wf, of 0] by auto
qed

lemma in_node_ins:
  "op \<in> set (node_ins m t) \<longleftrightarrow>
     (\<exists>nd tx. fmlookup m t = Some nd \<and> node_tx nd = Some tx \<and> op \<in> set (tx_ins tx))"
  by (cases "fmlookup m t"; cases "node_tx (the (fmlookup m t))") (auto simp: node_ins_def)

section \<open>Acceptance\<close>

text \<open>The spending relation of a list of nodes, read off the transactions themselves.\<close>

definition spends :: "(msgTx \<Rightarrow> hash) \<Rightarrow> node option list \<Rightarrow> (hash \<times> hash) set" where
  "spends th ns =
     {(t, q). \<exists>nd tx. Some nd \<in> set ns \<and> node_tx nd = Some tx \<and> t = th tx \<and>
        q \<in> op_hash ` set (tx_ins tx) \<and> q \<in> node_key th ` set ns}"

lemma indexed_lookup:
  assumes "index_nodes th ns fmempty = Inr m"
  shows "fmlookup m t = Some nd \<longleftrightarrow> Some nd \<in> set ns \<and> (\<exists>tx. node_tx nd = Some tx \<and> th tx = t)"
proof
  assume "fmlookup m t = Some nd"
  then show "Some nd \<in> set ns \<and> (\<exists>tx. node_tx nd = Some tx \<and> th tx = t)"
    using index_nodes_lookup [OF assms] by blast
next
  have d: "distinct (map (node_key th) ns)"
    and m: "m = fold (\<lambda>n. fmupd (node_key th n) (the n)) ns fmempty"
    using assms by (auto simp: index_nodes_Inr)
  assume nd: "Some nd \<in> set ns \<and> (\<exists>tx. node_tx nd = Some tx \<and> th tx = t)"
  then have "node_key th (Some nd) = t" by (auto simp: node_key_def)
  with nd have "t \<in> node_key th ` set ns"
    and "(THE n. n \<in> set ns \<and> node_key th n = t) = Some nd"
    using d by (auto intro!: the_equality simp: distinct_map inj_on_def)
  then show "fmlookup m t = Some nd"
    by (simp add: m fmlookup_fold_upd [OF d])
qed

lemma indexed_dom:
  assumes "index_nodes th ns fmempty = Inr m"
  shows "fmdom' m = node_key th ` set ns"
proof -
  have "distinct (map (node_key th) ns)"
    and "m = fold (\<lambda>n. fmupd (node_key th n) (the n)) ns fmempty"
    using assms by (auto simp: index_nodes_Inr)
  then show ?thesis
    by (auto simp: fmlookup_dom'_iff fmlookup_fold_upd split: if_splits)
qed

lemma indexed_edges:
  assumes "index_nodes th ns fmempty = Inr m"
  shows "parent_edges (parents_of m) = spends th ns"
proof (rule set_eqI, clarify)
  fix t q
  have "(t, q) \<in> parent_edges (parents_of m) \<longleftrightarrow>
      (\<exists>op \<in> set (node_ins m t). q = op_hash op) \<and> q \<in> node_key th ` set ns"
    by (auto simp: parent_edges_def indexed_dom [OF assms])
  also have "\<dots> \<longleftrightarrow> (\<exists>nd tx. fmlookup m t = Some nd \<and> node_tx nd = Some tx \<and> q \<in> op_hash ` set (tx_ins tx))
      \<and> q \<in> node_key th ` set ns"
    unfolding Bex_def in_node_ins image_def by blast
  also have "\<dots> \<longleftrightarrow> (t, q) \<in> spends th ns"
    unfolding indexed_lookup [OF assms] spends_def mem_Collect_eq prod.case
    by (metis option.inject)
  finally show "(t, q) \<in> parent_edges (parents_of m) \<longleftrightarrow> (t, q) \<in> spends th ns" .
qed

lemma index_nodes_total:
  "list_all node_ok ns \<Longrightarrow> distinct (map (node_key th) ns) \<Longrightarrow> \<exists>m. index_nodes th ns fmempty = Inr m"
  by (simp add: index_nodes_Inr)

lemma buildLayers_total:
  "acyclic (parent_edges (parents_of m)) \<Longrightarrow> \<exists>L lb. buildLayers rk m (parents_of m) (children_of m) = Inr (L, lb)"
  using buildLayers_Inl [of rk m] by (cases "buildLayers rk m (parents_of m) (children_of m)") auto

lemma NewProof_accepts:
  "okR (NewProof rk th target delay ns) \<longleftrightarrow>
     ns \<noteq> [] \<and> length ns \<le> MaxProofNodes \<and> delay \<le> MaxCSVDelay \<and>
     list_all node_ok ns \<and> distinct (map (node_key th) ns) \<and>
     (\<exists>nd tx. Some nd \<in> set ns \<and> node_tx nd = Some tx \<and> th tx = op_hash target \<and>
        unat (op_index target) < length (tx_outs tx)) \<and>
     (\<forall>n \<in> set ns. (op_hash target, node_key th n) \<in> (spends th ns)\<^sup>*) \<and>
     acyclic (spends th ns)" (is "?L \<longleftrightarrow> ?R")
proof
  assume ?L
  then obtain p where p: "NewProof rk th target delay ns = Inr p" by (auto simp: okR_iff)
  then obtain m nd tx L lb where m: "index_nodes th ns fmempty = Inr m"
    and lk: "fmlookup m (op_hash target) = Some nd" "node_tx nd = Some tx" "unat (op_index target) < length (tx_outs tx)"
    and reach: "\<forall>t \<in> fmdom' m. (op_hash target, t) \<in> (parent_edges (parents_of m))\<^sup>*"
    and bl: "buildLayers rk m (parents_of m) (children_of m) = Inr (L, lb)"
    unfolding NewProof_Inr by blast
  have "acyclic (spends th ns)"
    using ng.layering_acyclic [of m L] buildLayers_Inr [OF bl] indexed_edges [OF m] by simp
  moreover have "\<forall>n \<in> set ns. (op_hash target, node_key th n) \<in> (spends th ns)\<^sup>*"
    using reach indexed_dom [OF m] indexed_edges [OF m] by simp
  moreover have "\<exists>nd tx. Some nd \<in> set ns \<and> node_tx nd = Some tx \<and> th tx = op_hash target \<and>
        unat (op_index target) < length (tx_outs tx)"
    using lk indexed_lookup [OF m] by auto
  moreover have "list_all node_ok ns" "distinct (map (node_key th) ns)"
    using m by (simp_all add: index_nodes_Inr)
  moreover have "ns \<noteq> []" "length ns \<le> MaxProofNodes" "delay \<le> MaxCSVDelay"
    using p unfolding NewProof_Inr by blast+
  ultimately show ?R by blast
next
  assume R: ?R
  then obtain m where m: "index_nodes th ns fmempty = Inr m"
    using index_nodes_total by blast
  obtain L lb where "buildLayers rk m (parents_of m) (children_of m) = Inr (L, lb)"
    using R buildLayers_total indexed_edges [OF m] by metis
  moreover have "\<forall>t \<in> fmdom' m. (op_hash target, t) \<in> (parent_edges (parents_of m))\<^sup>*"
    using R by (simp add: indexed_dom [OF m] indexed_edges [OF m])
  moreover from R obtain nd tx where "fmlookup m (op_hash target) = Some nd" "node_tx nd = Some tx"
    "unat (op_index target) < length (tx_outs tx)"
    using indexed_lookup [OF m] by blast
  ultimately have "\<exists>p. NewProof rk th target delay ns = Inr p"
    unfolding NewProof_Inr using R m by blast
  then show ?L by (simp add: okR_iff)
qed

section \<open>Properties\<close>

text \<open>
  C1: Kahn's layering orders the graph: in every constructed proof each node has a layer,
  all its in-proof parents are in strictly earlier layers, one of them in the layer just
  before, and the target alone makes up the last layer.
\<close>

theorem NewProof_layers:
  assumes "NewProof rk th target delay ns = Inr p"
  shows "(\<forall>t qs. ParentTxids p t = Inr qs \<longrightarrow>
           (\<exists>i. Layer p t = Inr i \<and> i < length (Layers p) \<and>
              (\<forall>q \<in> set qs. \<exists>j < i. Layer p q = Inr j) \<and>
              (i > 0 \<longrightarrow> (\<exists>q \<in> set qs. Layer p q = Inr (i - 1)))))
       \<and> last (Layers p) = [op_hash target]"
proof
  have wf: "proof_wf p" using assms by (rule NewProof_wf)
  note lay = proof_wf_layering [OF wf]
  show "\<forall>t qs. ParentTxids p t = Inr qs \<longrightarrow> (\<exists>i. Layer p t = Inr i \<and> i < length (Layers p) \<and>
      (\<forall>q \<in> set qs. \<exists>j < i. Layer p q = Inr j) \<and> (i > 0 \<longrightarrow> (\<exists>q \<in> set qs. Layer p q = Inr (i - 1))))"
  proof (intro allI impI)
    fix t qs assume "ParentTxids p t = Inr qs"
    then have t: "t \<in> fmdom' (proof_nodes p)" and qs: "qs = proof_parents p t"
      using wf_ParentTxids [OF wf] by auto
    obtain i where i: "i < length (proof_layers p)" "t \<in> set (proof_layers p ! i)"
      using pg.layer_of [OF wf t] by blast
    have "\<exists>j < i. Layer p q = Inr j" if "q \<in> set qs" for q
      using pg.lays_par [OF wf i] that i(1) qs wf_Layer [OF wf] by (meson less_trans)
    moreover have "\<exists>q \<in> set qs. Layer p q = Inr (i - 1)" if "i > 0"
      using that i layering_prev [OF lay] qs wf_Layer [OF wf] by (cases i) auto
    ultimately show "\<exists>i. Layer p t = Inr i \<and> i < length (Layers p) \<and>
        (\<forall>q \<in> set qs. \<exists>j < i. Layer p q = Inr j) \<and> (i > 0 \<longrightarrow> (\<exists>q \<in> set qs. Layer p q = Inr (i - 1)))"
      using i wf_Layer [OF wf] by (auto simp: Layers_def)
  qed
  have "targetOutpoint p = target"
    using assms by (auto simp: NewProof_Inr)
  then show "last (Layers p) = [op_hash target]"
    using pg.last_layer [OF wf] by (simp add: Layers_def)
qed

text \<open>
  C9: The constructor is deterministic: the same nodes in another order, under any other
  map iteration order, give the identical proof.
\<close>

theorem NewProof_deterministic:
  assumes "NewProof rk th target delay ns = Inr p" and "mset ns' = mset ns"
  shows "NewProof rk' th target delay ns' = Inr p"
proof -
  have "ns' \<noteq> [] \<longleftrightarrow> ns \<noteq> []" and "length ns' = length ns"
    using assms(2) by (auto dest: mset_eq_length)
  with assms show ?thesis
    unfolding NewProof_Inr using index_nodes_perm [OF _ assms(2)] buildLayers_order [of rk' _ _ _ rk]
    by metis
qed

text \<open>
  C8: \<open>NewProof\<close> accepts exactly the well-formed inputs: at least one and at most
  \<open>MaxProofNodes\<close> non-nil nodes with distinct txids, a CSV delay within the BIP-68 limit,
  a target output that exists, every node an ancestor of the target and no cycle.
\<close>

theorem NewProof_accepts_iff:
  "okR (NewProof rk th target delay ns) \<longleftrightarrow>
     ns \<noteq> [] \<and> length ns \<le> MaxProofNodes \<and> delay \<le> MaxCSVDelay \<and>
     list_all node_ok ns \<and> distinct (map (node_key th) ns) \<and>
     (\<exists>nd tx. Some nd \<in> set ns \<and> node_tx nd = Some tx \<and> th tx = op_hash target \<and>
        unat (op_index target) < length (tx_outs tx)) \<and>
     node_key th ` set ns \<subseteq> (spends th ns)\<^sup>* `` {op_hash target} \<and>
     acyclic (spends th ns)"
  unfolding NewProof_accepts by blast

text \<open>
  C10: \<open>buildLayers\<close> reports a cycle exactly when the parent relation derived from the
  transactions has one.
\<close>

theorem buildLayers_cycle_iff:
  "buildLayers rk m (fst (deriveEdges rk m)) (snd (deriveEdges rk m)) = Inl ContainsCycle \<longleftrightarrow>
     \<not> acyclic (parent_edges (fst (deriveEdges rk m)))"
proof (cases "buildLayers rk m (parents_of m) (children_of m)")
  case (Inl e)
  then show ?thesis using buildLayers_Inl [OF Inl] by (simp add: deriveEdges_eq)
next
  case (Inr Llb)
  obtain L lb where "Llb = (L, lb)" by (cases Llb)
  with Inr have "acyclic (parent_edges (parents_of m))"
    using buildLayers_Inr [of rk m L lb] ng.layering_acyclic [of m L] by blast
  with Inr show ?thesis by (simp add: deriveEdges_eq)
qed

text \<open>
  C11: The breadth-first walk returns exactly the ancestors of its start node.
\<close>

theorem collectReachableAncestors_correct:
  "t \<in> collectReachableAncestors start parents \<longleftrightarrow> (start, t) \<in> {(c, q). q \<in> set (parents c)}\<^sup>*"
  by (simp add: collectReachableAncestors_eq parent_edges_def)

text \<open>
  \<open>RootExternalInputs\<close> lists, once each and in order, exactly the inputs of the
  parentless nodes: the funding outpoints a competing spend could take.
\<close>

lemma RootExternalInputs_correct:
  assumes "NewProof rk th target delay ns = Inr p"
  shows "set (RootExternalInputs p) =
       {op. \<exists>t nd tx. ParentTxids p t = Inr [] \<and> Node p t = Some nd \<and> node_tx nd = Some tx \<and> op \<in> set (tx_ins tx)}
     \<and> distinct (RootExternalInputs p)
     \<and> sorted (map (\<lambda>op. (op_hash op, op_index op)) (RootExternalInputs p))"
proof -
  have wf: "proof_wf p" using assms by (rule NewProof_wf)
  obtain ext where e: "scan_roots (proof_nodes p) (RootTxids p) ({}, []) = (set ext, ext)" "distinct ext"
    "set ext = {op. \<exists>r \<in> set (RootTxids p). op \<in> set (node_ins (proof_nodes p) r) \<and> op_hash op \<notin> fmdom' (proof_nodes p)}"
    using scan_roots_eq [of "{}" "[]" "proof_nodes p" "RootTxids p"] by auto
  have roots: "r \<in> set (RootTxids p) \<longleftrightarrow> ParentTxids p r = Inr []" for r
    unfolding wf_RootTxids [OF wf] wf_ParentTxids [OF wf] by (simp add: eq_commute)
  have outside: "op_hash op \<notin> fmdom' (proof_nodes p)"
    if "ParentTxids p r = Inr []" "op \<in> set (node_ins (proof_nodes p) r)" for r op
  proof -
    have "set (parents_of (proof_nodes p) r) = {}"
      using that(1) wf_ParentTxids [OF wf] proof_wf_parents [OF wf] by simp
    with that(2) show ?thesis by auto
  qed
  have "set ext = {op. \<exists>r. ParentTxids p r = Inr [] \<and> op \<in> set (node_ins (proof_nodes p) r)}"
    unfolding e(3) Bex_def roots using outside by blast
  also have "\<dots> = {op. \<exists>t nd tx. ParentTxids p t = Inr [] \<and> Node p t = Some nd \<and> node_tx nd = Some tx \<and> op \<in> set (tx_ins tx)}"
    by (simp add: in_node_ins Node_def)
  finally have "set ext = {op. \<exists>t nd tx. ParentTxids p t = Inr [] \<and> Node p t = Some nd \<and> node_tx nd = Some tx \<and> op \<in> set (tx_ins tx)}" .
  then show ?thesis
    using e(1,2) by (simp add: RootExternalInputs_def)
qed

section \<open>A concrete proof\<close>

text \<open>
  Two transactions, the second spending the first, with a stand-in for \<open>TxHash\<close> that
  adds one to the first input's txid.
\<close>

definition ex_hash :: "msgTx \<Rightarrow> hash" where
  "ex_hash tx = (case tx_ins tx of [] \<Rightarrow> 0 | op # _ \<Rightarrow> op_hash op + 1)"

definition ex_node :: "hash \<Rightarrow> node" where
  "ex_node h = \<lparr>node_kind = NodeKindTree,
     node_tx = Some \<lparr>tx_ins = [\<lparr>op_hash = h, op_index = 0\<rparr>],
                     tx_outs = [\<lparr>out_value = 1000, out_pkScript = [0x51]\<rparr>]\<rparr>\<rparr>"

definition ex_target :: outPoint where
  "ex_target = \<lparr>op_hash = 6, op_index = 0\<rparr>"

abbreviation ex_nodes :: "node option list" where
  "ex_nodes \<equiv> [Some (ex_node 4), Some (ex_node 5)]"

abbreviation ex_rank :: "hash set \<Rightarrow> hash \<Rightarrow> nat" where
  "ex_rank \<equiv> \<lambda>_ _. 0"

lemmas proof_eval =
  NewProof_def ex_node_def ex_hash_def ex_target_def TXID_def MaxProofNodes_def MaxCSVDelay_def
  deriveEdges_def go_range_def node_ins_def collectReachableAncestors_def ancestor_walk.simps
  Enqueue_def NewQueue_def Dequeue_def buildLayers_def layer_loop.simps

definition ex_proof :: recoveryProof where
  "ex_proof = \<lparr>targetOutpoint = ex_target, csvDelay = 144,
     proof_nodes = fmupd 6 (ex_node 5) (fmupd 5 (ex_node 4) fmempty),
     proof_parents = (\<lambda>t. if t = 6 then [5] else []),
     proof_children = (\<lambda>t. if t = 5 then [6] else []),
     proof_layers = [[5], [6]], layerByTxid = fmupd 6 1 (fmupd 5 0 fmempty)\<rparr>"

lemma ex_NewProof: "NewProof ex_rank ex_hash ex_target 144 ex_nodes = Inr ex_proof"
  by (simp add: proof_eval ex_proof_def Let_def fun_eq_iff)

theorem NewProof_layers_witness:
  "\<exists>p. NewProof ex_rank ex_hash ex_target 144 ex_nodes = Inr p \<and> last (Layers p) = [6]"
  using NewProof_layers [OF ex_NewProof] ex_NewProof by (auto simp: ex_target_def)

theorem NewProof_deterministic_witness:
  "NewProof (\<lambda>_ t. unat t) ex_hash ex_target 144 [Some (ex_node 5), Some (ex_node 4)]
     = NewProof ex_rank ex_hash ex_target 144 ex_nodes"
  unfolding ex_NewProof
  by (rule NewProof_deterministic [OF ex_NewProof]) (simp add: add_mset_commute)

end
