(* ===== verification/Recovery_Session.thy ===== *)
theory Recovery_Session
  imports Recovery_Graph
begin

text \<open>
  The recovery session of \<open>lib/recovery/session.go\<close> and its durable form in
  \<open>lib/recovery/state.go\<close>: the per-transaction progress of one exit, driven by the
  caller's observations (\<open>MarkBroadcasted\<close>, \<open>MarkConfirmed\<close>, \<open>MarkFailed\<close>), the
  planning view \<open>SnapshotAt\<close>, and the export and validated reload of its state. The
  mutex around each method makes the calls atomic, so a concurrent history is a sequence
  of calls. A Go \<open>error\<close> value is its text; \<open>None\<close> is nil.
\<close>

section \<open>Data\<close>

text \<open>\<open>TxState\<close> is a Go int; the last constructor stands for the values with no name.\<close>

datatype txState = TxStatePending | TxStateBroadcasted | TxStateConfirmed | TxStateOther int

datatype sessionStatus =
    SessionStatusMaterializing
  | SessionStatusAwaitingCSV
  | SessionStatusSweepReady
  | SessionStatusFailed

record broadcastAction =
  ba_txid :: hash
  ba_node :: "node option"
  ba_layer :: nat
  ba_parents :: "hash list"

record blockedAction =
  bl_txid :: hash
  bl_layer :: nat
  bl_missing :: "hash list"

record csvStatus =
  cs_targetConfirmHeight :: i32
  cs_maturityHeight :: i32
  cs_blocksRemaining :: i32
  cs_ready :: bool

record sessionSnapshot =
  sn_status :: sessionStatus
  sn_ready :: "broadcastAction list"
  sn_awaiting :: "hash list"
  sn_blocked :: "blockedAction list"
  sn_csv :: "csvStatus option"
  sn_failedTxid :: "hash option"
  sn_lastError :: "string option"

record session =
  sess_proof :: recoveryProof
  txStates :: "(hash, txState) fmap"
  confirmHeights :: "(hash, i32) fmap"
  failedTxid :: "hash option"
  lastError :: "string option"

record sessionState =
  st_txStates :: "(hash, txState) fmap option"
  st_confirmHeights :: "(hash, i32) fmap option"
  st_failedTxid :: "hash option"
  st_lastError :: string

datatype session_error =
    ProofError proof_error
  | NilProof
  | NilState
  | SessionIsFailed string
  | SessionUnknownTxid hash
  | AlreadyConfirmed hash
  | AlreadyBroadcasted hash
  | NotReadyToBroadcast hash
  | NegativeHeight i32
  | ConfirmBeforeBroadcast hash
  | ReconfirmAtOtherHeight hash i32 i32
  | ConfirmWithUnconfirmedParents hash
  | NilFailure
  | TargetNotConfirmed hash
  | NilTxStates
  | NilConfirmHeights
  | FailureHalfSet
  | FailedTxidNotInProof hash
  | MissingTxState hash
  | UnexpectedConfirmHeight hash
  | MissingConfirmHeight hash
  | NegativeConfirmedHeight hash i32
  | UnknownTxState int hash
  | StateUnknownTxid hash
  | HeightUnknownTxid hash
  | ConfirmedWithUnconfirmedParent hash hash

section \<open>Maturity\<close>

text \<open>
  The sum is taken in int64, where it cannot wrap, and rejected when it leaves int32.
\<close>

definition ComputeMaturityHeight :: "i32 \<Rightarrow> u32 \<Rightarrow> proof_error + i32" where
  "ComputeMaturityHeight targetConfirmHeight delay =
     (if sint targetConfirmHeight < 0 then Inl (NegativeConfirmHeight targetConfirmHeight)
      else if delay > MaxCSVDelay then Inl (CSVDelayTooLarge delay)
      else let maturity = sint targetConfirmHeight + uint delay in
        if maturity > max_int32 then Inl MaturityOverflow
        else Inr (word_of_int maturity))"

section \<open>Sessions\<close>

definition NewSession :: "recoveryProof option \<Rightarrow> session_error + session" where
  "NewSession proof =
     (case proof of
        None \<Rightarrow> Inl NilProof
      | Some p \<Rightarrow>
          Inr \<lparr>sess_proof = p,
               txStates = fmap_of_list (map (\<lambda>t. (t, TxStatePending)) (sorted_list_of_set (fmdom' (proof_nodes p)))),
               confirmHeights = fmempty, failedTxid = None, lastError = None\<rparr>)"

text \<open>A missing map key reads as the zero value, which is \<open>TxStatePending\<close>.\<close>

definition tx_state :: "(hash, txState) fmap \<Rightarrow> hash \<Rightarrow> txState" where
  "tx_state m t = (case fmlookup m t of None \<Rightarrow> TxStatePending | Some s \<Rightarrow> s)"

definition missingParents :: "session \<Rightarrow> hash \<Rightarrow> session_error + hash list" where
  "missingParents s txid =
     (case ParentTxids (sess_proof s) txid of
        Inl e \<Rightarrow> Inl (ProofError e)
      | Inr parentTxids \<Rightarrow>
          Inr (sort (filter (\<lambda>q. tx_state (txStates s) q \<noteq> TxStateConfirmed) parentTxids)))"

definition isReady :: "session \<Rightarrow> hash \<Rightarrow> session_error + bool" where
  "isReady s txid = bindR (missingParents s txid) (\<lambda>missing. Inr (length missing = 0))"

definition MarkBroadcasted :: "session \<Rightarrow> hash \<Rightarrow> session_error + session" where
  "MarkBroadcasted s txid =
     (case lastError s of
        Some e \<Rightarrow> Inl (SessionIsFailed e)
      | None \<Rightarrow>
          if Node (sess_proof s) txid = None then Inl (SessionUnknownTxid txid)
          else if tx_state (txStates s) txid = TxStateConfirmed then Inl (AlreadyConfirmed txid)
          else if tx_state (txStates s) txid = TxStateBroadcasted then Inl (AlreadyBroadcasted txid)
          else bindR (isReady s txid) (\<lambda>ready.
            if \<not> ready then Inl (NotReadyToBroadcast txid)
            else Inr (s\<lparr>txStates := fmupd txid TxStateBroadcasted (txStates s)\<rparr>)))"

definition confirm_ready :: "session \<Rightarrow> hash \<Rightarrow> i32 \<Rightarrow> session_error + session" where
  "confirm_ready s txid height =
     bindR (isReady s txid) (\<lambda>ready.
       if \<not> ready then Inl (ConfirmWithUnconfirmedParents txid)
       else Inr (s\<lparr>txStates := fmupd txid TxStateConfirmed (txStates s),
                  confirmHeights := fmupd txid height (confirmHeights s)\<rparr>))"

definition MarkConfirmed :: "session \<Rightarrow> hash \<Rightarrow> i32 \<Rightarrow> session_error + session" where
  "MarkConfirmed s txid height =
     (case lastError s of
        Some e \<Rightarrow> Inl (SessionIsFailed e)
      | None \<Rightarrow>
          if Node (sess_proof s) txid = None then Inl (SessionUnknownTxid txid)
          else if sint height < 0 then Inl (NegativeHeight height)
          else (case tx_state (txStates s) txid of
              TxStatePending \<Rightarrow> Inl (ConfirmBeforeBroadcast txid)
            | TxStateConfirmed \<Rightarrow>
                (let existing = (case fmlookup (confirmHeights s) txid of None \<Rightarrow> 0 | Some h \<Rightarrow> h) in
                 if existing = height then Inr s
                 else Inl (ReconfirmAtOtherHeight txid existing height))
            | TxStateBroadcasted \<Rightarrow> confirm_ready s txid height
            | TxStateOther _ \<Rightarrow> confirm_ready s txid height))"

definition MarkFailed :: "session \<Rightarrow> hash \<Rightarrow> string option \<Rightarrow> session_error + session" where
  "MarkFailed s txid err =
     (case err of
        None \<Rightarrow> Inl NilFailure
      | Some msg \<Rightarrow>
          (case lastError s of
             Some e \<Rightarrow> Inl (SessionIsFailed e)
           | None \<Rightarrow>
               if Node (sess_proof s) txid = None then Inl (SessionUnknownTxid txid)
               else Inr (s\<lparr>failedTxid := Some txid, lastError := Some msg\<rparr>)))"

section \<open>Snapshots\<close>

definition materializationComplete :: "session \<Rightarrow> bool" where
  "materializationComplete s \<longleftrightarrow>
     (\<forall>txid \<in> fmdom' (proof_nodes (sess_proof s)). tx_state (txStates s) txid = TxStateConfirmed)"

definition csvStatusAt :: "session \<Rightarrow> i32 \<Rightarrow> session_error + csvStatus" where
  "csvStatusAt s height =
     (let targetTxid = op_hash (TargetOutpoint (sess_proof s)) in
      case fmlookup (confirmHeights s) targetTxid of
        None \<Rightarrow> Inl (TargetNotConfirmed targetTxid)
      | Some targetConfirmHeight \<Rightarrow>
          (case ComputeMaturityHeight targetConfirmHeight (CSVDelay (sess_proof s)) of
             Inl e \<Rightarrow> Inl (ProofError e)
           | Inr maturityHeight \<Rightarrow>
               (let blocksRemaining = maturityHeight - height in
                Inr \<lparr>cs_targetConfirmHeight = targetConfirmHeight,
                     cs_maturityHeight = maturityHeight,
                     cs_blocksRemaining = (if sint blocksRemaining < 0 then 0 else blocksRemaining),
                     cs_ready = (sint height \<ge> sint maturityHeight)\<rparr>)))"

type_synonym buckets = "broadcastAction list \<times> hash list \<times> blockedAction list"

definition classify_tx :: "session \<Rightarrow> nat \<Rightarrow> hash \<Rightarrow> buckets \<Rightarrow> session_error + buckets" where
  "classify_tx s layerIndex txid b =
     (let (ready, awaiting, blocked) = b in
      case tx_state (txStates s) txid of
        TxStateBroadcasted \<Rightarrow> Inr (ready, awaiting @ [txid], blocked)
      | TxStateConfirmed \<Rightarrow> Inr (ready, awaiting, blocked)
      | TxStateOther _ \<Rightarrow> Inr (ready, awaiting, blocked)
      | TxStatePending \<Rightarrow>
          bindR (missingParents s txid) (\<lambda>missing.
            if length missing = 0 then
              (case ParentTxids (sess_proof s) txid of
                 Inl e \<Rightarrow> Inl (ProofError e)
               | Inr parentTxids \<Rightarrow>
                   Inr (ready @ [\<lparr>ba_txid = txid, ba_node = Node (sess_proof s) txid,
                                  ba_layer = layerIndex, ba_parents = parentTxids\<rparr>],
                        awaiting, blocked))
            else Inr (ready, awaiting,
                      blocked @ [\<lparr>bl_txid = txid, bl_layer = layerIndex, bl_missing = missing\<rparr>])))"

fun classify_layer :: "session \<Rightarrow> nat \<Rightarrow> hash list \<Rightarrow> buckets \<Rightarrow> session_error + buckets" where
  "classify_layer s i [] b = Inr b"
| "classify_layer s i (txid # txids) b = bindR (classify_tx s i txid b) (classify_layer s i txids)"

fun classify_layers :: "session \<Rightarrow> nat \<Rightarrow> hash list list \<Rightarrow> buckets \<Rightarrow> session_error + buckets" where
  "classify_layers s i [] b = Inr b"
| "classify_layers s i (l # ls) b = bindR (classify_layer s i l b) (classify_layers s (Suc i) ls)"

definition SnapshotAt :: "session \<Rightarrow> i32 \<Rightarrow> session_error + sessionSnapshot" where
  "SnapshotAt s height =
     bindR (classify_layers s 0 (proof_layers (sess_proof s)) ([], [], [])) (\<lambda>(ready, awaiting, blocked).
       let snapshot = \<lparr>sn_status = SessionStatusMaterializing, sn_ready = ready,
             sn_awaiting = sort awaiting, sn_blocked = blocked, sn_csv = None,
             sn_failedTxid = failedTxid s, sn_lastError = lastError s\<rparr> in
       if lastError s \<noteq> None then
         Inr (snapshot\<lparr>sn_status := SessionStatusFailed, sn_ready := [], sn_awaiting := [], sn_blocked := []\<rparr>)
       else if \<not> materializationComplete s then Inr snapshot
       else bindR (csvStatusAt s height) (\<lambda>csv.
         Inr (snapshot\<lparr>sn_csv := Some csv,
            sn_status := (if cs_ready csv then SessionStatusSweepReady else SessionStatusAwaitingCSV)\<rparr>)))"

section \<open>The durable state\<close>

text \<open>One pass over the proof's nodes, in the order the runtime chooses.\<close>

definition check_node :: "sessionState \<Rightarrow> hash \<Rightarrow> session_error option" where
  "check_node st txid =
     (case fmlookup (the (st_txStates st)) txid of
        None \<Rightarrow> Some (MissingTxState txid)
      | Some txState \<Rightarrow>
          (let confirmHeight = fmlookup (the (st_confirmHeights st)) txid in
           case txState of
             TxStateConfirmed \<Rightarrow>
               (case confirmHeight of
                  None \<Rightarrow> Some (MissingConfirmHeight txid)
                | Some h \<Rightarrow> if sint h < 0 then Some (NegativeConfirmedHeight txid h) else None)
           | TxStateOther i \<Rightarrow> Some (UnknownTxState i txid)
           | _ \<Rightarrow> if confirmHeight \<noteq> None then Some (UnexpectedConfirmHeight txid) else None))"

definition check_parents :: "recoveryProof \<Rightarrow> sessionState \<Rightarrow> hash \<Rightarrow> session_error option" where
  "check_parents p st txid =
     (if fmlookup (the (st_txStates st)) txid \<noteq> Some TxStateConfirmed then None
      else case ParentTxids p txid of
        Inl e \<Rightarrow> Some (ProofError e)
      | Inr parents \<Rightarrow>
          firstErr (\<lambda>q. if tx_state (the (st_txStates st)) q = TxStateConfirmed then None
                        else Some (ConfirmedWithUnconfirmedParent txid q)) parents)"

definition validateSessionState :: "(hash set \<Rightarrow> hash \<Rightarrow> nat) \<Rightarrow> recoveryProof \<Rightarrow> sessionState
    \<Rightarrow> session_error option" where
  "validateSessionState rk p st =
     (if st_txStates st = None then Some NilTxStates
      else if st_confirmHeights st = None then Some NilConfirmHeights
      else if (st_failedTxid st = None) \<noteq> (st_lastError st = []) then Some FailureHalfSet
      else thenErr (case st_failedTxid st of
               None \<Rightarrow> None
             | Some txid \<Rightarrow> if Node p txid = None then Some (FailedTxidNotInProof txid) else None)
          (thenErr (firstErr (check_node st) (go_range rk (fmdom' (proof_nodes p))))
          (thenErr (firstErr (\<lambda>txid. if Node p txid \<noteq> None then None else Some (StateUnknownTxid txid))
                      (go_range rk (fmdom' (the (st_txStates st)))))
          (thenErr (firstErr (\<lambda>txid. if Node p txid \<noteq> None then None else Some (HeightUnknownTxid txid))
                      (go_range rk (fmdom' (the (st_confirmHeights st)))))
            (firstErr (check_parents p st) (go_range rk (fmdom' (the (st_txStates st)))))))))"

definition NewSessionFromState :: "(hash set \<Rightarrow> hash \<Rightarrow> nat) \<Rightarrow> recoveryProof option \<Rightarrow> sessionState option
    \<Rightarrow> session_error + session" where
  "NewSessionFromState rk proof state =
     (case proof of
        None \<Rightarrow> Inl NilProof
      | Some p \<Rightarrow>
          (case state of
             None \<Rightarrow> Inl NilState
           | Some st \<Rightarrow>
               (case validateSessionState rk p st of
                  Some e \<Rightarrow> Inl e
                | None \<Rightarrow>
                    Inr \<lparr>sess_proof = p, txStates = the (st_txStates st),
                         confirmHeights = the (st_confirmHeights st), failedTxid = st_failedTxid st,
                         lastError = (if st_lastError st \<noteq> [] then Some (st_lastError st) else None)\<rparr>)))"

definition ExportState :: "session \<Rightarrow> sessionState" where
  "ExportState s =
     \<lparr>st_txStates = Some (txStates s), st_confirmHeights = Some (confirmHeights s),
      st_failedTxid = failedTxid s,
      st_lastError = (case lastError s of None \<Rightarrow> [] | Some msg \<Rightarrow> msg)\<rparr>"

section \<open>Calls as steps\<close>

datatype session_call =
    CallBroadcasted hash
  | CallConfirmed hash i32
  | CallFailed hash "string option"

fun session_step :: "session \<Rightarrow> session_call \<Rightarrow> session_error + session" where
  "session_step s (CallBroadcasted t) = MarkBroadcasted s t"
| "session_step s (CallConfirmed t h) = MarkConfirmed s t h"
| "session_step s (CallFailed t e) = MarkFailed s t e"

end
