(* ===== verification/Unroll_Planner.thy ===== *)
theory Unroll_Planner
  imports Recovery_Session "HOL-Library.Product_Lexorder"
begin

text \<open>
  The stateless exit planner of \<open>unrollplan/planner.go\<close>: the durable progress state its
  callers own, the validation of that state against a recovery proof, and \<open>Plan\<close>, which
  derives the frontier and the sweep decision at a block height. An \<open>fn.Option\<close> is an
  \<open>option\<close>, an \<open>fn.Set\<close> a set; a nil receiver or argument is \<open>None\<close>.
\<close>

section \<open>Data\<close>

text \<open>\<open>SweepStatus\<close> is a Go int; the last constructor stands for the values with no name.\<close>

datatype sweepStatus =
    SweepStatusPending
  | SweepStatusBroadcasted
  | SweepStatusConfirmed
  | SweepStatusOther int

record sweepState =
  sw_status :: sweepStatus
  sw_txid :: "hash option"
  sw_confirmHeight :: "i32 option"

record planState =
  confirmedTxids :: "hash list"
  inFlightTxids :: "hash list"
  targetConfirmHeight :: "i32 option"
  ps_sweep :: sweepState

record csvInfo =
  ci_targetConfirmHeight :: i32
  ci_maturityHeight :: i32
  ci_blocksRemaining :: i32
  ci_ready :: bool

record txFrontier =
  tf_txid :: hash
  tf_node :: "node option"
  tf_layer :: nat
  tf_parents :: "hash list"

text \<open>\<open>BlockedTx\<close> embeds \<open>TxFrontier\<close>.\<close>

record blockedTx = txFrontier +
  bt_missing :: "hash list"

record planSnapshot =
  pl_ready :: "txFrontier list"
  pl_inFlight :: "txFrontier list"
  pl_blocked :: "blockedTx list"
  pl_targetConfirmed :: bool
  pl_targetConfirmHeight :: "i32 option"
  pl_csv :: "csvInfo option"
  pl_allProofConfirmed :: bool
  pl_needSweep :: bool
  pl_done :: bool
  pl_sweep :: sweepState

datatype plan_error =
    PlanProofError proof_error
  | PlanNilProof
  | PlanNilState
  | DuplicateEntry string hash
  | ConfirmedAndInFlight hash
  | ConfirmedNotInProof hash
  | InFlightNotInProof hash
  | TargetHeightWithoutTarget
  | TargetWithoutHeight
  | NegativeTargetHeight i32
  | SweepCollides hash
  | PendingSweepHasTxid
  | PendingSweepHasHeight
  | BroadcastedSweepNoTxid
  | BroadcastedSweepHasHeight
  | BroadcastedSweepNoTarget
  | ConfirmedSweepNoTxid
  | ConfirmedSweepNoHeight
  | NegativeSweepHeight i32
  | ConfirmedSweepNoTarget
  | ConfirmedSweepNoTargetHeight
  | ConfirmedSweepMaturity proof_error
  | SweepBeforeMaturity i32 i32
  | UnknownSweepStatus int
  | UnconfirmedParents hash "hash list"
  | InFlightTx hash plan_error
  | NilTargetHeight

section \<open>Planners\<close>

record planner =
  planner_proof :: "recoveryProof option"

definition NewPlanner :: "recoveryProof option \<Rightarrow> plan_error + planner" where
  "NewPlanner proof =
     (case proof of None \<Rightarrow> Inl PlanNilProof | Some p \<Rightarrow> Inr \<lparr>planner_proof = Some p\<rparr>)"

definition Proof :: "planner option \<Rightarrow> recoveryProof option" where
  "Proof p = (case p of None \<Rightarrow> None | Some pl \<Rightarrow> planner_proof pl)"

section \<open>Validation\<close>

fun hashSet_loop :: "hash list \<Rightarrow> string \<Rightarrow> hash set \<Rightarrow> plan_error + hash set" where
  "hashSet_loop [] label S = Inr S"
| "hashSet_loop (value # values) label S =
     (if value \<in> S then Inl (DuplicateEntry label value) else hashSet_loop values label (insert value S))"

definition hashSetFromSlice :: "hash list \<Rightarrow> string \<Rightarrow> plan_error + hash set" where
  "hashSetFromSlice values label = hashSet_loop values label {}"

definition ensureDisjoint :: "(hash set \<Rightarrow> hash \<Rightarrow> nat) \<Rightarrow> hash set \<Rightarrow> hash set \<Rightarrow> plan_error option" where
  "ensureDisjoint rk a b =
     (let overlap = a \<inter> b in
      if overlap = {} then None
      else firstErr (\<lambda>txid. Some (ConfirmedAndInFlight txid)) (go_range rk overlap))"

definition confirmedTxidSetContains :: "hash set \<Rightarrow> hash \<Rightarrow> bool" where
  "confirmedTxidSetContains S txid \<longleftrightarrow> txid \<in> S"

definition missingParentsFromSet :: "recoveryProof \<Rightarrow> hash set \<Rightarrow> hash \<Rightarrow> plan_error + hash list" where
  "missingParentsFromSet p confirmed txid =
     (case ParentTxids p txid of
        Inl e \<Rightarrow> Inl (PlanProofError e)
      | Inr parentTxids \<Rightarrow> Inr (sort (filter (\<lambda>parent. parent \<notin> confirmed) parentTxids)))"

definition ensureParentsConfirmed :: "recoveryProof \<Rightarrow> hash set \<Rightarrow> hash \<Rightarrow> plan_error option" where
  "ensureParentsConfirmed p confirmed txid =
     (case missingParentsFromSet p confirmed txid of
        Inl e \<Rightarrow> Some e
      | Inr missing \<Rightarrow> if length missing = 0 then None else Some (UnconfirmedParents txid missing))"

definition validateSweepState :: "sweepState \<Rightarrow> hash set \<Rightarrow> recoveryProof \<Rightarrow> i32 option \<Rightarrow> plan_error option" where
  "validateSweepState sweep confirmed p targetHeight =
     thenErr (case sw_txid sweep of
                None \<Rightarrow> None
              | Some txid \<Rightarrow> if Node p txid \<noteq> None then Some (SweepCollides txid) else None)
       (case sw_status sweep of
          SweepStatusPending \<Rightarrow>
            if sw_txid sweep \<noteq> None then Some PendingSweepHasTxid
            else if sw_confirmHeight sweep \<noteq> None then Some PendingSweepHasHeight
            else None
        | SweepStatusBroadcasted \<Rightarrow>
            if sw_txid sweep = None then Some BroadcastedSweepNoTxid
            else if sw_confirmHeight sweep \<noteq> None then Some BroadcastedSweepHasHeight
            else if op_hash (TargetOutpoint p) \<notin> confirmed then Some BroadcastedSweepNoTarget
            else None
        | SweepStatusConfirmed \<Rightarrow>
            if sw_txid sweep = None then Some ConfirmedSweepNoTxid
            else (case sw_confirmHeight sweep of
                None \<Rightarrow> Some ConfirmedSweepNoHeight
              | Some confirmHeight \<Rightarrow>
                  if sint confirmHeight < 0 then Some (NegativeSweepHeight confirmHeight)
                  else if op_hash (TargetOutpoint p) \<notin> confirmed then Some ConfirmedSweepNoTarget
                  else (case targetHeight of
                      None \<Rightarrow> Some ConfirmedSweepNoTargetHeight
                    | Some th \<Rightarrow>
                        (case ComputeMaturityHeight th (CSVDelay p) of
                           Inl e \<Rightarrow> Some (ConfirmedSweepMaturity e)
                         | Inr maturityHeight \<Rightarrow>
                             if sint confirmHeight < sint maturityHeight
                             then Some (SweepBeforeMaturity confirmHeight maturityHeight)
                             else None)))
        | SweepStatusOther i \<Rightarrow> Some (UnknownSweepStatus i))"

definition check_target_height :: "recoveryProof \<Rightarrow> hash set \<Rightarrow> i32 option \<Rightarrow> plan_error option" where
  "check_target_height p confirmed height =
     (let targetConfirmed = confirmedTxidSetContains confirmed (op_hash (TargetOutpoint p)) in
      if height \<noteq> None \<and> \<not> targetConfirmed then Some TargetHeightWithoutTarget
      else if targetConfirmed \<and> height = None then Some TargetWithoutHeight
      else case height of
        None \<Rightarrow> None
      | Some h \<Rightarrow> if sint h < 0 then Some (NegativeTargetHeight h) else None)"

definition validate_sets :: "(hash set \<Rightarrow> hash \<Rightarrow> nat) \<Rightarrow> recoveryProof \<Rightarrow> planState \<Rightarrow> hash set \<Rightarrow> hash set
    \<Rightarrow> plan_error option" where
  "validate_sets rk p s confirmed inflight =
     thenErr (ensureDisjoint rk confirmed inflight)
    (thenErr (firstErr (\<lambda>txid. if Node p txid = None then Some (ConfirmedNotInProof txid) else None)
                (go_range rk confirmed))
    (thenErr (firstErr (\<lambda>txid. if Node p txid = None then Some (InFlightNotInProof txid) else None)
                (go_range rk inflight))
    (thenErr (check_target_height p confirmed (targetConfirmHeight s))
    (thenErr (validateSweepState (ps_sweep s) confirmed p (targetConfirmHeight s))
    (thenErr (firstErr (ensureParentsConfirmed p confirmed) (go_range rk confirmed))
             (firstErr (\<lambda>txid. map_option (InFlightTx txid) (ensureParentsConfirmed p confirmed txid))
                (go_range rk inflight)))))))"

definition Validate :: "(hash set \<Rightarrow> hash \<Rightarrow> nat) \<Rightarrow> planState option \<Rightarrow> recoveryProof option \<Rightarrow> plan_error option" where
  "Validate rk state proof =
     (case proof of
        None \<Rightarrow> Some PlanNilProof
      | Some p \<Rightarrow>
          (case state of
             None \<Rightarrow> Some PlanNilState
           | Some s \<Rightarrow>
               (case hashSetFromSlice (confirmedTxids s) ''confirmed txids'' of
                  Inl e \<Rightarrow> Some e
                | Inr confirmed \<Rightarrow>
                    (case hashSetFromSlice (inFlightTxids s) ''in-flight txids'' of
                       Inl e \<Rightarrow> Some e
                     | Inr inflight \<Rightarrow> validate_sets rk p s confirmed inflight))))"

section \<open>Planning\<close>

definition csvInfoAt :: "recoveryProof \<Rightarrow> i32 \<Rightarrow> i32 option \<Rightarrow> plan_error + csvInfo" where
  "csvInfoAt p height targetHeight =
     (case targetHeight of
        None \<Rightarrow> Inl NilTargetHeight
      | Some confirmHeight \<Rightarrow>
          (case ComputeMaturityHeight confirmHeight (CSVDelay p) of
             Inl e \<Rightarrow> Inl (PlanProofError e)
           | Inr maturityHeight \<Rightarrow>
               (let blocksRemaining = maturityHeight - height in
                Inr \<lparr>ci_targetConfirmHeight = confirmHeight,
                     ci_maturityHeight = maturityHeight,
                     ci_blocksRemaining = (if sint blocksRemaining < 0 then 0 else blocksRemaining),
                     ci_ready = (sint height \<ge> sint maturityHeight)\<rparr>)))"

definition allProofTxidsConfirmed :: "recoveryProof \<Rightarrow> hash set \<Rightarrow> bool" where
  "allProofTxidsConfirmed p confirmed \<longleftrightarrow> list_all (list_all (\<lambda>txid. txid \<in> confirmed)) (Layers p)"

definition copySweepState :: "sweepState \<Rightarrow> sweepState" where
  "copySweepState s = \<lparr>sw_status = sw_status s, sw_txid = sw_txid s, sw_confirmHeight = sw_confirmHeight s\<rparr>"

text \<open>
  \<open>sort.Slice\<close> with the order by layer and then txid. It is not a stable sort, but no two
  entries of a frontier share a txid.
\<close>

abbreviation frontier_key :: "'a txFrontier_scheme \<Rightarrow> nat \<times> hash" where
  "frontier_key f \<equiv> (tf_layer f, tf_txid f)"

definition sortFrontier :: "txFrontier list \<Rightarrow> txFrontier list" where
  "sortFrontier frontier = sort_key frontier_key frontier"

definition sortBlocked :: "blockedTx list \<Rightarrow> blockedTx list" where
  "sortBlocked frontier = sort_key frontier_key frontier"

type_synonym frontiers = "txFrontier list \<times> txFrontier list \<times> blockedTx list"

definition plan_tx :: "recoveryProof \<Rightarrow> hash set \<Rightarrow> hash set \<Rightarrow> nat \<Rightarrow> hash \<Rightarrow> frontiers \<Rightarrow> plan_error + frontiers" where
  "plan_tx p confirmed inflight layerIndex txid acc =
     (let (ready, inFlight, blocked) = acc; nd = Node p txid in
      case ParentTxids p txid of
        Inl e \<Rightarrow> Inl (PlanProofError e)
      | Inr parentTxids \<Rightarrow>
          if txid \<in> confirmed then Inr acc
          else let f = \<lparr>tf_txid = txid, tf_node = nd, tf_layer = layerIndex, tf_parents = parentTxids\<rparr> in
            if txid \<in> inflight then Inr (ready, inFlight @ [f], blocked)
            else bindR (missingParentsFromSet p confirmed txid) (\<lambda>missing.
              if length missing = 0 then Inr (ready @ [f], inFlight, blocked)
              else Inr (ready, inFlight, blocked @ [txFrontier.extend f \<lparr>bt_missing = missing\<rparr>])))"

fun plan_layer :: "recoveryProof \<Rightarrow> hash set \<Rightarrow> hash set \<Rightarrow> nat \<Rightarrow> hash list \<Rightarrow> frontiers \<Rightarrow> plan_error + frontiers" where
  "plan_layer p C F i [] acc = Inr acc"
| "plan_layer p C F i (txid # txids) acc = bindR (plan_tx p C F i txid acc) (plan_layer p C F i txids)"

fun plan_layers :: "recoveryProof \<Rightarrow> hash set \<Rightarrow> hash set \<Rightarrow> nat \<Rightarrow> hash list list \<Rightarrow> frontiers \<Rightarrow> plan_error + frontiers" where
  "plan_layers p C F i [] acc = Inr acc"
| "plan_layers p C F i (l # ls) acc = bindR (plan_layer p C F i l acc) (plan_layers p C F (Suc i) ls)"

definition plan_sets :: "recoveryProof \<Rightarrow> i32 \<Rightarrow> planState \<Rightarrow> hash set \<Rightarrow> hash set \<Rightarrow> plan_error + planSnapshot" where
  "plan_sets p height s confirmed inflight =
     bindR (plan_layers p confirmed inflight 0 (Layers p) ([], [], [])) (\<lambda>(ready, inFlight, blocked).
       let sweep = copySweepState (ps_sweep s);
           targetConfirmed = confirmedTxidSetContains confirmed (op_hash (TargetOutpoint p)) in
       bindR (if targetConfirmed
              then bindR (csvInfoAt p height (targetConfirmHeight s)) (\<lambda>csv.
                     Inr (Some csv, ci_ready csv \<and> sw_status sweep = SweepStatusPending))
              else Inr (None, False)) (\<lambda>(csv, needSweep).
         Inr \<lparr>pl_ready = sortFrontier ready, pl_inFlight = sortFrontier inFlight,
              pl_blocked = sortBlocked blocked, pl_targetConfirmed = targetConfirmed,
              pl_targetConfirmHeight = targetConfirmHeight s, pl_csv = csv,
              pl_allProofConfirmed = allProofTxidsConfirmed p confirmed, pl_needSweep = needSweep,
              pl_done = (sw_status sweep = SweepStatusConfirmed), pl_sweep = sweep\<rparr>))"

definition Plan :: "(hash set \<Rightarrow> hash \<Rightarrow> nat) \<Rightarrow> planner option \<Rightarrow> i32 \<Rightarrow> planState option \<Rightarrow> plan_error + planSnapshot" where
  "Plan rk planner height state =
     (case Proof planner of
        None \<Rightarrow> Inl PlanNilProof
      | Some p \<Rightarrow>
          (case state of
             None \<Rightarrow> Inl PlanNilState
           | Some s \<Rightarrow>
               (case Validate rk (Some s) (Some p) of
                  Some e \<Rightarrow> Inl e
                | None \<Rightarrow>
                    bindR (hashSetFromSlice (confirmedTxids s) ''confirmed txids'') (\<lambda>confirmed.
                    bindR (hashSetFromSlice (inFlightTxids s) ''in-flight txids'') (\<lambda>inflight.
                      plan_sets p height s confirmed inflight)))))"

end
