(* ===== verification/Session_Facts.thy ===== *)
theory Session_Facts
  imports Recovery_Session
begin

text \<open>
  Correctness of recovery sessions: what each successful call changes, the invariant all
  calls keep, what they never take back (the interpretation \<open>sm\<close> of
  \<open>latching_machine\<close>), the planning snapshot, and the export and reload of the
  durable state.
\<close>

section \<open>What a successful call means\<close>

lemma tx_state_upd [simp]: "tx_state (fmupd t x m) q = (if q = t then x else tx_state m q)"
  by (simp add: tx_state_def)

lemma Node_dom: "Node p t = None \<longleftrightarrow> t \<notin> fmdom' (proof_nodes p)"
  by (cases "fmlookup (proof_nodes p) t") (auto simp: Node_def fmlookup_dom'_iff)

lemma ParentTxids_dom:
  "ParentTxids p t = (if t \<in> fmdom' (proof_nodes p) then Inr (proof_parents p t) else Inl (UnknownTxid t))"
  by (auto simp: ParentTxids_def fmlookup_dom'_iff)

definition parents_confirmed :: "session \<Rightarrow> hash \<Rightarrow> bool" where
  "parents_confirmed s t \<longleftrightarrow>
     (\<forall>q \<in> set (proof_parents (sess_proof s) t). tx_state (txStates s) q = TxStateConfirmed)"

lemma sort_Nil_iff [simp]: "sort xs = [] \<longleftrightarrow> xs = ([] :: hash list)"
  by (metis set_empty set_sort)

lemma isReady_eq:
  "t \<in> fmdom' (proof_nodes (sess_proof s)) \<Longrightarrow> isReady s t = Inr (parents_confirmed s t)"
  by (auto simp: isReady_def missingParents_def ParentTxids_dom parents_confirmed_def filter_empty_conv)

lemma MarkBroadcasted_Inr:
  "MarkBroadcasted s t = Inr s' \<longleftrightarrow>
     lastError s = None \<and> t \<in> fmdom' (proof_nodes (sess_proof s)) \<and>
     tx_state (txStates s) t \<notin> {TxStateConfirmed, TxStateBroadcasted} \<and> parents_confirmed s t \<and>
     s' = s\<lparr>txStates := fmupd t TxStateBroadcasted (txStates s)\<rparr>"
  by (auto simp: MarkBroadcasted_def Node_dom isReady_eq split: option.splits if_splits)

lemma confirm_ready_Inr:
  "t \<in> fmdom' (proof_nodes (sess_proof s)) \<Longrightarrow>
   confirm_ready s t h = Inr s' \<longleftrightarrow> parents_confirmed s t \<and>
     s' = s\<lparr>txStates := fmupd t TxStateConfirmed (txStates s), confirmHeights := fmupd t h (confirmHeights s)\<rparr>"
  by (auto simp: confirm_ready_def isReady_eq)

lemma MarkConfirmed_Inr:
  "MarkConfirmed s t h = Inr s' \<longleftrightarrow>
     lastError s = None \<and> t \<in> fmdom' (proof_nodes (sess_proof s)) \<and> 0 \<le> sint h \<and>
     (tx_state (txStates s) t = TxStateConfirmed \<and> s' = s \<and>
        (case fmlookup (confirmHeights s) t of None \<Rightarrow> 0 | Some x \<Rightarrow> x) = h \<or>
      tx_state (txStates s) t \<notin> {TxStateConfirmed, TxStatePending} \<and> parents_confirmed s t \<and>
        s' = s\<lparr>txStates := fmupd t TxStateConfirmed (txStates s), confirmHeights := fmupd t h (confirmHeights s)\<rparr>)"
proof (cases "t \<in> fmdom' (proof_nodes (sess_proof s))")
  case True
  then show ?thesis
    by (cases "tx_state (txStates s) t")
      (auto simp: MarkConfirmed_def Node_dom confirm_ready_Inr [OF True] Let_def split: option.splits)
qed (auto simp: MarkConfirmed_def Node_dom split: option.splits)

lemma MarkFailed_Inr:
  "MarkFailed s t e = Inr s' \<longleftrightarrow>
     (\<exists>msg. e = Some msg \<and> lastError s = None \<and> t \<in> fmdom' (proof_nodes (sess_proof s)) \<and>
        s' = s\<lparr>failedTxid := Some t, lastError := Some msg\<rparr>)"
  by (auto simp: MarkFailed_def Node_dom split: option.splits)

lemmas mark_Inr = MarkBroadcasted_Inr MarkConfirmed_Inr MarkFailed_Inr

section \<open>The session invariant\<close>

definition sess_inv :: "session \<Rightarrow> bool" where
  "sess_inv s \<longleftrightarrow>
     proof_wf (sess_proof s) \<and>
     fmdom' (txStates s) = fmdom' (proof_nodes (sess_proof s)) \<and>
     (\<forall>t. tx_state (txStates s) t \<in> {TxStatePending, TxStateBroadcasted, TxStateConfirmed}) \<and>
     (\<forall>t. t \<in> fmdom' (confirmHeights s) \<longleftrightarrow> tx_state (txStates s) t = TxStateConfirmed) \<and>
     (\<forall>t h. fmlookup (confirmHeights s) t = Some h \<longrightarrow> 0 \<le> sint h) \<and>
     (\<forall>t. tx_state (txStates s) t \<noteq> TxStatePending \<longrightarrow> parents_confirmed s t) \<and>
     (failedTxid s = None \<longleftrightarrow> lastError s = None) \<and>
     (\<forall>t. failedTxid s = Some t \<longrightarrow> t \<in> fmdom' (proof_nodes (sess_proof s)))"

lemma sess_invD:
  assumes "sess_inv s"
  shows si_wf: "proof_wf (sess_proof s)"
    and si_dom: "fmdom' (txStates s) = fmdom' (proof_nodes (sess_proof s))"
    and si_known: "tx_state (txStates s) t \<in> {TxStatePending, TxStateBroadcasted, TxStateConfirmed}"
    and si_height_iff: "t \<in> fmdom' (confirmHeights s) \<longleftrightarrow> tx_state (txStates s) t = TxStateConfirmed"
    and si_height: "fmlookup (confirmHeights s) t = Some h \<Longrightarrow> 0 \<le> sint h"
    and si_parents: "tx_state (txStates s) t \<noteq> TxStatePending \<Longrightarrow> parents_confirmed s t"
    and si_fail: "failedTxid s = None \<longleftrightarrow> lastError s = None"
    and si_failed: "failedTxid s = Some t \<Longrightarrow> t \<in> fmdom' (proof_nodes (sess_proof s))"
  using assms unfolding sess_inv_def by blast+

lemma sess_invI:
  assumes "proof_wf (sess_proof s)"
    and "fmdom' (txStates s) = fmdom' (proof_nodes (sess_proof s))"
    and "\<And>t. tx_state (txStates s) t \<in> {TxStatePending, TxStateBroadcasted, TxStateConfirmed}"
    and "\<And>t. t \<in> fmdom' (confirmHeights s) \<longleftrightarrow> tx_state (txStates s) t = TxStateConfirmed"
    and "\<And>t h. fmlookup (confirmHeights s) t = Some h \<Longrightarrow> 0 \<le> sint h"
    and "\<And>t. tx_state (txStates s) t \<noteq> TxStatePending \<Longrightarrow> parents_confirmed s t"
    and "failedTxid s = None \<longleftrightarrow> lastError s = None"
    and "\<And>t. failedTxid s = Some t \<Longrightarrow> t \<in> fmdom' (proof_nodes (sess_proof s))"
  shows "sess_inv s"
  using assms unfolding sess_inv_def by blast

lemma fmdom'_of_keys: "fmdom' (fmap_of_list (map (\<lambda>t. (t, v)) ts)) = set ts"
  by (induction ts) auto

lemma fmlookup_of_keys: "fmlookup (fmap_of_list (map (\<lambda>t. (t, v)) ts)) t = (if t \<in> set ts then Some v else None)"
  by (induction ts) auto

lemma NewSession_Inr:
  assumes "NewSession (Some p) = Inr s"
  shows "sess_proof s = p" "fmdom' (txStates s) = fmdom' (proof_nodes p)"
    "tx_state (txStates s) t = TxStatePending" "confirmHeights s = fmempty"
    "failedTxid s = None" "lastError s = None"
  using assms by (auto simp: NewSession_def tx_state_def fmdom'_of_keys fmlookup_of_keys)

lemma NewSession_inv: "proof_wf p \<Longrightarrow> NewSession (Some p) = Inr s \<Longrightarrow> sess_inv s"
  using NewSession_Inr [of p s] by (simp add: sess_inv_def)

lemma parents_confirmed_mono:
  assumes "parents_confirmed s t" and "sess_proof s' = sess_proof s"
    and "\<And>q. tx_state (txStates s) q = TxStateConfirmed \<Longrightarrow> tx_state (txStates s') q = TxStateConfirmed"
  shows "parents_confirmed s' t"
  using assms by (simp add: parents_confirmed_def)

lemma MarkBroadcasted_inv:
  assumes inv: "sess_inv s" and call: "MarkBroadcasted s t = Inr s'"
  shows "sess_inv s'"
proof -
  have s': "s' = s\<lparr>txStates := fmupd t TxStateBroadcasted (txStates s)\<rparr>"
    and t: "t \<in> fmdom' (proof_nodes (sess_proof s))" "parents_confirmed s t"
    and pend: "tx_state (txStates s) t = TxStatePending"
    using call si_known [OF inv, of t] by (auto simp: mark_Inr)
  have mono: "parents_confirmed s' q" if "parents_confirmed s q" for q
    using that pend by (rule_tac parents_confirmed_mono) (auto simp: s')
  show ?thesis
  proof (rule sess_invI)
    show "parents_confirmed s' q" if "tx_state (txStates s') q \<noteq> TxStatePending" for q
      using that mono t si_parents [OF inv, of q] by (cases "q = t") (auto simp: s')
  qed (use t pend sess_invD [OF inv] in \<open>auto simp: s'\<close>)
qed

lemma MarkConfirmed_inv:
  assumes inv: "sess_inv s" and call: "MarkConfirmed s t h = Inr s'"
  shows "sess_inv s'"
proof (cases "s' = s")
  case False
  then have s': "s' = s\<lparr>txStates := fmupd t TxStateConfirmed (txStates s), confirmHeights := fmupd t h (confirmHeights s)\<rparr>"
    and t: "t \<in> fmdom' (proof_nodes (sess_proof s))" "parents_confirmed s t" "0 \<le> sint h"
    using call by (auto simp: mark_Inr)
  have mono: "parents_confirmed s' q" if "parents_confirmed s q" for q
    using that by (rule_tac parents_confirmed_mono) (auto simp: s')
  show ?thesis
  proof (rule sess_invI)
    show "parents_confirmed s' q" if "tx_state (txStates s') q \<noteq> TxStatePending" for q
      using that mono t si_parents [OF inv, of q] by (cases "q = t") (auto simp: s')
    show "0 \<le> sint x" if "fmlookup (confirmHeights s') q = Some x" for q x
      using that t(3) si_height [OF inv, of q x] by (cases "q = t") (auto simp: s')
  qed (use t sess_invD [OF inv] in \<open>auto simp: s'\<close>)
qed (use inv in simp)

lemma MarkFailed_inv: "sess_inv s \<Longrightarrow> MarkFailed s t e = Inr s' \<Longrightarrow> sess_inv s'"
  by (auto simp: mark_Inr sess_inv_def parents_confirmed_def)

text \<open>
  What a call never takes back: the proof, a broadcast, a confirmation with its height, and
  the first failure.
\<close>

datatype progress =
    OfProof recoveryProof
  | ReachedBroadcast hash
  | ConfirmedAt hash i32
  | FailedWith hash string

fun made_progress :: "progress \<Rightarrow> session \<Rightarrow> bool" where
  "made_progress (OfProof p) s \<longleftrightarrow> sess_proof s = p"
| "made_progress (ReachedBroadcast t) s \<longleftrightarrow> tx_state (txStates s) t \<in> {TxStateBroadcasted, TxStateConfirmed}"
| "made_progress (ConfirmedAt t h) s \<longleftrightarrow>
     tx_state (txStates s) t = TxStateConfirmed \<and> fmlookup (confirmHeights s) t = Some h"
| "made_progress (FailedWith t e) s \<longleftrightarrow> failedTxid s = Some t \<and> lastError s = Some e"

interpretation sm: latching_machine session_step sess_inv made_progress
proof (standard, goal_cases)
  case (1 s c s')
  then show ?case
    by (cases c) (auto dest: MarkBroadcasted_inv MarkConfirmed_inv MarkFailed_inv)
next
  case (2 s x c s')
  then show ?case
    by (cases c; cases x) (auto simp: mark_Inr split: if_splits)
qed

section \<open>Snapshots\<close>

definition is_ready :: "session \<Rightarrow> hash \<Rightarrow> bool" where
  "is_ready s t \<longleftrightarrow> tx_state (txStates s) t = TxStatePending \<and> parents_confirmed s t"

definition is_blocked :: "session \<Rightarrow> hash \<Rightarrow> bool" where
  "is_blocked s t \<longleftrightarrow> tx_state (txStates s) t = TxStatePending \<and> \<not> parents_confirmed s t"

definition is_awaiting :: "session \<Rightarrow> hash \<Rightarrow> bool" where
  "is_awaiting s t \<longleftrightarrow> tx_state (txStates s) t = TxStateBroadcasted"

definition ready_action :: "session \<Rightarrow> nat \<times> hash \<Rightarrow> broadcastAction" where
  "ready_action s it = \<lparr>ba_txid = snd it, ba_node = Node (sess_proof s) (snd it), ba_layer = fst it,
     ba_parents = proof_parents (sess_proof s) (snd it)\<rparr>"

definition blocked_action :: "session \<Rightarrow> nat \<times> hash \<Rightarrow> blockedAction" where
  "blocked_action s it = \<lparr>bl_txid = snd it, bl_layer = fst it,
     bl_missing = sort (filter (\<lambda>q. tx_state (txStates s) q \<noteq> TxStateConfirmed)
                          (proof_parents (sess_proof s) (snd it)))\<rparr>"

lemma classify_tx_eq:
  assumes "t \<in> fmdom' (proof_nodes (sess_proof s))"
  shows "classify_tx s i t (r, a, b) = Inr
     (r @ (if is_ready s t then [ready_action s (i, t)] else []),
      a @ (if is_awaiting s t then [t] else []),
      b @ (if is_blocked s t then [blocked_action s (i, t)] else []))"
  using assms
  by (cases "tx_state (txStates s) t")
    (auto simp: classify_tx_def missingParents_def ParentTxids_dom is_ready_def is_awaiting_def
      is_blocked_def parents_confirmed_def ready_action_def blocked_action_def filter_empty_conv)

lemma classify_layer_eq:
  assumes "set ts \<subseteq> fmdom' (proof_nodes (sess_proof s))"
  shows "classify_layer s i ts (r, a, b) = Inr
     (r @ map (ready_action s) (filter (is_ready s \<circ> snd) (map (Pair i) ts)),
      a @ filter (is_awaiting s) ts,
      b @ map (blocked_action s) (filter (is_blocked s \<circ> snd) (map (Pair i) ts)))"
  using assms by (induction ts arbitrary: r a b) (auto simp: classify_tx_eq)

lemma classify_layers_eq:
  assumes "set (concat ls) \<subseteq> fmdom' (proof_nodes (sess_proof s))"
  shows "classify_layers s i ls (r, a, b) = Inr
     (r @ map (ready_action s) (filter (is_ready s \<circ> snd) (layer_pairs i ls)),
      a @ filter (is_awaiting s) (concat ls),
      b @ map (blocked_action s) (filter (is_blocked s \<circ> snd) (layer_pairs i ls)))"
  using assms by (induction ls arbitrary: i r a b) (auto simp: classify_layer_eq)

text \<open>The buckets of a well-formed session, in layer order.\<close>

abbreviation proof_pairs :: "session \<Rightarrow> (nat \<times> hash) list" where
  "proof_pairs s \<equiv> layer_pairs 0 (proof_layers (sess_proof s))"

lemma SnapshotAt_eq:
  assumes "proof_wf (sess_proof s)" and "lastError s = None"
  shows "SnapshotAt s h = (let snapshot = \<lparr>sn_status = SessionStatusMaterializing,
       sn_ready = map (ready_action s) (filter (is_ready s \<circ> snd) (proof_pairs s)),
       sn_awaiting = sort (filter (is_awaiting s) (concat (proof_layers (sess_proof s)))),
       sn_blocked = map (blocked_action s) (filter (is_blocked s \<circ> snd) (proof_pairs s)),
       sn_csv = None, sn_failedTxid = failedTxid s, sn_lastError = None\<rparr> in
     if \<not> materializationComplete s then Inr snapshot
     else bindR (csvStatusAt s h) (\<lambda>csv. Inr (snapshot\<lparr>sn_csv := Some csv,
        sn_status := (if cs_ready csv then SessionStatusSweepReady else SessionStatusAwaitingCSV)\<rparr>)))"
  unfolding SnapshotAt_def
  by (subst classify_layers_eq) (use proof_wf_all [OF assms(1)] in simp, simp add: assms(2) Let_def)

lemma SnapshotAt_buckets:
  assumes "proof_wf (sess_proof s)" and "lastError s = None" and "SnapshotAt s h = Inr snap"
  shows "map ba_txid (sn_ready snap) = filter (is_ready s) (concat (proof_layers (sess_proof s)))"
    and "sn_awaiting snap = sort (filter (is_awaiting s) (concat (proof_layers (sess_proof s))))"
    and "map bl_txid (sn_blocked snap) = filter (is_blocked s) (concat (proof_layers (sess_proof s)))"
proof -
  have txids: "map (ba_txid \<circ> ready_action s) = map snd" "map (bl_txid \<circ> blocked_action s) = map snd"
    by (simp_all add: ready_action_def blocked_action_def comp_def fun_eq_iff)
  have "map snd (filter (P \<circ> snd) (proof_pairs s)) = filter P (concat (proof_layers (sess_proof s)))" for P
    by (metis filter_map map_snd_layer_pairs)
  with assms(3) show "map ba_txid (sn_ready snap) = filter (is_ready s) (concat (proof_layers (sess_proof s)))"
    "sn_awaiting snap = sort (filter (is_awaiting s) (concat (proof_layers (sess_proof s))))"
    "map bl_txid (sn_blocked snap) = filter (is_blocked s) (concat (proof_layers (sess_proof s)))"
    unfolding SnapshotAt_eq [OF assms(1,2)]
    by (auto simp: Let_def txids split: if_splits)
qed

section \<open>Maturity\<close>

lemma ComputeMaturityHeight_Inr:
  "ComputeMaturityHeight h d = Inr m \<longleftrightarrow>
     0 \<le> sint h \<and> d \<le> MaxCSVDelay \<and> sint h + uint d \<le> max_int32 \<and> sint m = sint h + uint d"
proof (cases "0 \<le> sint h \<and> d \<le> MaxCSVDelay \<and> sint h + uint d \<le> max_int32")
  case True
  then have "sint (word_of_int (sint h + uint d) :: 32 word) = sint h + uint d"
    using uint_nonnegative [of d] by (intro sint_of_int32) linarith+
  with True show ?thesis
    by (auto simp: ComputeMaturityHeight_def Let_def simp flip: sint_inj)
qed (auto simp: ComputeMaturityHeight_def Let_def not_le)

lemma session_maturity:
  assumes "sess_inv s" and "fmlookup (confirmHeights s) (op_hash (targetOutpoint (sess_proof s))) = Some c"
  shows "csvStatusAt s h = (if sint c + uint (csvDelay (sess_proof s)) > max_int32 then Inl (ProofError MaturityOverflow)
     else Inr \<lparr>cs_targetConfirmHeight = c, cs_maturityHeight = word_of_int (sint c + uint (csvDelay (sess_proof s))),
       cs_blocksRemaining =
         (let r = word_of_int (sint c + uint (csvDelay (sess_proof s))) - h in if sint r < 0 then 0 else r),
       cs_ready = (sint c + uint (csvDelay (sess_proof s)) \<le> sint h)\<rparr>)"
proof -
  have c: "0 \<le> sint c" using si_height [OF assms] .
  have d: "csvDelay (sess_proof s) \<le> MaxCSVDelay"
    using proof_wf_delay [OF si_wf [OF assms(1)]] .
  have "sint (word_of_int (sint c + uint (csvDelay (sess_proof s))) :: 32 word)
      = sint c + uint (csvDelay (sess_proof s))" if "sint c + uint (csvDelay (sess_proof s)) \<le> max_int32"
    using that c uint_nonnegative [of "csvDelay (sess_proof s)"] by (intro sint_of_int32) linarith+
  with c d show ?thesis
    by (auto simp: csvStatusAt_def assms(2) TargetOutpoint_def CSVDelay_def ComputeMaturityHeight_def Let_def)
qed

section \<open>Completion\<close>

lemma target_confirmed_complete:
  assumes inv: "sess_inv s"
    and tgt: "tx_state (txStates s) (op_hash (targetOutpoint (sess_proof s))) = TxStateConfirmed"
  shows "materializationComplete s"
proof -
  let ?C = "{t. tx_state (txStates s) t = TxStateConfirmed}"
  have "fmdom' (proof_nodes (sess_proof s)) \<subseteq> ?C"
  proof (rule pg.target_closes [OF si_wf [OF inv]])
    show "q \<in> ?C" if "t \<in> ?C" "q \<in> set (proof_parents (sess_proof s) t)" for t q
      using that si_parents [OF inv, of t] by (simp add: parents_confirmed_def)
  qed (use tgt in simp)
  then show ?thesis by (auto simp: materializationComplete_def)
qed

lemma complete_iff_target:
  assumes "sess_inv s"
  shows "materializationComplete s \<longleftrightarrow>
     op_hash (targetOutpoint (sess_proof s)) \<in> fmdom' (confirmHeights s)"
  using target_confirmed_complete [OF assms] si_height_iff [OF assms] pg.tgt_in [OF si_wf [OF assms]]
  by (auto simp: materializationComplete_def)

text \<open>The calls of a caller that follows the layers and sees every transaction confirm at \<open>h\<close>.\<close>

definition exit_calls :: "i32 \<Rightarrow> hash list \<Rightarrow> session_call list" where
  "exit_calls h ts = concat (map (\<lambda>t. [CallBroadcasted t, CallConfirmed t h]) ts)"

definition done_upto :: "i32 \<Rightarrow> hash list \<Rightarrow> session \<Rightarrow> bool" where
  "done_upto h xs s \<longleftrightarrow> lastError s = None \<and>
     (\<forall>t. tx_state (txStates s) t = (if t \<in> set xs then TxStateConfirmed else TxStatePending)) \<and>
     (\<forall>t. fmlookup (confirmHeights s) t = (if t \<in> set xs then Some h else None))"

lemma exit_step:
  assumes "done_upto h xs s" and "t \<in> fmdom' (proof_nodes (sess_proof s))" and "t \<notin> set xs"
    and "set (proof_parents (sess_proof s) t) \<subseteq> set xs" and "0 \<le> sint h"
  shows "\<exists>s'. run_machine session_step s [CallBroadcasted t, CallConfirmed t h] = s' \<and>
     done_upto h (xs @ [t]) s' \<and> sess_proof s' = sess_proof s"
proof -
  define s1 where "s1 = s\<lparr>txStates := fmupd t TxStateBroadcasted (txStates s)\<rparr>"
  define s2 where "s2 = s1\<lparr>txStates := fmupd t TxStateConfirmed (txStates s1), confirmHeights := fmupd t h (confirmHeights s1)\<rparr>"
  have "t \<notin> set (proof_parents (sess_proof s) t)" using assms(3,4) by auto
  then have "parents_confirmed s t" "parents_confirmed s1 t"
    using assms(1,4) by (auto simp: parents_confirmed_def done_upto_def s1_def)
  then have "MarkBroadcasted s t = Inr s1" "MarkConfirmed s1 t h = Inr s2"
    using assms by (auto simp: MarkBroadcasted_Inr MarkConfirmed_Inr done_upto_def s1_def s2_def)
  moreover have "done_upto h (xs @ [t]) s2" "sess_proof s2 = sess_proof s"
    using assms(1) by (auto simp: done_upto_def s1_def s2_def)
  ultimately show ?thesis by simp
qed

lemma exit_run:
  assumes "proof_wf (sess_proof s)" and "0 \<le> sint h"
    and "concat (proof_layers (sess_proof s)) = xs @ ys" and "done_upto h xs s"
  shows "done_upto h (xs @ ys) (run_machine session_step s (exit_calls h ys)) \<and>
     sess_proof (run_machine session_step s (exit_calls h ys)) = sess_proof s"
  using assms
proof (induction ys arbitrary: xs s)
  case Nil
  then show ?case by (simp add: exit_calls_def)
next
  case (Cons t ys)
  have "t \<in> fmdom' (proof_nodes (sess_proof s))"
    using proof_wf_all [OF Cons.prems(1)] Cons.prems(3) by auto
  moreover have "t \<notin> set xs"
    using pg.lays_distinct [OF Cons.prems(1)] Cons.prems(3) by simp
  moreover have "set (proof_parents (sess_proof s) t) \<subseteq> set xs"
    using pg.topological_order [OF Cons.prems(1,3)] .
  ultimately obtain s' where s': "run_machine session_step s [CallBroadcasted t, CallConfirmed t h] = s'"
    "done_upto h (xs @ [t]) s'" "sess_proof s' = sess_proof s"
    using exit_step [OF Cons.prems(4) _ _ _ Cons.prems(2)] by blast
  have "exit_calls h (t # ys) = [CallBroadcasted t, CallConfirmed t h] @ exit_calls h ys"
    by (simp add: exit_calls_def)
  then have "run_machine session_step s (exit_calls h (t # ys)) = run_machine session_step s' (exit_calls h ys)"
    by (simp only: sm.run_append s'(1))
  with Cons.IH [of s' "xs @ [t]"] Cons.prems s' show ?case by simp
qed

section \<open>Reloading\<close>

lemma validate_None:
  "validateSessionState rk p st = None \<longleftrightarrow>
     st_txStates st \<noteq> None \<and> st_confirmHeights st \<noteq> None \<and>
     (st_failedTxid st = None \<longleftrightarrow> st_lastError st = []) \<and>
     (\<forall>t. st_failedTxid st = Some t \<longrightarrow> t \<in> fmdom' (proof_nodes p)) \<and>
     (\<forall>t \<in> fmdom' (proof_nodes p). check_node st t = None) \<and>
     fmdom' (the (st_txStates st)) \<subseteq> fmdom' (proof_nodes p) \<and>
     fmdom' (the (st_confirmHeights st)) \<subseteq> fmdom' (proof_nodes p) \<and>
     (\<forall>t \<in> fmdom' (the (st_txStates st)). check_parents p st t = None)"
  unfolding validateSessionState_def
  by (auto simp: Node_dom subset_iff split: option.split)

lemma check_node_None:
  "check_node st t = None \<longleftrightarrow>
     (\<exists>x. fmlookup (the (st_txStates st)) t = Some x \<and>
        x \<in> {TxStatePending, TxStateBroadcasted, TxStateConfirmed} \<and>
        (x = TxStateConfirmed \<longleftrightarrow> fmlookup (the (st_confirmHeights st)) t \<noteq> None) \<and>
        (\<forall>h. fmlookup (the (st_confirmHeights st)) t = Some h \<longrightarrow> 0 \<le> sint h))"
  by (auto simp: check_node_def Let_def split: option.splits txState.splits)

lemma check_parents_None:
  "check_parents p st t = None \<longleftrightarrow>
     (fmlookup (the (st_txStates st)) t = Some TxStateConfirmed \<longrightarrow>
        t \<in> fmdom' (proof_nodes p) \<and>
        (\<forall>q \<in> set (proof_parents p t). tx_state (the (st_txStates st)) q = TxStateConfirmed))"
  by (auto simp: check_parents_def ParentTxids_dom split: if_splits)

text \<open>
  What a reloaded session is known to satisfy: the session invariant less the clause that a
  broadcast transaction has its parents confirmed, which the validation does not check.
\<close>

definition reload_inv :: "session \<Rightarrow> bool" where
  "reload_inv s \<longleftrightarrow>
     fmdom' (txStates s) = fmdom' (proof_nodes (sess_proof s)) \<and>
     (\<forall>t. tx_state (txStates s) t \<in> {TxStatePending, TxStateBroadcasted, TxStateConfirmed}) \<and>
     (\<forall>t. t \<in> fmdom' (confirmHeights s) \<longleftrightarrow> tx_state (txStates s) t = TxStateConfirmed) \<and>
     (\<forall>t h. fmlookup (confirmHeights s) t = Some h \<longrightarrow> 0 \<le> sint h) \<and>
     (\<forall>t. tx_state (txStates s) t = TxStateConfirmed \<longrightarrow> parents_confirmed s t) \<and>
     (failedTxid s = None \<longleftrightarrow> lastError s = None) \<and>
     lastError s \<noteq> Some [] \<and>
     (\<forall>t. failedTxid s = Some t \<longrightarrow> t \<in> fmdom' (proof_nodes (sess_proof s)))"

lemma tx_state_dom: "tx_state m t = TxStateConfirmed \<longleftrightarrow> fmlookup m t = Some TxStateConfirmed"
  by (auto simp: tx_state_def split: option.split)

lemma reload_inv_validates:
  assumes "reload_inv s"
  shows "validateSessionState rk (sess_proof s) (ExportState s) = None"
proof -
  let ?st = "ExportState s"
  have dom: "fmdom' (txStates s) = fmdom' (proof_nodes (sess_proof s))"
    and known: "\<And>t. tx_state (txStates s) t \<in> {TxStatePending, TxStateBroadcasted, TxStateConfirmed}"
    and hdom: "\<And>t. t \<in> fmdom' (confirmHeights s) \<longleftrightarrow> tx_state (txStates s) t = TxStateConfirmed"
    and hpos: "\<And>t h. fmlookup (confirmHeights s) t = Some h \<Longrightarrow> 0 \<le> sint h"
    and par: "\<And>t. tx_state (txStates s) t = TxStateConfirmed \<Longrightarrow> parents_confirmed s t"
    and fail: "failedTxid s = None \<longleftrightarrow> lastError s = None" "lastError s \<noteq> Some []"
    and failed: "\<And>t. failedTxid s = Some t \<Longrightarrow> t \<in> fmdom' (proof_nodes (sess_proof s))"
    using assms unfolding reload_inv_def by blast+
  have "check_node ?st t = None" if t: "t \<in> fmdom' (proof_nodes (sess_proof s))" for t
  proof -
    obtain x where x: "fmlookup (txStates s) t = Some x"
      using t dom by (metis fmlookup_dom'_iff)
    with known [of t] hdom [of t] hpos [of t] show ?thesis
      by (auto simp: check_node_None ExportState_def tx_state_def fmlookup_dom'_iff)
  qed
  moreover have "check_parents (sess_proof s) ?st t = None" for t
    using par [of t] dom by (auto simp: check_parents_None ExportState_def parents_confirmed_def tx_state_dom intro: fmdom'I)
  moreover have "fmdom' (confirmHeights s) \<subseteq> fmdom' (proof_nodes (sess_proof s))"
    using hdom dom by (auto simp: tx_state_dom intro: fmdom'I)
  ultimately show ?thesis
    using dom fail failed by (auto simp: validate_None ExportState_def split: option.splits)
qed

lemma validates_reload_inv:
  assumes "NewSessionFromState rk (Some p) (Some st) = Inr s"
  shows "reload_inv s" and "sess_proof s = p" and "ExportState s = st"
proof -
  obtain m ch where m: "st_txStates st = Some m" and ch: "st_confirmHeights st = Some ch"
    and v: "validateSessionState rk p st = None"
    using assms by (auto simp: NewSessionFromState_def validate_None split: option.splits)
  have s: "s = \<lparr>sess_proof = p, txStates = m, confirmHeights = ch, failedTxid = st_failedTxid st,
       lastError = (if st_lastError st \<noteq> [] then Some (st_lastError st) else None)\<rparr>"
    using assms v by (simp add: NewSessionFromState_def m ch)
  then show "sess_proof s = p" by simp
  have sub: "fmdom' m \<subseteq> fmdom' (proof_nodes p)" "fmdom' ch \<subseteq> fmdom' (proof_nodes p)"
    and node: "\<And>t. t \<in> fmdom' (proof_nodes p) \<Longrightarrow> check_node st t = None"
    and par: "\<And>t. t \<in> fmdom' m \<Longrightarrow> check_parents p st t = None"
    and fl: "st_failedTxid st = None \<longleftrightarrow> st_lastError st = []"
    and fin: "\<And>t. st_failedTxid st = Some t \<Longrightarrow> t \<in> fmdom' (proof_nodes p)"
    using v unfolding validate_None m ch option.sel by blast+
  show "ExportState s = st"
    using fl by (auto simp: s ExportState_def m ch)
  have dom: "fmdom' m = fmdom' (proof_nodes p)"
    using sub(1) node unfolding check_node_None m option.sel by (blast intro: fmdom'I)
  have outside: "tx_state m t = TxStatePending" "fmlookup ch t = None" if "t \<notin> fmdom' (proof_nodes p)" for t
    using that sub by (auto simp: tx_state_def fmlookup_dom'_iff subset_iff split: option.split)
  have inside: "tx_state m t \<in> {TxStatePending, TxStateBroadcasted, TxStateConfirmed} \<and>
      (tx_state m t = TxStateConfirmed \<longleftrightarrow> fmlookup ch t \<noteq> None) \<and> (\<forall>h. fmlookup ch t = Some h \<longrightarrow> 0 \<le> sint h)" for t
    using node [of t] outside [of t]
    by (cases "t \<in> fmdom' (proof_nodes p)") (auto simp: check_node_None m ch tx_state_def)
  have "parents_confirmed s t" if "tx_state m t = TxStateConfirmed" for t
    using par [of t] that by (auto simp: check_parents_None m s parents_confirmed_def tx_state_dom intro: fmdom'I)
  then show "reload_inv s"
    using dom inside fl fin by (auto simp: reload_inv_def s fmlookup_dom'_iff)
qed

lemma sess_inv_reload: "sess_inv s \<Longrightarrow> lastError s \<noteq> Some [] \<Longrightarrow> reload_inv s"
  unfolding reload_inv_def using sess_invD [of s] by (metis txState.distinct(3))

lemma reload_roundtrip:
  assumes "reload_inv s"
  shows "NewSessionFromState rk (Some (sess_proof s)) (Some (ExportState s)) = Inr s"
proof -
  have "lastError s \<noteq> Some []" using assms unfolding reload_inv_def by blast
  then show ?thesis
    using reload_inv_validates [OF assms, of rk]
    by (cases "lastError s") (auto simp: NewSessionFromState_def ExportState_def)
qed

section \<open>Properties\<close>

lemma session_runs:
  assumes "NewProof rk th target delay ns = Inr p" and "NewSession (Some p) = Inr s"
    and "run_machine session_step s cs = s'"
  shows "sess_inv s'" and "sess_proof s' = p"
proof -
  have inv: "sess_inv s"
    using NewProof_wf [OF assms(1)] assms(2) by (rule NewSession_inv)
  then show "sess_inv s'" using sm.run_inv assms(3) by blast
  have "made_progress (OfProof p) s" using NewSession_Inr(1) [OF assms(2)] by simp
  from sm.run_latched [OF inv this, of cs] show "sess_proof s' = p" using assms(3) by simp
qed

lemma ancestors_confirmed:
  assumes inv: "sess_inv s" and t: "tx_state (txStates s) t \<noteq> TxStatePending"
    and anc: "(t, q) \<in> (parent_edges (proof_parents (sess_proof s)))\<^sup>+"
  shows "tx_state (txStates s) q = TxStateConfirmed"
  using anc
proof (induction rule: trancl_induct)
  case (base q)
  then show ?case
    using si_parents [OF inv t] by (auto simp: parents_confirmed_def parent_edges_def)
next
  case (step q r)
  then show ?case
    using si_parents [OF inv, of q] by (auto simp: parents_confirmed_def parent_edges_def)
qed

text \<open>
  C2: No transaction of an exit is broadcast or confirmed before everything it spends: after
  any sequence of calls on a new session, every direct or indirect in-proof ancestor of a
  broadcast or confirmed transaction is confirmed, and exactly the confirmed transactions
  carry a confirmation height, which is never negative.
\<close>

theorem session_ancestors_first:
  assumes "NewProof rk th target delay ns = Inr p" and "NewSession (Some p) = Inr s"
    and "run_machine session_step s cs = s'"
  shows "(\<forall>t q. tx_state (txStates s') t \<noteq> TxStatePending \<longrightarrow>
            (t, q) \<in> (parent_edges (proof_parents p))\<^sup>+ \<longrightarrow> tx_state (txStates s') q = TxStateConfirmed)
       \<and> (\<forall>t. tx_state (txStates s') t = TxStateConfirmed \<longleftrightarrow>
            (\<exists>h. fmlookup (confirmHeights s') t = Some h \<and> 0 \<le> sint h))"
proof -
  note inv = session_runs [OF assms]
  have "tx_state (txStates s') t = TxStateConfirmed \<longleftrightarrow>
      (\<exists>h. fmlookup (confirmHeights s') t = Some h \<and> 0 \<le> sint h)" for t
    using si_height_iff [OF inv(1), of t] si_height [OF inv(1), of t] by (auto simp: fmlookup_dom'_iff)
  then show ?thesis
    using ancestors_confirmed [OF inv(1)] by (simp add: inv(2))
qed

text \<open>
  C13: What was observed stays observed: the proof, a broadcast, a confirmation with its
  height and the first failure survive every further sequence of calls.
\<close>

theorem session_progress_latched:
  assumes "NewProof rk th target delay ns = Inr p" and "NewSession (Some p) = Inr s"
    and "made_progress x (run_machine session_step s cs)"
  shows "made_progress x (run_machine session_step s (cs @ ds))"
  unfolding sm.run_append
  using session_runs(1) [OF assms(1,2) refl] assms(3) by (rule sm.run_latched)

text \<open>
  A snapshot of a session that has not failed puts each unconfirmed transaction in
  exactly one bucket (ready: nothing it spends is missing; awaiting: broadcast; blocked),
  and as long as the target is not confirmed there is something to broadcast or to wait for.
\<close>

lemma SnapshotAt_classifies:
  assumes "sess_inv s" and "lastError s = None" and "SnapshotAt s h = Inr snap"
    and "N = fmdom' (proof_nodes (sess_proof s))"
  shows "distinct (map ba_txid (sn_ready snap) @ sn_awaiting snap @ map bl_txid (sn_blocked snap))
       \<and> set (map ba_txid (sn_ready snap)) =
           {t \<in> N. tx_state (txStates s) t = TxStatePending \<and> parents_confirmed s t}
       \<and> set (sn_awaiting snap) = {t \<in> N. tx_state (txStates s) t = TxStateBroadcasted}
       \<and> set (map bl_txid (sn_blocked snap)) =
           {t \<in> N. tx_state (txStates s) t = TxStatePending \<and> \<not> parents_confirmed s t}
       \<and> (tx_state (txStates s) (op_hash (targetOutpoint (sess_proof s))) \<noteq> TxStateConfirmed \<longrightarrow>
            sn_ready snap \<noteq> [] \<or> sn_awaiting snap \<noteq> [])"
proof -
  note wf = si_wf [OF assms(1)]
  note buckets = SnapshotAt_buckets [OF wf assms(2,3)]
  have all: "set (concat (proof_layers (sess_proof s))) = N" "distinct (concat (proof_layers (sess_proof s)))"
    using proof_wf_all [OF wf] pg.lays_distinct [OF wf] assms(4) by simp_all
  have sets: "set (map ba_txid (sn_ready snap)) = {t \<in> N. is_ready s t}"
    "set (sn_awaiting snap) = {t \<in> N. is_awaiting s t}"
    "set (map bl_txid (sn_blocked snap)) = {t \<in> N. is_blocked s t}"
    unfolding buckets set_sort set_filter all(1) by (rule refl)+
  have "distinct (map ba_txid (sn_ready snap) @ sn_awaiting snap @ map bl_txid (sn_blocked snap))"
    unfolding distinct_append sets using all(2)
    by (auto simp: buckets is_ready_def is_awaiting_def is_blocked_def distinct_filter)
  moreover have "sn_ready snap \<noteq> [] \<or> sn_awaiting snap \<noteq> []"
    if tgt: "tx_state (txStates s) (op_hash (targetOutpoint (sess_proof s))) \<noteq> TxStateConfirmed"
  proof -
    obtain t where t: "t \<in> N" "tx_state (txStates s) t \<noteq> TxStateConfirmed" "parents_confirmed s t"
      using pg.frontier_exists [OF wf, of "{t. tx_state (txStates s) t = TxStateConfirmed}"]
        pg.tgt_in [OF wf] tgt assms(4) by (auto simp: parents_confirmed_def)
    then have "t \<in> set (map ba_txid (sn_ready snap)) \<union> set (sn_awaiting snap)"
      using si_known [OF assms(1), of t] unfolding sets by (auto simp: is_ready_def is_awaiting_def)
    then show ?thesis by auto
  qed
  ultimately show ?thesis
    unfolding sets is_ready_def is_awaiting_def is_blocked_def by blast
qed

text \<open>
  C7: The sweep is released exactly when the relative timelock of the target has expired:
  a session that has not failed reports \<open>SessionStatusSweepReady\<close> at height \<open>h\<close> if and
  only if the target confirmed at some height \<open>c\<close> with \<open>c + delay \<le> h\<close>, computed without
  wrap-around.
\<close>

theorem SnapshotAt_sweep_ready_iff:
  assumes "sess_inv s" and "lastError s = None"
  shows "(\<exists>snap. SnapshotAt s h = Inr snap \<and> sn_status snap = SessionStatusSweepReady) \<longleftrightarrow>
     (\<exists>c. fmlookup (confirmHeights s) (op_hash (targetOutpoint (sess_proof s))) = Some c \<and>
        sint c + uint (csvDelay (sess_proof s)) \<le> sint h)"
proof (cases "fmlookup (confirmHeights s) (op_hash (targetOutpoint (sess_proof s)))")
  case None
  then have "\<not> materializationComplete s"
    by (simp add: complete_iff_target [OF assms(1)] fmlookup_dom'_iff)
  with None show ?thesis
    by (simp add: SnapshotAt_eq [OF si_wf [OF assms(1)] assms(2)] Let_def)
next
  case (Some c)
  then have "materializationComplete s"
    by (simp add: complete_iff_target [OF assms(1)] fmlookup_dom'_iff)
  with Some sint32_bounds [of h] show ?thesis
    by (auto simp: SnapshotAt_eq [OF si_wf [OF assms(1)] assms(2)] session_maturity [OF assms(1) Some]
        simp del: sint_ge sint_lt)
qed

text \<open>
  Maturity heights are exact: \<open>ComputeMaturityHeight\<close> returns the sum of its
  arguments, never a wrapped value, and fails only on a negative height, a delay above the
  limit, or a sum that does not fit int32.
\<close>

lemma ComputeMaturityHeight_exact:
  "case ComputeMaturityHeight h d of
     Inr m \<Rightarrow> sint m = sint h + uint d \<and> 0 \<le> sint h \<and> d \<le> MaxCSVDelay
   | Inl e \<Rightarrow> sint h < 0 \<or> d > MaxCSVDelay \<or> sint h + uint d \<ge> 2 ^ 31"
proof (cases "ComputeMaturityHeight h d")
  case (Inl e)
  then show ?thesis by (auto simp: ComputeMaturityHeight_def Let_def split: if_splits)
next
  case (Inr m)
  with ComputeMaturityHeight_Inr [of h d m] show ?thesis by simp
qed

text \<open>
  C6: An exit can be driven to the end: broadcasting and confirming the transactions in
  layer order is accepted call by call, and once the timelock has passed the session is ready
  to sweep.
\<close>

theorem session_exit_completes:
  assumes "NewProof rk th target delay ns = Inr p" and "NewSession (Some p) = Inr s"
    and "0 \<le> sint c" and "sint c + uint delay \<le> sint h"
    and "run_machine session_step s (exit_calls c (concat (Layers p))) = s'"
  shows "\<exists>snap. SnapshotAt s' h = Inr snap \<and> sn_status snap = SessionStatusSweepReady \<and>
     (\<forall>t. tx_state (txStates s') t = TxStateConfirmed \<longleftrightarrow> t \<in> fmdom' (proof_nodes p))"
proof -
  note wf = NewProof_wf [OF assms(1)] and inv = session_runs [OF assms(1,2,5)]
  have p: "csvDelay p = delay" "targetOutpoint p = target" using assms(1) by (auto simp: NewProof_Inr)
  have "done_upto c [] s" using NewSession_Inr [OF assms(2)] by (simp add: done_upto_def)
  with exit_run [of s c "[]"] have fin: "done_upto c (concat (proof_layers p)) s'"
    using wf assms(3,5) NewSession_Inr(1) [OF assms(2)] by (simp add: Layers_def)
  have all: "set (concat (proof_layers p)) = fmdom' (proof_nodes p)" by (rule proof_wf_all [OF wf])
  have ne: "lastError s' = None"
    and conf: "\<And>t. tx_state (txStates s') t = (if t \<in> fmdom' (proof_nodes p) then TxStateConfirmed else TxStatePending)"
    and hs: "\<And>t. t \<in> fmdom' (proof_nodes p) \<Longrightarrow> fmlookup (confirmHeights s') t = Some c"
    using fin unfolding done_upto_def all by simp_all
  have "op_hash target \<in> fmdom' (proof_nodes p)" using pg.tgt_in [OF wf] p by simp
  then have "\<exists>x. fmlookup (confirmHeights s') (op_hash target) = Some x \<and> sint x + uint delay \<le> sint h"
    using hs assms(4) by simp
  then obtain x where x: "fmlookup (confirmHeights s') (op_hash target) = Some x" "sint x + uint delay \<le> sint h"
    by blast
  have "materializationComplete s'" by (simp add: materializationComplete_def inv(2) conf)
  then have "\<exists>snap. SnapshotAt s' h = Inr snap \<and> sn_status snap = SessionStatusSweepReady"
    using session_maturity [OF inv(1), of x h] x sint32_bounds [of h]
    by (simp add: SnapshotAt_eq [OF si_wf [OF inv(1)] ne] inv(2) p Let_def)
  with conf show ?thesis by auto
qed

text \<open>
  A failure whose error text is empty makes the session impossible to reload: the
  export carries the failed txid without a text, which the validation rejects.
\<close>

lemma empty_text_not_reloadable:
  assumes "sess_inv s" and "lastError s = Some []"
  shows "NewSessionFromState rk (Some (sess_proof s)) (Some (ExportState s)) = Inl FailureHalfSet"
proof -
  obtain t where "failedTxid s = Some t" using assms unfolding sess_inv_def by auto
  then show ?thesis
    using assms(2) by (simp add: NewSessionFromState_def validateSessionState_def ExportState_def)
qed

text \<open>
  C12: What an export reloads to: the exported state of a session reached by any sequence of calls on a
  new session is accepted with the same proof under every map iteration order and gives the session
  back, with one exception: a session that was marked failed with an empty error text is refused.
\<close>

theorem ExportState_roundtrip:
  assumes "NewProof rk th target delay ns = Inr p" and "NewSession (Some p) = Inr s"
    and "run_machine session_step s cs = s'"
  shows "NewSessionFromState rk' (Some p) (Some (ExportState s')) =
     (if lastError s' = Some [] then Inl FailureHalfSet else Inr s')"
  using session_runs [OF assms] reload_roundtrip [OF sess_inv_reload] empty_text_not_reloadable by auto

text \<open>
  The validated reload accepts exactly the exports of sessions that satisfy
  \<open>reload_inv\<close>: every node has a known state, heights belong to confirmed nodes and are not
  negative, parents of confirmed nodes are confirmed, and a failure has a node and a text.
\<close>

lemma NewSessionFromState_accepts_iff:
  "NewSessionFromState rk (Some p) (Some st) = Inr s \<longleftrightarrow>
     reload_inv s \<and> sess_proof s = p \<and> ExportState s = st"
  using validates_reload_inv [of rk p st s] reload_roundtrip [of s rk] by blast

section \<open>Witnesses\<close>

text \<open>The session of the two-transaction proof, before and after its exit.\<close>

abbreviation ex_session :: session where
  "ex_session \<equiv> \<lparr>sess_proof = ex_proof, txStates = fmupd 6 TxStatePending (fmupd 5 TxStatePending fmempty),
     confirmHeights = fmempty, failedTxid = None, lastError = None\<rparr>"

abbreviation ex_exited :: session where
  "ex_exited \<equiv> \<lparr>sess_proof = ex_proof, txStates = fmupd 6 TxStateConfirmed (fmupd 5 TxStateConfirmed fmempty),
     confirmHeights = fmupd 6 100 (fmupd 5 100 fmempty), failedTxid = None, lastError = None\<rparr>"

lemma ex_proof_sel:
  "targetOutpoint ex_proof = ex_target" "csvDelay ex_proof = 144" "proof_layers ex_proof = [[5], [6]]"
  "proof_nodes ex_proof = fmupd 6 (ex_node 5) (fmupd 5 (ex_node 4) fmempty)"
  "proof_parents ex_proof t = (if t = 6 then [5] else [])"
  "op_hash ex_target = 6"
  by (simp_all add: ex_proof_def ex_target_def)

lemmas session_eval = ex_proof_sel MarkBroadcasted_def MarkConfirmed_def MarkFailed_def confirm_ready_def
  isReady_def missingParents_def ParentTxids_def Node_def tx_state_def Layers_def exit_calls_def

lemma ex_NewSession: "NewSession (Some ex_proof) = Inr ex_session"
  by (auto simp: NewSession_def ex_proof_sel fmlookup_of_keys intro!: fmap_ext)

lemma ex_exit: "run_machine session_step ex_session (exit_calls 100 (concat (Layers ex_proof))) = ex_exited"
  by (simp add: session_eval fmupd_reorder_neq)

lemma ex_exited_inv: "sess_inv ex_exited"
  by (rule session_runs(1) [OF ex_NewProof ex_NewSession ex_exit])

theorem session_ancestors_first_witness:
  "tx_state (txStates ex_exited) 6 = TxStateConfirmed \<and> (6, 5) \<in> (parent_edges (proof_parents ex_proof))\<^sup>+ \<and>
   tx_state (txStates ex_exited) 5 = TxStateConfirmed"
proof -
  have edge: "(6, 5) \<in> (parent_edges (proof_parents ex_proof))\<^sup>+"
    by (intro r_into_trancl) (simp add: parent_edges_def ex_proof_sel)
  have "tx_state (txStates ex_exited) 6 = TxStateConfirmed" by (simp add: tx_state_def)
  with edge session_ancestors_first [OF ex_NewProof ex_NewSession ex_exit] show ?thesis by auto
qed

theorem session_progress_latched_witness:
  "made_progress (ConfirmedAt 5 100) (run_machine session_step ex_session
     ([CallBroadcasted 5, CallConfirmed 5 100] @ [CallConfirmed 5 101, CallFailed 6 (Some ''x'')]))"
  by (rule session_progress_latched [OF ex_NewProof ex_NewSession]) (simp add: session_eval)

theorem SnapshotAt_sweep_ready_iff_witness:
  "(\<exists>snap. SnapshotAt ex_exited 244 = Inr snap \<and> sn_status snap = SessionStatusSweepReady) \<and>
   \<not> (\<exists>snap. SnapshotAt ex_exited 243 = Inr snap \<and> sn_status snap = SessionStatusSweepReady)"
proof
  show "\<exists>snap. SnapshotAt ex_exited 244 = Inr snap \<and> sn_status snap = SessionStatusSweepReady"
    by (subst SnapshotAt_sweep_ready_iff [OF ex_exited_inv]) (simp_all add: ex_proof_sel)
  show "\<not> (\<exists>snap. SnapshotAt ex_exited 243 = Inr snap \<and> sn_status snap = SessionStatusSweepReady)"
    by (subst SnapshotAt_sweep_ready_iff [OF ex_exited_inv]) (simp_all add: ex_proof_sel)
qed

theorem session_exit_completes_witness:
  "\<exists>snap. SnapshotAt ex_exited 244 = Inr snap \<and> sn_status snap = SessionStatusSweepReady"
  using session_exit_completes [OF ex_NewProof ex_NewSession _ _ ex_exit, of 244] by auto

theorem ExportState_roundtrip_witness:
  "NewSessionFromState ex_rank (Some ex_proof) (Some (ExportState ex_exited)) = Inr ex_exited \<and>
   NewSessionFromState ex_rank (Some ex_proof)
     (Some (ExportState (run_machine session_step ex_session [CallFailed 5 (Some [])]))) = Inl FailureHalfSet"
proof
  show "NewSessionFromState ex_rank (Some ex_proof) (Some (ExportState ex_exited)) = Inr ex_exited"
    using ExportState_roundtrip [OF ex_NewProof ex_NewSession ex_exit] by simp
  have "lastError (run_machine session_step ex_session [CallFailed 5 (Some [])]) = Some []"
    by (simp add: session_eval)
  then show "NewSessionFromState ex_rank (Some ex_proof)
     (Some (ExportState (run_machine session_step ex_session [CallFailed 5 (Some [])]))) = Inl FailureHalfSet"
    using ExportState_roundtrip [OF ex_NewProof ex_NewSession refl] by metis
qed

text \<open>
  The validated reload is weaker than the state machine: the state in which the target is
  broadcast while its parent is still pending is accepted for the two-transaction proof, although
  no sequence of calls on a new session reaches it.
\<close>

lemma reload_admits_unreachable:
  "\<exists>st s. NewSessionFromState rk (Some ex_proof) (Some st) = Inr s \<and>
     tx_state (txStates s) 6 = TxStateBroadcasted \<and> tx_state (txStates s) 5 = TxStatePending \<and>
     s \<notin> range (run_machine session_step ex_session)"
proof (intro exI conjI)
  let ?s = "ex_session\<lparr>txStates := fmupd 6 TxStateBroadcasted (fmupd 5 TxStatePending fmempty)\<rparr>"
  have "reload_inv ?s"
    by (auto simp: reload_inv_def parents_confirmed_def tx_state_def ex_proof_sel)
  from reload_roundtrip [OF this]
  show "NewSessionFromState rk (Some ex_proof) (Some (ExportState ?s)) = Inr ?s" by simp
  show "?s \<notin> range (run_machine session_step ex_session)"
  proof
    assume "?s \<in> range (run_machine session_step ex_session)"
    then have "sess_inv ?s" using session_runs(1) [OF ex_NewProof ex_NewSession] by auto
    from si_parents [OF this, of 6] show False
      by (simp add: parents_confirmed_def tx_state_def ex_proof_sel)
  qed
qed (simp_all add: tx_state_def)

end
