(* ===== verification/Planner_Facts.thy ===== *)
theory Planner_Facts
  imports Unroll_Planner Session_Facts
begin

text \<open>
  Correctness of the exit planner: what \<open>Validate\<close> accepts, how \<open>Plan\<close> classifies the
  transactions of a proof and when it asks for the sweep, and the refinement between
  recovery sessions and planner states.
\<close>

section \<open>Validation\<close>

lemma hashSet_loop_Inr: "hashSet_loop xs l S = Inr T \<longleftrightarrow> distinct xs \<and> set xs \<inter> S = {} \<and> T = set xs \<union> S"
  by (induction xs arbitrary: S) auto

lemma hashSetFromSlice_Inr: "hashSetFromSlice xs l = Inr T \<longleftrightarrow> distinct xs \<and> T = set xs"
  by (auto simp: hashSetFromSlice_def hashSet_loop_Inr)

lemma ensureDisjoint_None: "finite a \<Longrightarrow> ensureDisjoint rk a b = None \<longleftrightarrow> a \<inter> b = {}"
  by (auto simp: ensureDisjoint_def Let_def)

lemma missingParents_eq:
  "t \<in> fmdom' (proof_nodes p) \<Longrightarrow>
   missingParentsFromSet p C t = Inr (sort (filter (\<lambda>q. q \<notin> C) (proof_parents p t)))"
  by (simp add: missingParentsFromSet_def ParentTxids_dom)

lemma ensureParentsConfirmed_None:
  "t \<in> fmdom' (proof_nodes p) \<Longrightarrow>
   ensureParentsConfirmed p C t = None \<longleftrightarrow> set (proof_parents p t) \<subseteq> C"
  by (auto simp: ensureParentsConfirmed_def missingParents_eq filter_empty_conv)

definition sweep_ok :: "recoveryProof \<Rightarrow> planState \<Rightarrow> bool" where
  "sweep_ok p s \<longleftrightarrow>
     (\<forall>t. sw_txid (ps_sweep s) = Some t \<longrightarrow> t \<notin> fmdom' (proof_nodes p)) \<and>
     (case sw_status (ps_sweep s) of
        SweepStatusPending \<Rightarrow> sw_txid (ps_sweep s) = None \<and> sw_confirmHeight (ps_sweep s) = None
      | SweepStatusBroadcasted \<Rightarrow>
          sw_txid (ps_sweep s) \<noteq> None \<and> sw_confirmHeight (ps_sweep s) = None \<and>
          op_hash (targetOutpoint p) \<in> set (confirmedTxids s)
      | SweepStatusConfirmed \<Rightarrow>
          sw_txid (ps_sweep s) \<noteq> None \<and> op_hash (targetOutpoint p) \<in> set (confirmedTxids s) \<and>
          (\<exists>h c. sw_confirmHeight (ps_sweep s) = Some h \<and> 0 \<le> sint h \<and> targetConfirmHeight s = Some c \<and>
             0 \<le> sint c \<and> csvDelay p \<le> MaxCSVDelay \<and> sint c + uint (csvDelay p) \<le> sint h)
      | SweepStatusOther _ \<Rightarrow> False)"

definition plan_ok :: "recoveryProof \<Rightarrow> planState \<Rightarrow> bool" where
  "plan_ok p s \<longleftrightarrow>
     distinct (confirmedTxids s @ inFlightTxids s) \<and>
     set (confirmedTxids s) \<union> set (inFlightTxids s) \<subseteq> fmdom' (proof_nodes p) \<and>
     (op_hash (targetOutpoint p) \<in> set (confirmedTxids s) \<longleftrightarrow> targetConfirmHeight s \<noteq> None) \<and>
     (\<forall>h. targetConfirmHeight s = Some h \<longrightarrow> 0 \<le> sint h) \<and>
     (\<forall>t \<in> set (confirmedTxids s) \<union> set (inFlightTxids s). set (proof_parents p t) \<subseteq> set (confirmedTxids s)) \<and>
     sweep_ok p s"

lemma plan_okD:
  assumes "plan_ok p s"
  shows po_distinct: "distinct (confirmedTxids s)" "distinct (inFlightTxids s)"
    and po_disjoint: "set (confirmedTxids s) \<inter> set (inFlightTxids s) = {}"
    and po_known: "set (confirmedTxids s) \<subseteq> fmdom' (proof_nodes p)" "set (inFlightTxids s) \<subseteq> fmdom' (proof_nodes p)"
    and po_target: "op_hash (targetOutpoint p) \<in> set (confirmedTxids s) \<longleftrightarrow> targetConfirmHeight s \<noteq> None"
    and po_height: "targetConfirmHeight s = Some h \<Longrightarrow> 0 \<le> sint h"
    and po_parents: "t \<in> set (confirmedTxids s) \<Longrightarrow> set (proof_parents p t) \<subseteq> set (confirmedTxids s)"
      "t \<in> set (inFlightTxids s) \<Longrightarrow> set (proof_parents p t) \<subseteq> set (confirmedTxids s)"
    and po_sweep: "sweep_ok p s"
  using assms unfolding plan_ok_def distinct_append by blast+

lemma check_target_height_None:
  "check_target_height p C h = None \<longleftrightarrow>
     (op_hash (targetOutpoint p) \<in> C \<longleftrightarrow> h \<noteq> None) \<and> (\<forall>x. h = Some x \<longrightarrow> 0 \<le> sint x)"
  by (cases h) (auto simp: check_target_height_def confirmedTxidSetContains_def TargetOutpoint_def Let_def)

lemma mature_None:
  fixes h :: i32
  shows
  "(case ComputeMaturityHeight c d of Inl e \<Rightarrow> Some (f e) | Inr m \<Rightarrow> if sint h < sint m then Some (g m) else None) = None
     \<longleftrightarrow> 0 \<le> sint c \<and> d \<le> MaxCSVDelay \<and> sint c + uint d \<le> sint h"
proof (cases "ComputeMaturityHeight c d")
  case (Inl e)
  then show ?thesis
    using sint32_bounds [of h] by (auto simp: ComputeMaturityHeight_def Let_def split: if_splits)
next
  case (Inr m)
  with ComputeMaturityHeight_Inr [of c d m] show ?thesis by auto
qed

lemma validateSweepState_None:
  "validateSweepState (ps_sweep s) (set (confirmedTxids s)) p (targetConfirmHeight s) = None \<longleftrightarrow> sweep_ok p s"
proof (cases "sw_status (ps_sweep s)")
  case SweepStatusConfirmed
  then show ?thesis
    by (cases "sw_confirmHeight (ps_sweep s)"; cases "targetConfirmHeight s"; cases "sw_txid (ps_sweep s)")
      (auto simp: validateSweepState_def sweep_ok_def mature_None TargetOutpoint_def CSVDelay_def Node_dom)
qed (auto simp: validateSweepState_def sweep_ok_def TargetOutpoint_def Node_dom split: option.splits)

lemma validate_sets_None:
  assumes "distinct (confirmedTxids s)" and "distinct (inFlightTxids s)"
  shows "validate_sets rk p s (set (confirmedTxids s)) (set (inFlightTxids s)) = None \<longleftrightarrow> plan_ok p s"
proof -
  let ?C = "set (confirmedTxids s)" and ?F = "set (inFlightTxids s)"
  have par: "(\<forall>t \<in> A. ensureParentsConfirmed p ?C t = None) \<longleftrightarrow> (\<forall>t \<in> A. set (proof_parents p t) \<subseteq> ?C)"
    if "A \<subseteq> fmdom' (proof_nodes p)" for A
    using that ensureParentsConfirmed_None [of _ p ?C] by (intro ball_cong refl) blast
  show ?thesis
  proof (cases "?C \<subseteq> fmdom' (proof_nodes p) \<and> ?F \<subseteq> fmdom' (proof_nodes p)")
    case True
    then have "\<forall>t \<in> ?C \<union> ?F. Node p t \<noteq> None" by (auto simp: Node_dom)
    then have "validate_sets rk p s ?C ?F = None \<longleftrightarrow> ?C \<inter> ?F = {} \<and>
        check_target_height p ?C (targetConfirmHeight s) = None \<and> sweep_ok p s \<and>
        (\<forall>t \<in> ?C. ensureParentsConfirmed p ?C t = None) \<and> (\<forall>t \<in> ?F. ensureParentsConfirmed p ?C t = None)"
      by (simp add: validate_sets_def ensureDisjoint_None validateSweepState_None)
    then show ?thesis
      unfolding par [OF conjunct1 [OF True]] par [OF conjunct2 [OF True]] check_target_height_None
        plan_ok_def distinct_append ball_Un Un_subset_iff
      using True assms by argo
  next
    case False
    then show ?thesis
      unfolding validate_sets_def plan_ok_def by (auto simp: Node_dom split: if_splits)
  qed
qed

lemma Validate_None: "Validate rk (Some s) (Some p) = None \<longleftrightarrow> plan_ok p s"
proof (cases "distinct (confirmedTxids s) \<and> distinct (inFlightTxids s)")
  case True
  then have "hashSetFromSlice (confirmedTxids s) l = Inr (set (confirmedTxids s))"
    "hashSetFromSlice (inFlightTxids s) l = Inr (set (inFlightTxids s))" for l
    by (simp_all add: hashSetFromSlice_Inr)
  with True show ?thesis by (simp add: Validate_def validate_sets_None)
next
  case False
  then have "\<not> plan_ok p s" by (auto simp: plan_ok_def)
  with False show ?thesis
    by (auto simp: Validate_def hashSetFromSlice_Inr split: sum.splits)
qed

section \<open>The frontier\<close>

definition at_ready :: "recoveryProof \<Rightarrow> planState \<Rightarrow> hash \<Rightarrow> bool" where
  "at_ready p s t \<longleftrightarrow> t \<notin> set (confirmedTxids s) \<and> t \<notin> set (inFlightTxids s) \<and>
     set (proof_parents p t) \<subseteq> set (confirmedTxids s)"

definition at_inFlight :: "planState \<Rightarrow> hash \<Rightarrow> bool" where
  "at_inFlight s t \<longleftrightarrow> t \<notin> set (confirmedTxids s) \<and> t \<in> set (inFlightTxids s)"

definition at_blocked :: "recoveryProof \<Rightarrow> planState \<Rightarrow> hash \<Rightarrow> bool" where
  "at_blocked p s t \<longleftrightarrow> t \<notin> set (confirmedTxids s) \<and> t \<notin> set (inFlightTxids s) \<and>
     \<not> set (proof_parents p t) \<subseteq> set (confirmedTxids s)"

definition frontier_of :: "recoveryProof \<Rightarrow> nat \<times> hash \<Rightarrow> txFrontier" where
  "frontier_of p it = \<lparr>tf_txid = snd it, tf_node = Node p (snd it), tf_layer = fst it,
     tf_parents = proof_parents p (snd it)\<rparr>"

definition blocked_of :: "recoveryProof \<Rightarrow> planState \<Rightarrow> nat \<times> hash \<Rightarrow> blockedTx" where
  "blocked_of p s it = txFrontier.extend (frontier_of p it)
     \<lparr>bt_missing = sort (filter (\<lambda>q. q \<notin> set (confirmedTxids s)) (proof_parents p (snd it)))\<rparr>"

lemma frontier_keys [simp]:
  "tf_layer (frontier_of p it) = fst it" "tf_txid (frontier_of p it) = snd it"
  "tf_layer (blocked_of p s it) = fst it" "tf_txid (blocked_of p s it) = snd it"
  "bt_missing (blocked_of p s it) = sort (filter (\<lambda>q. q \<notin> set (confirmedTxids s)) (proof_parents p (snd it)))"
  by (simp_all add: frontier_of_def blocked_of_def txFrontier.defs)

lemma plan_tx_eq:
  assumes "t \<in> fmdom' (proof_nodes p)"
  shows "plan_tx p (set (confirmedTxids s)) (set (inFlightTxids s)) i t (r, f, b) = Inr
     (r @ (if at_ready p s t then [frontier_of p (i, t)] else []),
      f @ (if at_inFlight s t then [frontier_of p (i, t)] else []),
      b @ (if at_blocked p s t then [blocked_of p s (i, t)] else []))"
  using assms
  by (auto simp: plan_tx_def ParentTxids_dom missingParents_eq filter_empty_conv at_ready_def at_inFlight_def
      at_blocked_def frontier_of_def blocked_of_def Let_def)

lemma plan_layer_eq:
  assumes "set ts \<subseteq> fmdom' (proof_nodes p)"
  shows "plan_layer p (set (confirmedTxids s)) (set (inFlightTxids s)) i ts (r, f, b) = Inr
     (r @ map (frontier_of p) (filter (at_ready p s \<circ> snd) (map (Pair i) ts)),
      f @ map (frontier_of p) (filter (at_inFlight s \<circ> snd) (map (Pair i) ts)),
      b @ map (blocked_of p s) (filter (at_blocked p s \<circ> snd) (map (Pair i) ts)))"
  using assms by (induction ts arbitrary: r f b) (auto simp: plan_tx_eq)

lemma plan_layers_eq:
  assumes "set (concat ls) \<subseteq> fmdom' (proof_nodes p)"
  shows "plan_layers p (set (confirmedTxids s)) (set (inFlightTxids s)) i ls (r, f, b) = Inr
     (r @ map (frontier_of p) (filter (at_ready p s \<circ> snd) (layer_pairs i ls)),
      f @ map (frontier_of p) (filter (at_inFlight s \<circ> snd) (layer_pairs i ls)),
      b @ map (blocked_of p s) (filter (at_blocked p s \<circ> snd) (layer_pairs i ls)))"
  using assms by (induction ls arbitrary: i r f b) (auto simp: plan_layer_eq)

text \<open>The layer walk already visits the transactions in the order of the final sorts.\<close>

lemma sorted_layer_pairs:
  "(\<And>l. l \<in> set ls \<Longrightarrow> sorted l) \<Longrightarrow> sorted (layer_pairs i ls)"
proof (induction i ls rule: layer_pairs.induct)
  case (2 i l ls)
  have "sorted (map (Pair i) l)"
    using "2.prems" [of l] by (simp add: sorted_wrt_map less_eq_prod_def sorted_wrt_iff_nth_less)
  moreover have "(i, x) \<le> (k, y)" if "(k, y) \<in> set (layer_pairs (Suc i) ls)" for x k y
    using that by (auto simp: in_layer_pairs)
  ultimately show ?case
    using "2.IH" "2.prems" by (auto simp: sorted_append)
qed simp

lemma sort_frontier_id:
  assumes "sorted xs" and "\<And>it. frontier_key (g it) = it"
  shows "sort_key frontier_key (map g (filter P xs)) = map g (filter P xs)"
proof (rule sort_key_id_if_sorted)
  have "map frontier_key (map g (filter P xs)) = filter P xs" by (simp add: assms(2) comp_def)
  then show "sorted (map frontier_key (map g (filter P xs)))" using assms(1) by (simp add: sorted_wrt_filter)
qed

definition plan_snapshot :: "recoveryProof \<Rightarrow> planState \<Rightarrow> csvInfo option \<Rightarrow> planSnapshot" where
  "plan_snapshot p s csv =
     \<lparr>pl_ready = map (frontier_of p) (filter (at_ready p s \<circ> snd) (layer_pairs 0 (proof_layers p))),
      pl_inFlight = map (frontier_of p) (filter (at_inFlight s \<circ> snd) (layer_pairs 0 (proof_layers p))),
      pl_blocked = map (blocked_of p s) (filter (at_blocked p s \<circ> snd) (layer_pairs 0 (proof_layers p))),
      pl_targetConfirmed = (op_hash (targetOutpoint p) \<in> set (confirmedTxids s)),
      pl_targetConfirmHeight = targetConfirmHeight s, pl_csv = csv,
      pl_allProofConfirmed = (fmdom' (proof_nodes p) \<subseteq> set (confirmedTxids s)),
      pl_needSweep = (case csv of None \<Rightarrow> False | Some c \<Rightarrow> ci_ready c \<and> sw_status (ps_sweep s) = SweepStatusPending),
      pl_done = (sw_status (ps_sweep s) = SweepStatusConfirmed), pl_sweep = ps_sweep s\<rparr>"

abbreviation planner_of :: "recoveryProof \<Rightarrow> planner option" where
  "planner_of p \<equiv> Some \<lparr>planner_proof = Some p\<rparr>"

lemma plan_sets_eq:
  assumes wf: "proof_wf p"
  shows "plan_sets p h s (set (confirmedTxids s)) (set (inFlightTxids s)) =
     (if op_hash (targetOutpoint p) \<in> set (confirmedTxids s)
      then bindR (csvInfoAt p h (targetConfirmHeight s)) (\<lambda>csv. Inr (plan_snapshot p s (Some csv)))
      else Inr (plan_snapshot p s None))"
proof -
  note all = proof_wf_all [OF wf]
  have "sorted l" if "l \<in> set (proof_layers p)" for l
    using that proof_wf_layering [OF wf] by (auto simp: layering_def in_set_conv_nth)
  from sorted_layer_pairs [OF this] have srt: "sorted (layer_pairs 0 (proof_layers p))" .
  have sorts: "sortFrontier (map (frontier_of p) (filter P (layer_pairs 0 (proof_layers p))))
        = map (frontier_of p) (filter P (layer_pairs 0 (proof_layers p)))"
    "sortBlocked (map (blocked_of p s) (filter P (layer_pairs 0 (proof_layers p))))
        = map (blocked_of p s) (filter P (layer_pairs 0 (proof_layers p)))" for P
    unfolding sortFrontier_def sortBlocked_def using srt by (simp_all add: sort_frontier_id)
  have layers: "plan_layers p (set (confirmedTxids s)) (set (inFlightTxids s)) 0 (Layers p) ([], [], []) = Inr
     (map (frontier_of p) (filter (at_ready p s \<circ> snd) (layer_pairs 0 (proof_layers p))),
      map (frontier_of p) (filter (at_inFlight s \<circ> snd) (layer_pairs 0 (proof_layers p))),
      map (blocked_of p s) (filter (at_blocked p s \<circ> snd) (layer_pairs 0 (proof_layers p))))"
    by (subst plan_layers_eq) (use all in \<open>simp_all add: Layers_def\<close>)
  have conf: "allProofTxidsConfirmed p (set (confirmedTxids s)) \<longleftrightarrow> fmdom' (proof_nodes p) \<subseteq> set (confirmedTxids s)"
    unfolding all [symmetric] by (auto simp: allProofTxidsConfirmed_def Layers_def list_all_iff)
  show ?thesis
    by (cases "csvInfoAt p h (targetConfirmHeight s)")
      (simp_all add: plan_sets_def layers sorts conf plan_snapshot_def copySweepState_def
        confirmedTxidSetContains_def TargetOutpoint_def)
qed

lemma Plan_eq:
  assumes wf: "proof_wf p"
  shows "Plan rk (planner_of p) h (Some s) =
     (case Validate rk (Some s) (Some p) of
        Some e \<Rightarrow> Inl e
      | None \<Rightarrow>
          if op_hash (targetOutpoint p) \<in> set (confirmedTxids s)
          then bindR (csvInfoAt p h (targetConfirmHeight s)) (\<lambda>csv. Inr (plan_snapshot p s (Some csv)))
          else Inr (plan_snapshot p s None))"
proof (cases "Validate rk (Some s) (Some p)")
  case None
  then have "distinct (confirmedTxids s)" "distinct (inFlightTxids s)"
    by (simp_all add: Validate_None plan_ok_def)
  then have "hashSetFromSlice (confirmedTxids s) l = Inr (set (confirmedTxids s))"
    "hashSetFromSlice (inFlightTxids s) l = Inr (set (inFlightTxids s))" for l
    by (simp_all add: hashSetFromSlice_Inr)
  with None show ?thesis by (simp add: Plan_def Proof_def plan_sets_eq [OF wf])
qed (simp add: Plan_def Proof_def)

lemma Plan_Inr:
  assumes "proof_wf p" and "Plan rk (planner_of p) h (Some s) = Inr snap"
  shows "plan_ok p s"
    and "\<exists>csv. snap = plan_snapshot p s csv \<and>
      (case targetConfirmHeight s of None \<Rightarrow> csv = None
       | Some c \<Rightarrow> \<exists>ci. csv = Some ci \<and> (ci_ready ci \<longleftrightarrow> sint c + uint (csvDelay p) \<le> sint h))"
proof -
  have v: "Validate rk (Some s) (Some p) = None"
    using assms(2) by (auto simp: Plan_eq [OF assms(1)] split: option.splits)
  then show ok: "plan_ok p s" by (simp add: Validate_None)
  show "\<exists>csv. snap = plan_snapshot p s csv \<and>
      (case targetConfirmHeight s of None \<Rightarrow> csv = None
       | Some c \<Rightarrow> \<exists>ci. csv = Some ci \<and> (ci_ready ci \<longleftrightarrow> sint c + uint (csvDelay p) \<le> sint h))"
    using assms(2) v po_target [OF ok]
    by (auto simp: Plan_eq [OF assms(1)] csvInfoAt_def CSVDelay_def ComputeMaturityHeight_Inr Let_def
        split: option.splits sum.splits if_splits)
qed

lemma valid_complete:
  assumes wf: "proof_wf p" and ok: "plan_ok p s" and "op_hash (targetOutpoint p) \<in> set (confirmedTxids s)"
  shows "fmdom' (proof_nodes p) \<subseteq> set (confirmedTxids s)"
  using pg.target_closes [OF wf _ assms(3)] po_parents(1) [OF ok] by blast

lemma distinct_buckets:
  assumes "distinct xs" and "\<And>x. \<not> (P x \<and> Q x)" "\<And>x. \<not> (P x \<and> R x)" "\<And>x. \<not> (Q x \<and> R x)"
  shows "distinct (filter P xs @ filter Q xs @ filter R xs)"
  using assms by auto

lemma plan_snapshot_lists:
  "map tf_txid (pl_ready (plan_snapshot p s csv)) = filter (at_ready p s) (concat (proof_layers p))"
  "map tf_txid (pl_inFlight (plan_snapshot p s csv)) = filter (at_inFlight s) (concat (proof_layers p))"
  "map tf_txid (pl_blocked (plan_snapshot p s csv)) = filter (at_blocked p s) (concat (proof_layers p))"
proof -
  have "map snd (filter (P \<circ> snd) (layer_pairs 0 (proof_layers p))) = filter P (concat (proof_layers p))" for P
    by (metis filter_map map_snd_layer_pairs)
  then show "map tf_txid (pl_ready (plan_snapshot p s csv)) = filter (at_ready p s) (concat (proof_layers p))"
    "map tf_txid (pl_inFlight (plan_snapshot p s csv)) = filter (at_inFlight s) (concat (proof_layers p))"
    "map tf_txid (pl_blocked (plan_snapshot p s csv)) = filter (at_blocked p s) (concat (proof_layers p))"
    by (simp_all add: plan_snapshot_def comp_def)
qed

lemma plan_snapshot_sets:
  assumes "proof_wf p"
  shows "tf_txid ` set (pl_ready (plan_snapshot p s csv)) = {t \<in> fmdom' (proof_nodes p). at_ready p s t}"
    and "tf_txid ` set (pl_inFlight (plan_snapshot p s csv)) = {t \<in> fmdom' (proof_nodes p). at_inFlight s t}"
    and "tf_txid ` set (pl_blocked (plan_snapshot p s csv)) = {t \<in> fmdom' (proof_nodes p). at_blocked p s t}"
  unfolding list.set_map [symmetric] plan_snapshot_lists set_filter proof_wf_all [OF assms] by (rule refl)+

lemma plan_snapshot_distinct:
  assumes "proof_wf p"
  shows "distinct (map tf_txid (pl_ready (plan_snapshot p s csv)) @ map tf_txid (pl_inFlight (plan_snapshot p s csv))
     @ map tf_txid (pl_blocked (plan_snapshot p s csv)))"
  unfolding plan_snapshot_lists
  by (rule distinct_buckets [OF pg.lays_distinct [OF assms]])
    (auto simp: at_ready_def at_inFlight_def at_blocked_def)

lemma plan_snapshot_progress:
  assumes "proof_wf p" and "op_hash (targetOutpoint p) \<notin> set (confirmedTxids s)"
  shows "pl_ready (plan_snapshot p s csv) \<noteq> [] \<or> pl_inFlight (plan_snapshot p s csv) \<noteq> []"
proof -
  obtain t where "t \<in> fmdom' (proof_nodes p) - set (confirmedTxids s)" "set (proof_parents p t) \<subseteq> set (confirmedTxids s)"
    using pg.frontier_exists [OF assms(1)] pg.tgt_in [OF assms(1)] assms(2) by blast
  then have "t \<in> tf_txid ` set (pl_ready (plan_snapshot p s csv)) \<union> tf_txid ` set (pl_inFlight (plan_snapshot p s csv))"
    unfolding plan_snapshot_sets [OF assms(1)] by (auto simp: at_ready_def at_inFlight_def)
  then show ?thesis by auto
qed

section \<open>Properties\<close>

text \<open>
  C14: Validation of the durable planner state is exact: a state passes if and only if its txid
  lists are duplicate-free, disjoint and part of the proof, the target height is present
  exactly when the target is confirmed, confirmed and in-flight transactions have all their
  in-proof parents confirmed, and the sweep is in a consistent stage of its lifecycle.
\<close>

theorem Validate_accepts_iff: "Validate rk (Some s) (Some p) = None \<longleftrightarrow> plan_ok p s"
  by (rule Validate_None)

text \<open>
  C4: A plan puts every unconfirmed transaction of the proof in exactly one frontier, with the
  missing parents of each blocked one, and as long as the target is not confirmed there is
  a transaction to broadcast or one in flight.
\<close>

theorem Plan_classifies:
  assumes "NewProof rk th target delay ns = Inr p" and "Plan rk' (planner_of p) h (Some s) = Inr snap"
    and "N = fmdom' (proof_nodes p)" and "C = set (confirmedTxids s)" and "F = set (inFlightTxids s)"
  shows "distinct (map tf_txid (pl_ready snap) @ map tf_txid (pl_inFlight snap) @ map tf_txid (pl_blocked snap))
       \<and> tf_txid ` set (pl_ready snap) = {t \<in> N - C - F. set (proof_parents p t) \<subseteq> C}
       \<and> tf_txid ` set (pl_inFlight snap) = F
       \<and> tf_txid ` set (pl_blocked snap) = {t \<in> N - C - F. \<not> set (proof_parents p t) \<subseteq> C}
       \<and> (\<forall>b \<in> set (pl_blocked snap). set (bt_missing b) = set (proof_parents p (tf_txid b)) - C)
       \<and> (op_hash target \<notin> C \<longrightarrow> pl_ready snap \<noteq> [] \<or> pl_inFlight snap \<noteq> [])"
proof -
  have wf: "proof_wf p" and tgt: "targetOutpoint p = target"
    using NewProof_wf [OF assms(1)] assms(1) by (auto simp: NewProof_Inr)
  note ok = Plan_Inr(1) [OF wf assms(2)]
  obtain csv where snap: "snap = plan_snapshot p s csv" using Plan_Inr(2) [OF wf assms(2)] by blast
  have sets: "{t \<in> N. at_ready p s t} = {t \<in> N - C - F. set (proof_parents p t) \<subseteq> C}"
    "{t \<in> N. at_inFlight s t} = F"
    "{t \<in> N. at_blocked p s t} = {t \<in> N - C - F. \<not> set (proof_parents p t) \<subseteq> C}"
    using po_disjoint [OF ok] po_known(2) [OF ok]
    by (auto simp: at_ready_def at_inFlight_def at_blocked_def assms(3-5))
  have "set (bt_missing b) = set (proof_parents p (tf_txid b)) - C" if "b \<in> set (pl_blocked snap)" for b
    using that by (auto simp: snap plan_snapshot_def assms(4))
  then show ?thesis
    using plan_snapshot_sets [OF wf, of s csv] plan_snapshot_distinct [OF wf, of s csv]
      plan_snapshot_progress [OF wf, of s csv]
    unfolding snap assms(3) [symmetric] assms(4) [symmetric] tgt sets by simp
qed

text \<open>
  C5: A plan asks for the sweep exactly when the target's timelock has expired and no sweep was
  broadcast; the target is confirmed exactly when the whole proof is; and it reports the exit
  as done only when the sweep confirmed no earlier than the maturity of the target.
\<close>

theorem Plan_sweep_decision:
  assumes "NewProof rk th target delay ns = Inr p" and "Plan rk' (planner_of p) h (Some s) = Inr snap"
  shows "(pl_needSweep snap \<longleftrightarrow> sw_status (ps_sweep s) = SweepStatusPending \<and>
            (\<exists>c. targetConfirmHeight s = Some c \<and> sint c + uint delay \<le> sint h))
       \<and> (pl_allProofConfirmed snap \<longleftrightarrow> op_hash target \<in> set (confirmedTxids s))
       \<and> (pl_done snap \<longrightarrow> (\<exists>c x. targetConfirmHeight s = Some c \<and> sw_confirmHeight (ps_sweep s) = Some x \<and>
            sint c + uint delay \<le> sint x))"
proof -
  have wf: "proof_wf p" and p: "targetOutpoint p = target" "csvDelay p = delay"
    using NewProof_wf [OF assms(1)] assms(1) by (auto simp: NewProof_Inr)
  note ok = Plan_Inr(1) [OF wf assms(2)]
  obtain csv where csv: "snap = plan_snapshot p s csv" "case targetConfirmHeight s of None \<Rightarrow> csv = None
       | Some c \<Rightarrow> \<exists>ci. csv = Some ci \<and> (ci_ready ci \<longleftrightarrow> sint c + uint (csvDelay p) \<le> sint h)"
    using Plan_Inr(2) [OF wf assms(2)] by blast
  have "pl_allProofConfirmed snap \<longleftrightarrow> op_hash target \<in> set (confirmedTxids s)"
    using valid_complete [OF wf ok] pg.tgt_in [OF wf] p by (auto simp: csv(1) plan_snapshot_def)
  moreover have "\<exists>c x. targetConfirmHeight s = Some c \<and> sw_confirmHeight (ps_sweep s) = Some x \<and>
            sint c + uint delay \<le> sint x" if "pl_done snap"
    using that po_sweep [OF ok] p by (auto simp: csv(1) plan_snapshot_def sweep_ok_def)
  ultimately show ?thesis
    using csv(2) p by (auto simp: csv(1) plan_snapshot_def split: option.splits)
qed

text \<open>
  C15: Planning fails only for a reason: for a constructed proof it returns a snapshot if and
  only if the state is valid and the maturity height of a confirmed target fits int32, and the
  snapshot does not depend on map iteration order.
\<close>

theorem Plan_returns_iff:
  assumes "NewProof rk th target delay ns = Inr p"
  shows "((\<exists>snap. Plan rk' (planner_of p) h (Some s) = Inr snap) \<longleftrightarrow>
          plan_ok p s \<and> (\<forall>c. targetConfirmHeight s = Some c \<longrightarrow> sint c + uint delay \<le> max_int32))
       \<and> (\<forall>snap rk''. Plan rk' (planner_of p) h (Some s) = Inr snap \<longrightarrow> Plan rk'' (planner_of p) h (Some s) = Inr snap)"
proof -
  have wf: "proof_wf p" and p: "csvDelay p = delay"
    using NewProof_wf [OF assms] assms by (auto simp: NewProof_Inr)
  show ?thesis
  proof (cases "plan_ok p s")
    case True
    then have "\<And>r. Validate r (Some s) (Some p) = None" by (simp add: Validate_None)
    then have plan: "\<And>r. Plan r (planner_of p) h (Some s) =
        (case targetConfirmHeight s of None \<Rightarrow> Inr (plan_snapshot p s None)
         | Some c \<Rightarrow> bindR (csvInfoAt p h (Some c)) (\<lambda>csv. Inr (plan_snapshot p s (Some csv))))"
      using po_target [OF True] by (auto simp: Plan_eq [OF wf] split: option.splits)
    have "okR (csvInfoAt p h (Some c)) \<longleftrightarrow> sint c + uint delay \<le> max_int32" if "targetConfirmHeight s = Some c" for c
      using po_height [OF True that] proof_wf_delay [OF wf] p
      by (auto simp: csvInfoAt_def CSVDelay_def ComputeMaturityHeight_def Let_def)
    with True show ?thesis unfolding plan by (auto simp: okR_iff split: option.split)
  next
    case False
    then show ?thesis using Plan_Inr(1) [OF wf] by blast
  qed
qed

section \<open>Sessions refine planner states\<close>

text \<open>The planner state that records the progress of a session, its sweep still pending.\<close>

definition planState_of :: "session \<Rightarrow> planState" where
  "planState_of s =
     \<lparr>confirmedTxids = sorted_list_of_set (fmdom' (confirmHeights s)),
      inFlightTxids = sorted_list_of_set {t \<in> fmdom' (txStates s). tx_state (txStates s) t = TxStateBroadcasted},
      targetConfirmHeight = fmlookup (confirmHeights s) (op_hash (targetOutpoint (sess_proof s))),
      ps_sweep = \<lparr>sw_status = SweepStatusPending, sw_txid = None, sw_confirmHeight = None\<rparr>\<rparr>"

lemma planState_of_sets:
  assumes "sess_inv s"
  shows "set (confirmedTxids (planState_of s)) = {t. tx_state (txStates s) t = TxStateConfirmed}"
    and "set (inFlightTxids (planState_of s)) = {t. tx_state (txStates s) t = TxStateBroadcasted}"
proof -
  have "t \<in> fmdom' (txStates s)" if "tx_state (txStates s) t = TxStateBroadcasted" for t
    using that by (auto simp: tx_state_def fmlookup_dom'_iff split: option.splits)
  then show "set (inFlightTxids (planState_of s)) = {t. tx_state (txStates s) t = TxStateBroadcasted}"
    by (auto simp: planState_of_def)
  show "set (confirmedTxids (planState_of s)) = {t. tx_state (txStates s) t = TxStateConfirmed}"
    using si_height_iff [OF assms] by (auto simp: planState_of_def)
qed

lemma planState_of_ok:
  assumes inv: "sess_inv s"
  shows "plan_ok (sess_proof s) (planState_of s)"
proof -
  let ?C = "set (confirmedTxids (planState_of s))" and ?F = "set (inFlightTxids (planState_of s))"
  have moved: "tx_state (txStates s) t \<noteq> TxStatePending" if "t \<in> ?C \<union> ?F" for t
    using that by (auto simp: planState_of_sets [OF inv])
  have "?C \<union> ?F \<subseteq> fmdom' (proof_nodes (sess_proof s))"
  proof
    fix t
    assume "t \<in> ?C \<union> ?F"
    from moved [OF this] show "t \<in> fmdom' (proof_nodes (sess_proof s))"
      by (auto simp: tx_state_def si_dom [OF inv, symmetric] fmlookup_dom'_iff split: option.splits)
  qed
  moreover have "\<forall>t \<in> ?C \<union> ?F. set (proof_parents (sess_proof s) t) \<subseteq> ?C"
    using si_parents [OF inv moved] unfolding planState_of_sets(1) [OF inv] parents_confirmed_def by blast
  moreover have "?C \<inter> ?F = {}" by (auto simp: planState_of_sets [OF inv])
  moreover have "op_hash (targetOutpoint (sess_proof s)) \<in> ?C \<longleftrightarrow> targetConfirmHeight (planState_of s) \<noteq> None"
    "distinct (confirmedTxids (planState_of s))" "distinct (inFlightTxids (planState_of s))"
    "sweep_ok (sess_proof s) (planState_of s)"
    by (simp_all add: planState_of_def sweep_ok_def fmlookup_dom'_iff)
  moreover have "0 \<le> sint h" if "targetConfirmHeight (planState_of s) = Some h" for h
    using that si_height [OF inv] by (simp add: planState_of_def)
  ultimately show ?thesis
    unfolding plan_ok_def distinct_append by blast
qed

lemma planState_of_preds:
  assumes "sess_inv s"
  shows "at_ready (sess_proof s) (planState_of s) = is_ready s"
    and "at_inFlight (planState_of s) = is_awaiting s"
    and "at_blocked (sess_proof s) (planState_of s) = is_blocked s"
proof -
  have par: "set (proof_parents (sess_proof s) t) \<subseteq> set (confirmedTxids (planState_of s)) \<longleftrightarrow> parents_confirmed s t" for t
    by (auto simp: planState_of_sets [OF assms] parents_confirmed_def)
  have "at_ready (sess_proof s) (planState_of s) t = is_ready s t \<and> at_inFlight (planState_of s) t = is_awaiting s t \<and>
      at_blocked (sess_proof s) (planState_of s) t = is_blocked s t" for t
    using si_known [OF assms, of t]
    unfolding at_ready_def at_inFlight_def at_blocked_def is_ready_def is_awaiting_def is_blocked_def par
    by (auto simp: planState_of_sets [OF assms])
  then show "at_ready (sess_proof s) (planState_of s) = is_ready s"
    "at_inFlight (planState_of s) = is_awaiting s"
    "at_blocked (sess_proof s) (planState_of s) = is_blocked s"
    by (simp_all add: fun_eq_iff)
qed

text \<open>
  What a session snapshot and a plan have in common: the frontiers, the timelock of the target and the
  sweep decision, or the failure because the maturity height does not fit int32. No other failures
  are related.
\<close>

definition csv_view :: "csvStatus \<Rightarrow> csvInfo" where
  "csv_view c = \<lparr>ci_targetConfirmHeight = cs_targetConfirmHeight c, ci_maturityHeight = cs_maturityHeight c,
     ci_blocksRemaining = cs_blocksRemaining c, ci_ready = cs_ready c\<rparr>"

fun same_view :: "session_error + sessionSnapshot \<Rightarrow> plan_error + planSnapshot \<Rightarrow> bool" where
  "same_view (Inr a) (Inr b) \<longleftrightarrow>
     map ba_txid (sn_ready a) = map tf_txid (pl_ready b) \<and>
     sn_awaiting a = sort (map tf_txid (pl_inFlight b)) \<and>
     map (\<lambda>x. (bl_txid x, bl_layer x, bl_missing x)) (sn_blocked a) =
       map (\<lambda>x. (tf_txid x, tf_layer x, bt_missing x)) (pl_blocked b) \<and>
     (sn_status a = SessionStatusSweepReady \<longleftrightarrow> pl_needSweep b) \<and>
     (sn_status a = SessionStatusMaterializing \<longleftrightarrow> \<not> pl_targetConfirmed b) \<and>
     map_option csv_view (sn_csv a) = pl_csv b"
| "same_view (Inl e) (Inl e') \<longleftrightarrow> e = ProofError MaturityOverflow \<and> e' = PlanProofError MaturityOverflow"
| "same_view _ _ \<longleftrightarrow> False"

lemma blocked_same:
  assumes "sess_inv s"
  shows "(\<lambda>x. (bl_txid x, bl_layer x, bl_missing x)) \<circ> blocked_action s =
     (\<lambda>x. (tf_txid x, tf_layer x, bt_missing x)) \<circ> blocked_of (sess_proof s) (planState_of s)"
  by (auto simp: fun_eq_iff blocked_action_def planState_of_sets [OF assms])

text \<open>Both computations of the timelock agree, the overflow included.\<close>

lemma csv_same:
  assumes "sess_inv s" and "fmlookup (confirmHeights s) (op_hash (targetOutpoint (sess_proof s))) = Some c"
  shows "csvInfoAt (sess_proof s) h (Some c) =
     (if sint c + uint (csvDelay (sess_proof s)) > max_int32 then Inl (PlanProofError MaturityOverflow)
      else Inr (csv_view (projr (csvStatusAt s h))))"
proof -
  have "0 \<le> sint c" "csvDelay (sess_proof s) \<le> MaxCSVDelay"
    using si_height [OF assms] proof_wf_delay [OF si_wf [OF assms(1)]] by simp_all
  then show ?thesis
    by (simp add: csvInfoAt_def csvStatusAt_def assms(2) csv_view_def TargetOutpoint_def CSVDelay_def
        ComputeMaturityHeight_def Let_def)
qed

lemma same_view_at:
  assumes inv: "sess_inv s" and ne: "lastError s = None"
  shows "same_view (SnapshotAt s h) (Plan rk (planner_of (sess_proof s)) h (Some (planState_of s)))"
proof -
  let ?p = "sess_proof s" and ?ps = "planState_of s"
  note wf = si_wf [OF inv]
  have tgt: "op_hash (targetOutpoint ?p) \<in> set (confirmedTxids ?ps) \<longleftrightarrow> materializationComplete s"
    unfolding complete_iff_target [OF inv] by (simp add: planState_of_def)
  have "Validate rk (Some ?ps) (Some ?p) = None"
    using planState_of_ok [OF inv] by (simp add: Validate_None)
  then have plan: "Plan rk (planner_of ?p) h (Some ?ps) =
     (if materializationComplete s
      then bindR (csvInfoAt ?p h (targetConfirmHeight ?ps)) (\<lambda>csv. Inr (plan_snapshot ?p ?ps (Some csv)))
      else Inr (plan_snapshot ?p ?ps None))"
    by (simp add: Plan_eq [OF wf] tgt)
  have view: "map ba_txid (map (ready_action s) xs) = map tf_txid (map (frontier_of ?p) xs)"
    "map (\<lambda>x. (bl_txid x, bl_layer x, bl_missing x)) (map (blocked_action s) xs) =
       map (\<lambda>x. (tf_txid x, tf_layer x, bt_missing x)) (map (blocked_of ?p ?ps) xs)"
    "sort (filter (is_awaiting s) (concat (proof_layers ?p))) = sort (map tf_txid (pl_inFlight (plan_snapshot ?p ?ps csv)))"
    for xs csv
    by (simp_all add: ready_action_def plan_snapshot_lists planState_of_preds [OF inv] blocked_same [OF inv])
  show ?thesis
  proof (cases "materializationComplete s")
    case False
    with view tgt show ?thesis
      unfolding plan SnapshotAt_eq [OF wf ne]
      by (simp add: plan_snapshot_def planState_of_preds [OF inv] del: map_map)
  next
    case True
    then obtain c where c: "targetConfirmHeight ?ps = Some c"
      "fmlookup (confirmHeights s) (op_hash (targetOutpoint ?p)) = Some c"
      unfolding complete_iff_target [OF inv] by (auto simp: planState_of_def fmlookup_dom'_iff)
    have "sw_status (ps_sweep ?ps) = SweepStatusPending" by (simp add: planState_of_def)
    with True view tgt c show ?thesis
      unfolding plan SnapshotAt_eq [OF wf ne] c(1) csv_same [OF inv c(2)] session_maturity [OF inv c(2)]
      by (simp add: plan_snapshot_def planState_of_preds [OF inv] csv_view_def Let_def del: map_map)
  qed
qed

lemma SnapshotAt_returns:
  assumes inv: "sess_inv s" and ne: "lastError s = None"
  shows "okR (SnapshotAt s h) \<longleftrightarrow>
     (case fmlookup (confirmHeights s) (op_hash (targetOutpoint (sess_proof s))) of
        None \<Rightarrow> True | Some c \<Rightarrow> sint c + uint (csvDelay (sess_proof s)) \<le> max_int32)"
proof (cases "fmlookup (confirmHeights s) (op_hash (targetOutpoint (sess_proof s)))")
  case None
  then have "\<not> materializationComplete s"
    unfolding complete_iff_target [OF inv] by (simp add: fmlookup_dom'_iff)
  with None show ?thesis
    unfolding SnapshotAt_eq [OF si_wf [OF inv] ne] by (simp add: okR_iff)
next
  case (Some c)
  then have "materializationComplete s"
    unfolding complete_iff_target [OF inv] by (simp add: fmlookup_dom'_iff)
  with Some show ?thesis
    unfolding SnapshotAt_eq [OF si_wf [OF inv] ne] session_maturity [OF inv Some] by (simp add: okR_iff)
qed

text \<open>
  C3: The session and the planner agree: for every session that a sequence of calls on a new session
  of a constructed proof reaches and that has not been marked failed, at every height and under every
  map iteration order, the session snapshot and the plan of the recorded progress (with the sweep still
  pending) have the same ready, in-flight and blocked transactions with the same missing parents, the
  same timelock figures and the same sweep decision. They return unless the target is confirmed at
  a height whose sum with the delay exceeds int32, and then both report exactly that overflow.
\<close>

theorem session_refines_planner:
  assumes "NewProof rk th target delay ns = Inr p" and "NewSession (Some p) = Inr s"
    and "run_machine session_step s cs = s'" and "lastError s' = None"
  shows "same_view (SnapshotAt s' h) (Plan rk' (planner_of p) h (Some (planState_of s')))
       \<and> (okR (SnapshotAt s' h) \<longleftrightarrow>
            (case fmlookup (confirmHeights s') (op_hash (targetOutpoint p)) of
               None \<Rightarrow> True | Some c \<Rightarrow> sint c + uint (csvDelay p) \<le> max_int32))"
  using session_runs [OF assms(1-3)] same_view_at [of s' h rk'] SnapshotAt_returns [of s' h] assms(4) by blast

section \<open>Witnesses\<close>

text \<open>The exit of the two-transaction proof, all confirmed at height 100, and before it.\<close>

abbreviation ex_planState :: planState where
  "ex_planState \<equiv> \<lparr>confirmedTxids = [5, 6], inFlightTxids = [], targetConfirmHeight = Some 100,
     ps_sweep = \<lparr>sw_status = SweepStatusPending, sw_txid = None, sw_confirmHeight = None\<rparr>\<rparr>"

abbreviation ex_planStart :: planState where
  "ex_planStart \<equiv> \<lparr>confirmedTxids = [], inFlightTxids = [5], targetConfirmHeight = None,
     ps_sweep = \<lparr>sw_status = SweepStatusPending, sw_txid = None, sw_confirmHeight = None\<rparr>\<rparr>"

lemma ex_proof_wf: "proof_wf ex_proof"
  by (rule NewProof_wf [OF ex_NewProof])

lemma ex_plan_ok: "plan_ok ex_proof ex_planState" "plan_ok ex_proof ex_planStart"
  by (simp_all add: plan_ok_def sweep_ok_def ex_proof_sel)

lemma ex_Plan:
  "\<exists>snap. Plan ex_rank (planner_of ex_proof) 244 (Some ex_planState) = Inr snap"
  "\<exists>snap. Plan ex_rank (planner_of ex_proof) 1 (Some ex_planStart) = Inr snap"
  unfolding Plan_eq [OF ex_proof_wf]
  by (simp_all add: Validate_None [THEN iffD2, OF ex_plan_ok(1)] Validate_None [THEN iffD2, OF ex_plan_ok(2)]
      ex_proof_sel csvInfoAt_def CSVDelay_def ComputeMaturityHeight_def MaxCSVDelay_def)

theorem Plan_returns_iff_witness:
  "(\<exists>snap. Plan ex_rank (planner_of ex_proof) 244 (Some ex_planState) = Inr snap) \<and>
   (\<exists>snap. Plan ex_rank (planner_of ex_proof) 244 (Some ex_planStart) = Inr snap)"
proof
  show "\<exists>snap. Plan ex_rank (planner_of ex_proof) 244 (Some ex_planState) = Inr snap"
    by (rule conjunct1 [OF Plan_returns_iff [OF ex_NewProof], THEN iffD2]) (simp add: ex_plan_ok)
  show "\<exists>snap. Plan ex_rank (planner_of ex_proof) 244 (Some ex_planStart) = Inr snap"
    by (rule conjunct1 [OF Plan_returns_iff [OF ex_NewProof], THEN iffD2]) (simp add: ex_plan_ok)
qed

theorem Plan_classifies_witness:
  "\<exists>snap. Plan ex_rank (planner_of ex_proof) 1 (Some ex_planStart) = Inr snap \<and>
     tf_txid ` set (pl_inFlight snap) = {5} \<and> tf_txid ` set (pl_blocked snap) = {6}"
proof -
  obtain snap where snap: "Plan ex_rank (planner_of ex_proof) 1 (Some ex_planStart) = Inr snap"
    using ex_Plan(2) by blast
  then show ?thesis
    using Plan_classifies [OF ex_NewProof snap refl refl refl] by (auto simp: ex_proof_sel)
qed

theorem Plan_sweep_decision_witness:
  "\<exists>snap. Plan ex_rank (planner_of ex_proof) 244 (Some ex_planState) = Inr snap \<and> pl_needSweep snap"
proof -
  obtain snap where snap: "Plan ex_rank (planner_of ex_proof) 244 (Some ex_planState) = Inr snap"
    using ex_Plan(1) by blast
  then show ?thesis
    using Plan_sweep_decision [OF ex_NewProof snap] by simp
qed

theorem session_refines_planner_witness:
  "same_view (SnapshotAt ex_exited 244) (Plan ex_rank (planner_of ex_proof) 244 (Some (planState_of ex_exited))) \<and>
   okR (SnapshotAt ex_exited 244)"
  using session_refines_planner [OF ex_NewProof ex_NewSession ex_exit, of 244 ex_rank]
  by (simp add: ex_proof_sel)

end
