(* ===== verification/Vtxo_Expiry.thy ===== *)
theory Vtxo_Expiry
  imports Recovery_Proof "HOL-Library.Signed_Division"
begin

text \<open>
  VTXO descriptors and the expiry policy of \<open>vtxo/expiry.go\<close>: the classification of a
  VTXO at a block height, the critical and refresh thresholds with their int32 arithmetic,
  the payment reserve and the gate on automatic refresh. The callbacks
  \<open>MinRefreshAmount\<close> and \<open>FreeRefreshWindow\<close> are the values they return while one event
  is handled; \<open>None\<close> is a nil callback.
\<close>

section \<open>Go integers\<close>

text \<open>The builtin \<open>max\<close> on int32, and the conversions the thresholds use.\<close>

definition max_i32 :: "i32 \<Rightarrow> i32 \<Rightarrow> i32" where
  "max_i32 a b = (if sint a < sint b then b else a)"

lemma sint_max_i32 [simp]: "sint (max_i32 a b) = max (sint a) (sint b)"
  by (simp add: max_i32_def)

definition uint64_of_i32 :: "i32 \<Rightarrow> u64" where
  "uint64_of_i32 x = word_of_int (sint x)"

definition uint64_of_u32 :: "u32 \<Rightarrow> u64" where
  "uint64_of_u32 x = word_of_int (uint x)"

definition MaxInt32 :: i32 where
  "MaxInt32 = 0x7fffffff"

lemma sint_MaxInt32 [simp]: "sint MaxInt32 = max_int32"
  by (simp add: MaxInt32_def)

section \<open>Descriptors\<close>

datatype VTXOStatus =
    VTXOStatusLive
  | VTXOStatusPendingForfeit
  | VTXOStatusForfeiting
  | VTXOStatusForfeited
  | VTXOStatusSpent
  | VTXOStatusUnilateralExit
  | VTXOStatusFailed
  | VTXOStatusSpending
  | VTXOStatusExpired
  | VTXOStatusOther int

record ancestry =
  an_treeDepth :: u32

text \<open>\<open>Descriptor\<close> keeps the fields the lifecycle reads.\<close>

record descriptor =
  d_outpoint :: outPoint
  d_amount :: i64
  d_policyTemplate :: "byte list"
  d_pkScript :: "byte list"
  d_taprootAssetRoot :: "hash option"
  d_clientKey :: "pubKey option"
  d_operatorKey :: "pubKey option"
  d_ancestry :: "ancestry list"
  d_forfeitRoundID :: string
  d_batchExpiry :: i32
  d_relativeExpiry :: u32
  d_chainDepth :: i64
  d_createdHeight :: i32
  d_status :: VTXOStatus

definition MaxTreeDepth :: "descriptor option \<Rightarrow> int" where
  "MaxTreeDepth d =
     (case d of
        None \<Rightarrow> 0
      | Some d \<Rightarrow> fold (\<lambda>a deepest. if uint (an_treeDepth a) > deepest then uint (an_treeDepth a) else deepest)
                    (d_ancestry d) 0)"

section \<open>Configuration\<close>

datatype expiryStatus =
    ExpiryStatusSafe
  | ExpiryStatusNeedsRefresh
  | ExpiryStatusCritical
  | ExpiryStatusExpired
  | ExpiryStatusUnknown

datatype refreshUrgency = RefreshUrgencyNormal | RefreshUrgencyElevated | RefreshUrgencyCritical

record expiryConfig =
  minRefreshAmount :: "i64 option"
  refreshThresholdBlocks :: i32
  criticalThresholdBlocks :: i32
  minRefreshBuffer :: i32
  treeDepthMultiplier :: i32
  maxPaymentCLTV :: i32
  freeRefreshWindow :: "u32 option"

definition DefaultExpiryConfig :: expiryConfig where
  "DefaultExpiryConfig =
     \<lparr>minRefreshAmount = None, refreshThresholdBlocks = 144, criticalThresholdBlocks = 36,
      minRefreshBuffer = 72, treeDepthMultiplier = 6, maxPaymentCLTV = 0, freeRefreshWindow = None\<rparr>"

section \<open>Thresholds\<close>

definition HasUsableBatchExpiry :: "descriptor option \<Rightarrow> bool" where
  "HasUsableBatchExpiry vtxo =
     (case vtxo of
        None \<Rightarrow> False
      | Some d \<Rightarrow>
          if sint (d_batchExpiry d) \<le> 0 then False
          else sint (d_createdHeight d) \<le> 0 \<or> sint (d_createdHeight d) \<le> sint (d_batchExpiry d))"

definition BlocksUntilExpiry :: "descriptor \<Rightarrow> i32 \<Rightarrow> i32" where
  "BlocksUntilExpiry vtxo currentHeight = d_batchExpiry vtxo - currentHeight"

text \<open>The depth is summed in int64 and saturated to int32.\<close>

definition exitTxDepth :: "descriptor \<Rightarrow> i32" where
  "exitTxDepth vtxo =
     (let depth = (word_of_int (MaxTreeDepth (Some vtxo)) :: i64);
          depth = (if sint (d_chainDepth vtxo) > 0 then depth + d_chainDepth vtxo else depth) in
      if sint depth > max_int32 then MaxInt32 else word_of_int (sint depth))"

definition CalculateCriticalThreshold :: "expiryConfig \<Rightarrow> descriptor \<Rightarrow> i32" where
  "CalculateCriticalThreshold c vtxo =
     (let treeDepthBuffer = exitTxDepth vtxo * treeDepthMultiplier c;
          csvBuffer = d_relativeExpiry vtxo;
          safeExitBuffer = treeDepthBuffer + csvBuffer in
      max_i32 (criticalThresholdBlocks c) safeExitBuffer)"

definition refreshSafetyFloor :: "expiryConfig \<Rightarrow> i32 \<Rightarrow> i32" where
  "refreshSafetyFloor c criticalThreshold =
     (let floor = sint criticalThreshold + sint (minRefreshBuffer c) + sint (max_i32 (maxPaymentCLTV c) 0) in
      if floor > max_int32 then MaxInt32 else word_of_int floor)"

definition baseRefreshSafetyFloor :: "expiryConfig \<Rightarrow> i32 \<Rightarrow> i32" where
  "baseRefreshSafetyFloor c criticalThreshold =
     (let floor = sint criticalThreshold + sint (minRefreshBuffer c) in
      if floor > max_int32 then MaxInt32 else word_of_int floor)"

definition canReserveMaxPaymentCLTV :: "expiryConfig \<Rightarrow> descriptor \<Rightarrow> i32 \<Rightarrow> bool" where
  "canReserveMaxPaymentCLTV c vtxo criticalThreshold =
     (if sint (maxPaymentCLTV c) \<le> 0 \<or> sint (d_chainDepth vtxo) > 0 \<or> sint (d_createdHeight vtxo) \<le> 0 \<or>
         sint (d_batchExpiry vtxo) \<le> sint (d_createdHeight vtxo)
      then True
      else
        let requestedFloor = refreshSafetyFloor c criticalThreshold;
            batchLifetime = sint (d_batchExpiry vtxo) - sint (d_createdHeight vtxo);
            minimumUsefulLifetime = sint requestedFloor + sint (max_i32 (minRefreshBuffer c) 0) in
        minimumUsefulLifetime \<le> batchLifetime)"

definition CanReserveMaxPaymentCLTV :: "expiryConfig option \<Rightarrow> descriptor option \<Rightarrow> bool" where
  "CanReserveMaxPaymentCLTV c vtxo =
     (case (c, vtxo) of
        (Some c, Some vtxo) \<Rightarrow> canReserveMaxPaymentCLTV c vtxo (CalculateCriticalThreshold c vtxo)
      | _ \<Rightarrow> True)"

definition effectiveRefreshSafetyFloor :: "expiryConfig \<Rightarrow> descriptor \<Rightarrow> i32 \<Rightarrow> i32" where
  "effectiveRefreshSafetyFloor c vtxo criticalThreshold =
     (if \<not> canReserveMaxPaymentCLTV c vtxo criticalThreshold
      then baseRefreshSafetyFloor c criticalThreshold
      else refreshSafetyFloor c criticalThreshold)"

definition CalculateRefreshThreshold :: "expiryConfig \<Rightarrow> descriptor \<Rightarrow> i32" where
  "CalculateRefreshThreshold c vtxo =
     (let criticalThreshold = CalculateCriticalThreshold c vtxo;
          safetyFloor = effectiveRefreshSafetyFloor c vtxo criticalThreshold;
          refreshThreshold = max_i32 (refreshThresholdBlocks c) safetyFloor in
      case freeRefreshWindow c of
        None \<Rightarrow> refreshThreshold
      | Some windowBlocks \<Rightarrow>
          if windowBlocks = 0 \<or> uint64_of_u32 windowBlocks \<ge> uint64_of_i32 refreshThreshold then refreshThreshold
          else if uint64_of_u32 windowBlocks < uint64_of_i32 safetyFloor then refreshThreshold
          else windowBlocks)"

section \<open>Classification\<close>

definition CheckExpiry :: "expiryConfig \<Rightarrow> descriptor option \<Rightarrow> i32 \<Rightarrow> expiryStatus" where
  "CheckExpiry c vtxo currentHeight =
     (if \<not> HasUsableBatchExpiry vtxo then ExpiryStatusUnknown
      else
        let d = the vtxo; blocksRemaining = d_batchExpiry d - currentHeight in
        if sint blocksRemaining \<le> 0 then ExpiryStatusExpired
        else if sint blocksRemaining \<le> sint (CalculateCriticalThreshold c d) then ExpiryStatusCritical
        else if sint blocksRemaining \<le> sint (CalculateRefreshThreshold c d) then ExpiryStatusNeedsRefresh
        else ExpiryStatusSafe)"

text \<open>Go's \<open>/\<close> on int32 truncates toward zero.\<close>

definition DetermineRefreshUrgency :: "expiryConfig \<Rightarrow> descriptor \<Rightarrow> i32 \<Rightarrow> refreshUrgency" where
  "DetermineRefreshUrgency c vtxo blocksRemaining =
     (if sint blocksRemaining \<le> sint (CalculateCriticalThreshold c vtxo) then RefreshUrgencyCritical
      else if sint blocksRemaining \<le> sint (CalculateRefreshThreshold c vtxo) sdiv 2 then RefreshUrgencyElevated
      else RefreshUrgencyNormal)"

definition ShouldWaitForFreeRefreshWindow :: "expiryConfig option \<Rightarrow> descriptor option \<Rightarrow> i32 \<Rightarrow> bool" where
  "ShouldWaitForFreeRefreshWindow c vtxo currentHeight =
     (case c of
        None \<Rightarrow> False
      | Some c \<Rightarrow>
          (case freeRefreshWindow c of
             None \<Rightarrow> False
           | Some window \<Rightarrow>
               if \<not> HasUsableBatchExpiry vtxo then False
               else
                 let remaining = BlocksUntilExpiry (the vtxo) currentHeight in
                 sint remaining > 0 \<and> uint64_of_i32 remaining > uint64_of_u32 window))"

definition canAutoRefresh :: "expiryConfig \<Rightarrow> descriptor \<Rightarrow> i32 \<Rightarrow> bool" where
  "canAutoRefresh c desc height =
     (if d_taprootAssetRoot desc \<noteq> None \<or> ShouldWaitForFreeRefreshWindow (Some c) (Some desc) height then False
      else case minRefreshAmount c of
        None \<Rightarrow> True
      | Some minAmount \<Rightarrow> sint (d_amount desc) \<ge> sint minAmount)"

section \<open>Threshold arithmetic\<close>

lemma MaxTreeDepth_bounds: "0 \<le> MaxTreeDepth d" "MaxTreeDepth d < 2 ^ 32"
proof -
  have "0 \<le> x \<Longrightarrow> x < 2 ^ 32 \<Longrightarrow>
      0 \<le> fold (\<lambda>a m. if uint (an_treeDepth a) > m then uint (an_treeDepth a) else m) as x \<and>
      fold (\<lambda>a m. if uint (an_treeDepth a) > m then uint (an_treeDepth a) else m) as x < 2 ^ 32" for as and x :: int
  proof (induction as arbitrary: x)
    case (Cons a as)
    then show ?case using uint_lt2p [of "an_treeDepth a"] by (simp add: Cons.IH)
  qed simp
  from this [of 0 "d_ancestry (the d)"] show "0 \<le> MaxTreeDepth d" "MaxTreeDepth d < 2 ^ 32"
    by (cases d; simp add: MaxTreeDepth_def)+
qed

text \<open>The exact length of the exit chain, and the block budget an exit needs.\<close>

definition exit_chain :: "descriptor \<Rightarrow> int" where
  "exit_chain d = MaxTreeDepth (Some d) + max 0 (sint (d_chainDepth d))"

definition exit_budget :: "expiryConfig \<Rightarrow> descriptor \<Rightarrow> int" where
  "exit_budget c d = exit_chain d * sint (treeDepthMultiplier c) + uint (d_relativeExpiry d)"

lemma exit_chain_nonneg: "0 \<le> exit_chain d"
  using MaxTreeDepth_bounds(1) [of "Some d"] by (simp add: exit_chain_def)

lemma exitTxDepth_exact:
  assumes "exit_chain d \<le> max_int32"
  shows "sint (exitTxDepth d) = exit_chain d"
proof -
  let ?t = "MaxTreeDepth (Some d)" and ?c = "sint (d_chainDepth d)"
  note t = MaxTreeDepth_bounds [of "Some d"]
  define depth where "depth = (if ?c > 0 then (word_of_int ?t :: 64 word) + d_chainDepth d else word_of_int ?t)"
  have "(word_of_int ?t :: 64 word) + d_chainDepth d = word_of_int (?t + ?c)" by simp
  then have "depth = word_of_int (exit_chain d)"
    by (auto simp: depth_def exit_chain_def max_def)
  then have "sint depth = exit_chain d"
    using assms exit_chain_nonneg [of d] by (simp add: sint_of_int64)
  moreover have "exitTxDepth d = (if sint depth > max_int32 then MaxInt32 else word_of_int (sint depth))"
    by (simp add: exitTxDepth_def depth_def Let_def)
  ultimately show ?thesis
    using assms exit_chain_nonneg [of d] by (simp add: sint_of_int32)
qed

lemma critical_exact:
  assumes "exit_chain d \<le> max_int32" and "0 \<le> sint (treeDepthMultiplier c)" and "exit_budget c d \<le> max_int32"
  shows "sint (CalculateCriticalThreshold c d) = max (sint (criticalThresholdBlocks c)) (exit_budget c d)"
proof -
  have nonneg: "0 \<le> exit_budget c d"
    unfolding exit_budget_def using exit_chain_nonneg assms(2) by (intro add_nonneg_nonneg mult_nonneg_nonneg) simp_all
  have "exitTxDepth d * treeDepthMultiplier c + d_relativeExpiry d =
      word_of_int (sint (exitTxDepth d) * sint (treeDepthMultiplier c) + uint (d_relativeExpiry d))" by simp
  also have "\<dots> = word_of_int (exit_budget c d)"
    by (simp only: exitTxDepth_exact [OF assms(1)] exit_budget_def)
  finally have "sint (exitTxDepth d * treeDepthMultiplier c + d_relativeExpiry d) = sint (word_of_int (exit_budget c d) :: i32)"
    by (rule arg_cong)
  also have "\<dots> = exit_budget c d"
    using nonneg assms(3) by (intro sint_of_int32) linarith+
  finally show ?thesis by (simp add: CalculateCriticalThreshold_def)
qed

lemma uint64_of_i32_less:
  "0 \<le> sint b \<Longrightarrow> uint64_of_u32 a < uint64_of_i32 b \<longleftrightarrow> uint a < sint b"
  "0 \<le> sint b \<Longrightarrow> uint64_of_i32 b \<le> uint64_of_u32 a \<longleftrightarrow> sint b \<le> uint a"
proof -
  assume b: "0 \<le> sint b"
  have "uint (uint64_of_u32 a) = uint a"
    unfolding uint64_of_u32_def uint_word_of_int_eq
    using uint_lt2p [of a] by (intro take_bit_int_eq_self) simp_all
  moreover have "uint (uint64_of_i32 b) = sint b"
    unfolding uint64_of_i32_def uint_word_of_int_eq
    using b sint32_bounds [of b] by (intro take_bit_int_eq_self) simp_all
  ultimately show "uint64_of_u32 a < uint64_of_i32 b \<longleftrightarrow> uint a < sint b"
    "uint64_of_i32 b \<le> uint64_of_u32 a \<longleftrightarrow> sint b \<le> uint a"
    by (simp_all add: word_less_def word_le_def)
qed

lemma safety_floor_bounds:
  assumes "0 \<le> sint t" and "0 \<le> sint (minRefreshBuffer c)"
  shows "min max_int32 (sint t + sint (minRefreshBuffer c)) \<le> sint (effectiveRefreshSafetyFloor c d t)"
    and "sint (refreshSafetyFloor c t) =
           min max_int32 (sint t + sint (minRefreshBuffer c) + max 0 (sint (maxPaymentCLTV c)))"
proof -
  have sat: "sint (if x > max_int32 then MaxInt32 else word_of_int x) = min max_int32 x" if "0 \<le> x" for x
    using that sint_of_int32 [of x] by (auto simp: min_def)
  show "sint (refreshSafetyFloor c t) =
      min max_int32 (sint t + sint (minRefreshBuffer c) + max 0 (sint (maxPaymentCLTV c)))"
    unfolding refreshSafetyFloor_def Let_def sint_max_i32
    using assms sat [of "sint t + sint (minRefreshBuffer c) + max (sint (maxPaymentCLTV c)) (sint (0 :: i32))"]
    by (simp add: max.commute)
  moreover have "sint (baseRefreshSafetyFloor c t) = min max_int32 (sint t + sint (minRefreshBuffer c))"
    unfolding baseRefreshSafetyFloor_def Let_def using assms sat by simp
  ultimately show "min max_int32 (sint t + sint (minRefreshBuffer c)) \<le> sint (effectiveRefreshSafetyFloor c d t)"
    by (auto simp: effectiveRefreshSafetyFloor_def)
qed

lemma refresh_above_floor:
  assumes "0 \<le> sint (effectiveRefreshSafetyFloor c d (CalculateCriticalThreshold c d))"
  shows "sint (effectiveRefreshSafetyFloor c d (CalculateCriticalThreshold c d)) \<le> sint (CalculateRefreshThreshold c d)"
proof -
  let ?f = "effectiveRefreshSafetyFloor c d (CalculateCriticalThreshold c d)"
  let ?r = "max_i32 (refreshThresholdBlocks c) ?f"
  have r: "sint ?f \<le> sint ?r" "0 \<le> sint ?r" using assms by simp_all
  show ?thesis
  proof (cases "freeRefreshWindow c")
    case None
    then show ?thesis using r by (simp add: CalculateRefreshThreshold_def Let_def)
  next
    case (Some w)
    have "sint ?f \<le> sint w" if "uint w < sint ?r" "sint ?f \<le> uint w"
    proof -
      have "uint w \<le> max_int32" using that(1) sint32_bounds [of ?r] by linarith
      then have "sint w = uint w"
        using sint_of_int32 [of "uint w"] uint_nonnegative [of w] by simp
      then show ?thesis using that(2) by simp
    qed
    then show ?thesis
      using r Some uint64_of_i32_less [OF r(2), of w] uint64_of_i32_less [OF assms, of w]
      by (simp add: CalculateRefreshThreshold_def Let_def)
  qed
qed

section \<open>Properties\<close>

fun expiry_stage :: "expiryStatus \<Rightarrow> nat" where
  "expiry_stage ExpiryStatusUnknown = 0"
| "expiry_stage ExpiryStatusSafe = 1"
| "expiry_stage ExpiryStatusNeedsRefresh = 2"
| "expiry_stage ExpiryStatusCritical = 3"
| "expiry_stage ExpiryStatusExpired = 4"

lemma blocks_remaining_exact:
  assumes "0 \<le> sint h" and "HasUsableBatchExpiry (Some d)"
  shows "sint (d_batchExpiry d - h) = sint (d_batchExpiry d) - sint h"
proof -
  have "0 < sint (d_batchExpiry d)" using assms(2) by (auto simp: HasUsableBatchExpiry_def split: if_splits)
  then have "sint (word_of_int (sint (d_batchExpiry d) - sint h) :: i32) = sint (d_batchExpiry d) - sint h"
    using assms(1) sint32_bounds [of h] sint32_bounds [of "d_batchExpiry d"] by (intro sint_of_int32) linarith+
  then show ?thesis by simp
qed

lemma expired_later:
  assumes "CheckExpiry c d h = ExpiryStatusExpired" and "0 \<le> sint h" and "sint h \<le> sint h'"
  shows "CheckExpiry c' d h' = ExpiryStatusExpired"
proof -
  obtain v where v: "d = Some v" "HasUsableBatchExpiry (Some v)" "sint (d_batchExpiry v - h) \<le> 0"
    using assms(1) by (cases d) (auto simp: CheckExpiry_def HasUsableBatchExpiry_def Let_def split: if_splits)
  moreover have "sint (d_batchExpiry v - h') \<le> 0"
    using blocks_remaining_exact [OF assms(2) v(2)] blocks_remaining_exact [of h' v] v assms by linarith
  ultimately show ?thesis by (simp add: CheckExpiry_def Let_def)
qed

text \<open>
  Expiry only moves forward: as the chain grows, the classification of a VTXO under a fixed
  configuration never goes back from expired to critical, from critical to the refresh stage,
  or from there to safe, and at and past the batch expiry it is expired.
\<close>

lemma CheckExpiry_monotone:
  assumes "0 \<le> sint h" and "sint h \<le> sint h'"
  shows "expiry_stage (CheckExpiry c d h) \<le> expiry_stage (CheckExpiry c d h')"
proof (cases "HasUsableBatchExpiry d")
  case True
  then obtain v where v: "d = Some v" by (cases d) (auto simp: HasUsableBatchExpiry_def)
  have "sint (d_batchExpiry v - h') \<le> sint (d_batchExpiry v - h)"
    using blocks_remaining_exact [of h v] blocks_remaining_exact [of h' v] True v assms by simp
  then show ?thesis by (auto simp: CheckExpiry_def Let_def v)
qed (simp add: CheckExpiry_def)

text \<open>
  C23: Below the critical stage there is time for the exit: if the length of the exit chain and the
  budget of a unilateral exit (confirming the chain and waiting out the CSV delay) fit int32, the
  configured thresholds and the tree depth multiplier are not negative and the height is not negative,
  then a VTXO classified as safe or in need of refresh has more blocks left than that budget, and one
  classified as safe has more than the budget plus the refresh buffer left (capped at the largest
  int32). Nothing is claimed of a VTXO of unknown expiry.
\<close>

theorem CheckExpiry_leaves_exit_time:
  assumes "exit_chain d \<le> max_int32" and "0 \<le> sint (treeDepthMultiplier c)" and "exit_budget c d \<le> max_int32"
    and "0 \<le> sint (minRefreshBuffer c)" and "0 \<le> sint h" and "0 \<le> sint (criticalThresholdBlocks c)"
  shows "(CheckExpiry c (Some d) h \<in> {ExpiryStatusSafe, ExpiryStatusNeedsRefresh} \<longrightarrow>
            exit_budget c d < sint (d_batchExpiry d) - sint h)
       \<and> (CheckExpiry c (Some d) h = ExpiryStatusSafe \<longrightarrow>
            min max_int32 (exit_budget c d + sint (minRefreshBuffer c)) < sint (d_batchExpiry d) - sint h)"
proof (cases "HasUsableBatchExpiry (Some d)")
  case True
  let ?t = "CalculateCriticalThreshold c d"
  have t: "sint ?t = max (sint (criticalThresholdBlocks c)) (exit_budget c d)"
    by (rule critical_exact [OF assms(1-3)])
  then have "0 \<le> sint ?t" using assms(6) by simp
  from safety_floor_bounds(1) [OF this assms(4), of d] this assms(4)
  have "min max_int32 (sint ?t + sint (minRefreshBuffer c)) \<le> sint (CalculateRefreshThreshold c d)"
    by (intro order_trans [OF _ refresh_above_floor]) (auto simp: min_def split: if_splits)
  then show ?thesis
    using t blocks_remaining_exact [OF assms(5) True]
    by (auto simp: CheckExpiry_def True Let_def split: if_splits)
qed (simp add: CheckExpiry_def)

text \<open>
  The saturation of the exit depth does not protect the critical threshold: with the default
  configuration there is a descriptor whose exit chain alone is longer than int32 and whose
  critical threshold is nevertheless only the 36-block minimum, because the multiplication
  after the saturation wraps around.
\<close>

lemma critical_threshold_wraps:
  "\<exists>d. exit_chain d > max_int32 \<and> sint (CalculateCriticalThreshold DefaultExpiryConfig d) = 36"
proof -
  define d :: descriptor where "d = \<lparr>d_outpoint = \<lparr>op_hash = 0, op_index = 0\<rparr>, d_amount = 1000,
     d_policyTemplate = [], d_pkScript = [], d_taprootAssetRoot = None, d_clientKey = None, d_operatorKey = None,
     d_ancestry = [], d_forfeitRoundID = [], d_batchExpiry = 1000, d_relativeExpiry = 0,
     d_chainDepth = 0x80000000, d_createdHeight = 0, d_status = VTXOStatusLive\<rparr>"
  have "exit_chain d > max_int32" by (simp add: exit_chain_def d_def MaxTreeDepth_def)
  moreover have "exitTxDepth d = MaxInt32" by (simp add: exitTxDepth_def d_def MaxTreeDepth_def)
  ultimately show ?thesis
    by (intro exI [of _ d]) (simp add: CalculateCriticalThreshold_def DefaultExpiryConfig_def MaxInt32_def d_def)
qed

text \<open>A round-direct VTXO two levels deep with a CSV delay of 144 blocks, expiring at height 1000.\<close>

definition ex_vtxo :: descriptor where
  "ex_vtxo = \<lparr>d_outpoint = \<lparr>op_hash = 6, op_index = 0\<rparr>, d_amount = 1000,
     d_policyTemplate = [], d_pkScript = [0x51], d_taprootAssetRoot = None, d_clientKey = Some [2], d_operatorKey = Some [3],
     d_ancestry = [\<lparr>an_treeDepth = 2\<rparr>], d_forfeitRoundID = [], d_batchExpiry = 1000, d_relativeExpiry = 144,
     d_chainDepth = 0, d_createdHeight = 0, d_status = VTXOStatusLive\<rparr>"

theorem CheckExpiry_leaves_exit_time_witness:
  "CheckExpiry DefaultExpiryConfig (Some ex_vtxo) 800 = ExpiryStatusNeedsRefresh \<and>
   exit_budget DefaultExpiryConfig ex_vtxo < sint (d_batchExpiry ex_vtxo) - 800"
proof -
  have eval: "CheckExpiry DefaultExpiryConfig (Some ex_vtxo) 800 = ExpiryStatusNeedsRefresh"
    by (simp add: CheckExpiry_def HasUsableBatchExpiry_def ex_vtxo_def CalculateCriticalThreshold_def
        exitTxDepth_def MaxTreeDepth_def DefaultExpiryConfig_def max_i32_def CalculateRefreshThreshold_def
        effectiveRefreshSafetyFloor_def canReserveMaxPaymentCLTV_def refreshSafetyFloor_def)
  have "exit_chain ex_vtxo = 2" "exit_budget DefaultExpiryConfig ex_vtxo = 156"
    by (simp_all add: exit_chain_def exit_budget_def MaxTreeDepth_def ex_vtxo_def DefaultExpiryConfig_def)
  with eval CheckExpiry_leaves_exit_time [of ex_vtxo DefaultExpiryConfig 800] show ?thesis
    by (simp add: DefaultExpiryConfig_def)
qed

end
