(* ===== verification/Ark_Script.thy ===== *)
theory Ark_Script
  imports Prelude
begin

text \<open>
  The policy language of \<open>lib/arkscript\<close>: the AST of spending conditions (\<open>node.go\<close>), its
  compilation to tapscript, the timelocks and keys read off a node (\<open>vtxo.go\<close>,
  \<open>settlement.go\<close>, \<open>validate.go\<close>) and the validation of a policy against the Ark
  invariants. The script builder, tokenizer and key serializations of btcd are fields of
  \<open>arkLib\<close>; a builder is run on the list of operations added to it.
\<close>

section \<open>The libraries\<close>

datatype scriptOp =
    AddOp byte
  | AddData "byte list"
  | AddInt64 int
  | AddOps "byte list"

record token =
  tk_opcode :: byte
  tk_data :: "byte list"

record controlBlock =
  cb_internalKey :: pubKey
  cb_outputKeyYIsOdd :: bool
  cb_leafVersion :: byte
  cb_inclusionProof :: "hash list"

record arkLib =
  al_script :: "scriptOp list \<Rightarrow> string + byte list"
  al_tokenize :: "byte list \<Rightarrow> token list \<times> string option"
  al_hasOpSuccess :: "byte list \<Rightarrow> bool"
  al_makeScriptNum :: "byte list \<Rightarrow> nat \<Rightarrow> string + int"
  al_xOnly :: "pubKey \<Rightarrow> byte list"
  al_compressed :: "pubKey \<Rightarrow> byte list"
  al_parseXOnly :: "byte list \<Rightarrow> string + pubKey"
  al_writeVarInt :: "u64 \<Rightarrow> byte list"
  al_readVarInt :: "byte list \<Rightarrow> string + u64 \<times> byte list"
  al_readVarBytes :: "byte list \<Rightarrow> nat \<Rightarrow> string + byte list \<times> byte list"
  al_lockTimeToSequence :: "u32 \<Rightarrow> u32"
  al_tapLeafHash :: "byte \<Rightarrow> byte list \<Rightarrow> hash"
  al_tapBranch :: "hash \<Rightarrow> hash \<Rightarrow> hash"
  al_numsKey :: pubKey
  al_outputKey :: "pubKey \<Rightarrow> hash \<Rightarrow> pubKey"
  al_payToTaproot :: "pubKey \<Rightarrow> string + byte list"
  al_controlBlockBytes :: "controlBlock \<Rightarrow> string + byte list"
  al_parseControlBlock :: "byte list \<Rightarrow> string + controlBlock"
  al_controlBlockRoot :: "controlBlock \<Rightarrow> byte list \<Rightarrow> hash"

text \<open>The opcodes of \<open>txscript\<close> the policies use.\<close>

definition OP_0 :: byte where "OP_0 = 0x00"
definition OP_1NEGATE :: byte where "OP_1NEGATE = 0x4f"
definition OP_1 :: byte where "OP_1 = 0x51"
definition OP_16 :: byte where "OP_16 = 0x60"
definition OP_DROP :: byte where "OP_DROP = 0x75"
definition OP_SIZE :: byte where "OP_SIZE = 0x82"
definition OP_EQUALVERIFY :: byte where "OP_EQUALVERIFY = 0x88"
definition OP_SHA256 :: byte where "OP_SHA256 = 0xa8"
definition OP_HASH160 :: byte where "OP_HASH160 = 0xa9"
definition OP_CHECKSIG :: byte where "OP_CHECKSIG = 0xac"
definition OP_CHECKSIGVERIFY :: byte where "OP_CHECKSIGVERIFY = 0xad"
definition OP_CHECKLOCKTIMEVERIFY :: byte where "OP_CHECKLOCKTIMEVERIFY = 0xb1"
definition OP_CHECKSEQUENCEVERIFY :: byte where "OP_CHECKSEQUENCEVERIFY = 0xb2"

definition SequenceLockTimeMask :: u32 where "SequenceLockTimeMask = 0x0000ffff"
definition MaxTxInSequence :: u32 where "MaxTxInSequence = 0xffffffff"

text \<open>
  Errors carry the fixed part of their message, and the position for an error about one element;
  numbers formatted into a message are left out.
\<close>

datatype ark_error =
    ArkLibError string
  | ArkError string
  | AtIndex string nat
  | InLeaf string nat ark_error

fun arkR :: "string + 'a \<Rightarrow> ark_error + 'a" where
  "arkR (Inl e) = Inl (ArkLibError e)"
| "arkR (Inr x) = Inr x"

lemma arkR_Inr [simp]: "arkR m = Inr x \<longleftrightarrow> m = Inr x"
  by (cases m) auto

text \<open>The wrapping of an error with its context (\<open>fmt.Errorf\<close> with \<open>%w\<close>).\<close>

definition wrapR :: "('e \<Rightarrow> 'f) \<Rightarrow> 'e + 'a \<Rightarrow> 'f + 'a" where
  "wrapR f m = (case m of Inl e \<Rightarrow> Inl (f e) | Inr x \<Rightarrow> Inr x)"

lemma wrapR_simps [simp]:
  "wrapR f (Inl e) = Inl (f e)" "wrapR f (Inr x) = Inr x"
  by (simp_all add: wrapR_def)

lemma wrapR_Inr [simp]: "wrapR f m = Inr x \<longleftrightarrow> m = Inr x"
  by (cases m) auto

text \<open>The first nil of a slice of pointers.\<close>

fun first_nil :: "nat \<Rightarrow> 'a option list \<Rightarrow> nat option" where
  "first_nil i [] = None"
| "first_nil i (None # xs) = Some i"
| "first_nil i (Some x # xs) = first_nil (Suc i) xs"

lemma first_nil_None [simp]: "first_nil i xs = None \<longleftrightarrow> None \<notin> set xs"
  by (induction i xs rule: first_nil.induct) auto

section \<open>Nodes and their scripts\<close>

datatype node =
    Multisig "pubKey option list"
  | CSV u32 "node option"
  | Condition "byte list" "node option"

fun checksig_ops :: "arkLib \<Rightarrow> pubKey list \<Rightarrow> scriptOp list" where
  "checksig_ops lib [] = []"
| "checksig_ops lib [key] = [AddData (al_xOnly lib key), AddOp OP_CHECKSIG]"
| "checksig_ops lib (key # keys) = AddData (al_xOnly lib key) # AddOp OP_CHECKSIGVERIFY # checksig_ops lib keys"

definition scriptChecksig :: "arkLib \<Rightarrow> pubKey list \<Rightarrow> ark_error + byte list" where
  "scriptChecksig lib keys = arkR (al_script lib (checksig_ops lib keys))"

definition validateCSVLock :: "u32 \<Rightarrow> ark_error option" where
  "validateCSVLock lock = (if lock = 0 \<or> lock > SequenceLockTimeMask then Some (ArkError ''csv: lock must be a canonical block delay'') else None)"

definition validateConditionPredicate :: "arkLib \<Rightarrow> byte list \<Rightarrow> ark_error option" where
  "validateConditionPredicate lib predicate =
     (case snd (al_tokenize lib predicate) of
        Some e \<Rightarrow> Some (ArkLibError e)
      | None \<Rightarrow> if al_hasOpSuccess lib predicate then Some (ArkError ''condition: predicate contains OP_SUCCESS opcode'') else None)"

fun Script :: "arkLib \<Rightarrow> node \<Rightarrow> ark_error + byte list" where
  "Script lib (Multisig keys) =
     (if length keys = 0 then Inl (ArkError ''multisig: no keys provided'')
      else case first_nil 0 keys of
        Some i \<Rightarrow> Inl (AtIndex ''multisig: key is nil'' i)
      | None \<Rightarrow> scriptChecksig lib (map the keys))"
| "Script lib (CSV lock inner) =
     (case inner of
        None \<Rightarrow> Inl (ArkError ''csv: inner node is nil'')
      | Some n \<Rightarrow>
          (case validateCSVLock lock of
             Some e \<Rightarrow> Inl e
           | None \<Rightarrow>
               bindR (Script lib n) (\<lambda>innerScript.
                 arkR (al_script lib [AddOps innerScript, AddInt64 (uint lock),
                                      AddOp OP_CHECKSEQUENCEVERIFY, AddOp OP_DROP]))))"
| "Script lib (Condition predicate inner) =
     (case inner of
        None \<Rightarrow> Inl (ArkError ''condition: inner node is nil'')
      | Some n \<Rightarrow>
          if length predicate = 0 then Inl (ArkError ''condition: predicate script is empty'')
          else (case validateConditionPredicate lib predicate of
              Some e \<Rightarrow> Inl e
            | None \<Rightarrow>
                bindR (Script lib n) (\<lambda>innerScript.
                  arkR (al_script lib [AddOps predicate, AddOps innerScript]))))"

definition Hash160Condition :: "arkLib \<Rightarrow> byte list \<Rightarrow> ark_error + byte list" where
  "Hash160Condition lib h =
     (if length h \<noteq> 20 then Inl (ArkError ''condition requires a hash of fixed length'')
      else arkR (al_script lib [AddOp OP_HASH160, AddData h, AddOp OP_EQUALVERIFY]))"

definition AbsoluteLockTimeCondition :: "arkLib \<Rightarrow> u32 \<Rightarrow> ark_error + byte list" where
  "AbsoluteLockTimeCondition lib lock =
     arkR (al_script lib [AddInt64 (uint lock), AddOp OP_CHECKLOCKTIMEVERIFY, AddOp OP_DROP])"

definition sha256Condition :: "arkLib \<Rightarrow> byte list \<Rightarrow> ark_error + byte list" where
  "sha256Condition lib h =
     (if length h \<noteq> 32 then Inl (ArkError ''condition requires a hash of fixed length'')
      else arkR (al_script lib [AddOp OP_SIZE, AddInt64 32, AddOp OP_EQUALVERIFY,
                                AddOp OP_SHA256, AddData h, AddOp OP_EQUALVERIFY]))"

section \<open>Timelocks of a node\<close>

definition cltvScriptNumLen :: nat where
  "cltvScriptNumLen = 5"

definition parseScriptNumToken :: "arkLib \<Rightarrow> token \<Rightarrow> int option" where
  "parseScriptNumToken lib t =
     (let opcode = tk_opcode t in
      if opcode = OP_0 then Some 0
      else if opcode \<ge> OP_1 \<and> opcode \<le> OP_16 then Some (uint (opcode - (OP_1 - 1)))
      else if opcode = OP_1NEGATE then Some (- 1)
      else if length (tk_data t) = 0 then None
      else (case al_makeScriptNum lib (tk_data t) cltvScriptNumLen of Inl _ \<Rightarrow> None | Inr n \<Rightarrow> Some n))"

definition parseAbsoluteLockTimePredicate :: "arkLib \<Rightarrow> byte list \<Rightarrow> u32 option" where
  "parseAbsoluteLockTimePredicate lib script =
     (case al_tokenize lib script of
        (t1 # t2 # t3 # rest, err) \<Rightarrow>
          (case parseScriptNumToken lib t1 of
             None \<Rightarrow> None
           | Some lock \<Rightarrow>
               if tk_opcode t2 \<noteq> OP_CHECKLOCKTIMEVERIFY then None
               else if tk_opcode t3 \<noteq> OP_DROP then None
               else if rest \<noteq> [] \<or> err \<noteq> None then None
               else if lock < 0 \<or> lock > 0xffffffff then None
               else Some (word_of_int lock))
      | _ \<Rightarrow> None)"

fun ExtractAbsoluteLockTime :: "arkLib \<Rightarrow> node \<Rightarrow> u32" where
  "ExtractAbsoluteLockTime lib (Multisig keys) = 0"
| "ExtractAbsoluteLockTime lib (CSV lock inner) =
     (case inner of None \<Rightarrow> 0 | Some n \<Rightarrow> ExtractAbsoluteLockTime lib n)"
| "ExtractAbsoluteLockTime lib (Condition predicate inner) =
     (case parseAbsoluteLockTimePredicate lib predicate of
        Some lock \<Rightarrow> lock
      | None \<Rightarrow> (case inner of None \<Rightarrow> 0 | Some n \<Rightarrow> ExtractAbsoluteLockTime lib n))"

fun extractCSVDelay :: "node \<Rightarrow> u32" where
  "extractCSVDelay (Multisig keys) = 0"
| "extractCSVDelay (CSV lock inner) = lock"
| "extractCSVDelay (Condition predicate inner) = (case inner of None \<Rightarrow> 0 | Some n \<Rightarrow> extractCSVDelay n)"

definition DeriveSequence :: "arkLib \<Rightarrow> node \<Rightarrow> u32" where
  "DeriveSequence lib node =
     (let csvLock = extractCSVDelay node in
      if csvLock > 0 then csvLock
      else if ExtractAbsoluteLockTime lib node > 0 then MaxTxInSequence - 1
      else MaxTxInSequence)"

definition DeriveLockTime :: "arkLib \<Rightarrow> node \<Rightarrow> u32" where
  "DeriveLockTime lib node = ExtractAbsoluteLockTime lib node"

section \<open>Keys of a node\<close>

definition multisigContainsKey :: "arkLib \<Rightarrow> pubKey option list \<Rightarrow> byte list \<Rightarrow> bool" where
  "multisigContainsKey lib keys target \<longleftrightarrow>
     list_ex (\<lambda>k. case k of None \<Rightarrow> False | Some k \<Rightarrow> al_xOnly lib k = target) keys"

fun containsKeyBytes :: "arkLib \<Rightarrow> node \<Rightarrow> byte list \<Rightarrow> bool" where
  "containsKeyBytes lib (Multisig keys) target \<longleftrightarrow>
     list_ex (\<lambda>k. case k of None \<Rightarrow> False | Some k \<Rightarrow> al_xOnly lib k = target) keys"
| "containsKeyBytes lib (CSV lock inner) target \<longleftrightarrow>
     (case inner of None \<Rightarrow> False | Some n \<Rightarrow> containsKeyBytes lib n target)"
| "containsKeyBytes lib (Condition predicate inner) target \<longleftrightarrow>
     (case inner of None \<Rightarrow> False | Some n \<Rightarrow> containsKeyBytes lib n target)"

definition ContainsKey :: "arkLib \<Rightarrow> node option \<Rightarrow> pubKey option \<Rightarrow> bool" where
  "ContainsKey lib node key \<longleftrightarrow>
     (case (node, key) of (Some n, Some k) \<Rightarrow> containsKeyBytes lib n (al_xOnly lib k) | _ \<Rightarrow> False)"

fun SigningKeys :: "node \<Rightarrow> ark_error + pubKey list" where
  "SigningKeys (Multisig keys) =
     (case first_nil 0 keys of Some i \<Rightarrow> Inl (AtIndex ''multisig: key is nil'' i) | None \<Rightarrow> Inr (map the keys))"
| "SigningKeys (CSV lock inner) = (case inner of None \<Rightarrow> Inl (ArkError ''csv: inner node is nil'') | Some n \<Rightarrow> SigningKeys n)"
| "SigningKeys (Condition predicate inner) =
     (case inner of None \<Rightarrow> Inl (ArkError ''condition: inner node is nil'') | Some n \<Rightarrow> SigningKeys n)"

definition sameXOnlyKey :: "arkLib \<Rightarrow> pubKey option \<Rightarrow> pubKey option \<Rightarrow> bool" where
  "sameXOnlyKey lib a b \<longleftrightarrow>
     (case (a, b) of (Some a, Some b) \<Rightarrow> al_xOnly lib a = al_xOnly lib b | _ \<Rightarrow> False)"

section \<open>Validation of a policy\<close>

fun walkRejectOperatorUnilateral :: "arkLib \<Rightarrow> node \<Rightarrow> byte list \<Rightarrow> bool" where
  "walkRejectOperatorUnilateral lib (Multisig keys) target \<longleftrightarrow>
     multisigContainsKey lib keys target \<and>
     \<not> list_ex (\<lambda>k. case k of None \<Rightarrow> False | Some k \<Rightarrow> al_xOnly lib k \<noteq> target) keys"
| "walkRejectOperatorUnilateral lib (CSV lock inner) target \<longleftrightarrow>
     (case inner of None \<Rightarrow> False | Some n \<Rightarrow> walkRejectOperatorUnilateral lib n target)"
| "walkRejectOperatorUnilateral lib (Condition predicate inner) target \<longleftrightarrow>
     (case inner of None \<Rightarrow> False | Some n \<Rightarrow> walkRejectOperatorUnilateral lib n target)"

definition rejectOperatorUnilateral :: "arkLib \<Rightarrow> node \<Rightarrow> pubKey \<Rightarrow> bool" where
  "rejectOperatorUnilateral lib node operatorKey =
     walkRejectOperatorUnilateral lib node (al_xOnly lib operatorKey)"

record policyValidationOpts =
  po_operatorKey :: "pubKey option"
  po_minExitDelay :: u32

fun check_leaves :: "arkLib \<Rightarrow> pubKey \<Rightarrow> nat \<Rightarrow> node option list \<Rightarrow> ark_error option" where
  "check_leaves lib operatorKey i [] = None"
| "check_leaves lib operatorKey i (leaf # leaves) =
     (case leaf of
        None \<Rightarrow> Some (AtIndex ''leaf is nil'' i)
      | Some n \<Rightarrow>
          (case Script lib n of
             Inl e \<Rightarrow> Some (InLeaf ''leaf is invalid'' i e)
           | Inr _ \<Rightarrow>
               if rejectOperatorUnilateral lib n operatorKey then Some (AtIndex ''leaf permits operator unilateral spend'' i)
               else check_leaves lib operatorKey (Suc i) leaves))"

text \<open>The loop over the exit leaves; the accumulator is nil until the first lock is found.\<close>

fun smallest_lock :: "nat \<Rightarrow> node list \<Rightarrow> u32 option \<Rightarrow> ark_error + u32 option" where
  "smallest_lock i [] smallest = Inr smallest"
| "smallest_lock i (n # ns) smallest =
     (let csvLock = extractCSVDelay n in
      if csvLock = 0 then Inl (AtIndex ''non-operator leaf is not CSV-gated'' i)
      else smallest_lock (Suc i) ns
        (case smallest of None \<Rightarrow> Some csvLock | Some s \<Rightarrow> if csvLock < s then Some csvLock else Some s))"

definition ValidatePolicy :: "arkLib \<Rightarrow> node option list \<Rightarrow> policyValidationOpts \<Rightarrow> ark_error option" where
  "ValidatePolicy lib nodes opts =
     (case po_operatorKey opts of
        None \<Rightarrow> Some (ArkError ''operator key must be provided'')
      | Some operatorKey \<Rightarrow>
          thenErr (check_leaves lib operatorKey 0 nodes)
            (let exitNodes = filter (\<lambda>n. \<not> ContainsKey lib n (Some operatorKey)) nodes in
             if \<not> list_ex (\<lambda>n. ContainsKey lib n (Some operatorKey)) nodes then Some (ArkError ''MISSING_COLLAB'')
             else if exitNodes = [] then Some (ArkError ''MISSING_EXIT'')
             else case smallest_lock 0 (map the exitNodes) None of
               Inl e \<Rightarrow> Some e
             | Inr smallest \<Rightarrow>
                 let s = (case smallest of None \<Rightarrow> 0 | Some s \<Rightarrow> s) in
                 if po_minExitDelay opts > 0 \<and> s < po_minExitDelay opts
                 then Some (ArkError ''exit delay is below minimum'')
                 else None))"

definition ValidateStandardVTXOPolicy :: "arkLib \<Rightarrow> node option list \<Rightarrow> pubKey option \<Rightarrow> u32 \<Rightarrow> ark_error option" where
  "ValidateStandardVTXOPolicy lib nodes operatorKey minExitDelay =
     (if minExitDelay = 0 then Some (ArkError ''MinExitDelay must be non-zero'')
      else ValidatePolicy lib nodes \<lparr>po_operatorKey = operatorKey, po_minExitDelay = minExitDelay\<rparr>)"

section \<open>Templates\<close>

record leafTemplate =
  lt_node :: "node option"

record policyTemplate =
  pt_leaves :: "leafTemplate list"

definition LeafTemplate_Script :: "arkLib \<Rightarrow> leafTemplate \<Rightarrow> ark_error + byte list" where
  "LeafTemplate_Script lib l = (case lt_node l of None \<Rightarrow> Inl (ArkError ''leaf template node must be provided'') | Some n \<Rightarrow> Script lib n)"

fun compile_scripts :: "arkLib \<Rightarrow> nat \<Rightarrow> leafTemplate list \<Rightarrow> ark_error + byte list list" where
  "compile_scripts lib i [] = Inr []"
| "compile_scripts lib i (l # ls) =
     bindR (wrapR (InLeaf ''compile policy leaf'' i) (LeafTemplate_Script lib l)) (\<lambda>script.
       bindR (compile_scripts lib (Suc i) ls) (\<lambda>scripts. Inr (script # scripts)))"

definition ValidateArkPolicy :: "arkLib \<Rightarrow> policyTemplate option \<Rightarrow> policyValidationOpts \<Rightarrow> ark_error option" where
  "ValidateArkPolicy lib p opts =
     (case p of
        None \<Rightarrow> Some (ArkError ''policy template must be provided'')
      | Some p \<Rightarrow>
          if length (pt_leaves p) = 0 then Some (ArkError ''policy template must contain leaves'')
          else (case compile_scripts lib 0 (pt_leaves p) of
              Inl e \<Rightarrow> Some e
            | Inr _ \<Rightarrow> ValidatePolicy lib (map lt_node (pt_leaves p)) opts))"

end
