(* ===== verification/Ark_Codec.thy ===== *)
theory Ark_Codec
  imports Ark_Script
begin

text \<open>
  The binary encodings of \<open>lib/arkscript\<close>: nodes, leaf templates and policy templates
  (\<open>policy_template.go\<close>), spend paths (\<open>spend_path.go\<close>) and condition witnesses
  (\<open>psbt.go\<close>). A reader is the list of the bytes left in it. The compact-size
  primitives of btcd's \<open>wire\<close> package are library functions; \<open>wire_laws\<close> and \<open>key_laws\<close>
  are what the encodings rely on.
\<close>

section \<open>Limits\<close>

definition leafTemplateVersion :: byte where "leafTemplateVersion = 1"
definition policyTemplateVersion :: byte where "policyTemplateVersion = 1"
definition MaxPolicyTemplateBytes :: nat where "MaxPolicyTemplateBytes = 64 * 1024"
definition MaxLeafTemplateBytes :: nat where "MaxLeafTemplateBytes = 16 * 1024"
definition MaxPolicyLeaves :: nat where "MaxPolicyLeaves = 32"
definition MaxPolicyDepth :: nat where "MaxPolicyDepth = 16"
definition MaxPolicyNodes :: nat where "MaxPolicyNodes = 256"
definition MaxMultisigKeys :: nat where "MaxMultisigKeys = 64"
definition PubKeyBytesLen :: nat where "PubKeyBytesLen = 32"

definition nodeKindMultisig :: byte where "nodeKindMultisig = 1"
definition nodeKindCSV :: byte where "nodeKindCSV = 2"
definition nodeKindCondition :: byte where "nodeKindCondition = 3"

section \<open>The decode budget\<close>

record decodeBudget =
  db_maxDepth :: nat
  db_maxNodes :: nat
  db_depth :: nat
  db_nodes :: nat

definition defaultDecodeBudget :: decodeBudget where
  "defaultDecodeBudget = \<lparr>db_maxDepth = MaxPolicyDepth, db_maxNodes = MaxPolicyNodes, db_depth = 0, db_nodes = 0\<rparr>"

definition budget_enter :: "decodeBudget \<Rightarrow> ark_error + decodeBudget" where
  "budget_enter b =
     (let b' = b\<lparr>db_depth := db_depth b + 1, db_nodes := db_nodes b + 1\<rparr> in
      if db_depth b' > db_maxDepth b' then Inl (ArkError ''policy decode depth exceeds maximum'')
      else if db_nodes b' > db_maxNodes b' then Inl (ArkError ''policy decode node count exceeds maximum'')
      else Inr b')"

definition budget_exit :: "decodeBudget \<Rightarrow> decodeBudget" where
  "budget_exit b = b\<lparr>db_depth := db_depth b - 1\<rparr>"

section \<open>Primitives\<close>

definition writeVarBytes :: "arkLib \<Rightarrow> byte list \<Rightarrow> byte list" where
  "writeVarBytes lib value = al_writeVarInt lib (of_nat (length value)) @ value"

definition readVarBytes :: "arkLib \<Rightarrow> byte list \<Rightarrow> ark_error + byte list \<times> byte list" where
  "readVarBytes lib r = arkR (al_readVarBytes lib r MaxPolicyTemplateBytes)"

section \<open>Nodes\<close>

fun encode_keys :: "arkLib \<Rightarrow> nat \<Rightarrow> pubKey option list \<Rightarrow> ark_error + byte list" where
  "encode_keys lib i [] = Inr []"
| "encode_keys lib i (k # ks) =
     (case k of
        None \<Rightarrow> Inl (AtIndex ''multisig key is nil'' i)
      | Some key \<Rightarrow> bindR (encode_keys lib (Suc i) ks) (\<lambda>rest. Inr (al_xOnly lib key @ rest)))"

fun EncodeNode :: "arkLib \<Rightarrow> node \<Rightarrow> ark_error + byte list" where
  "EncodeNode lib (Multisig keys) =
     bindR (encode_keys lib 0 keys) (\<lambda>keyBytes.
       Inr (nodeKindMultisig # al_writeVarInt lib (of_nat (length keys)) @ keyBytes))"
| "EncodeNode lib (CSV lock inner) =
     (case inner of
        None \<Rightarrow> Inl (ArkError ''child node must be provided'')
      | Some n \<Rightarrow>
          bindR (EncodeNode lib n) (\<lambda>childBytes.
            Inr (nodeKindCSV # al_writeVarInt lib (ucast lock) @ writeVarBytes lib childBytes)))"
| "EncodeNode lib (Condition predicate inner) =
     (case inner of
        None \<Rightarrow> Inl (ArkError ''condition inner node must be provided'')
      | Some n \<Rightarrow>
          bindR (EncodeNode lib n) (\<lambda>childBytes.
            Inr (nodeKindCondition # writeVarBytes lib predicate @ writeVarBytes lib childBytes)))"

fun decode_keys :: "arkLib \<Rightarrow> nat \<Rightarrow> byte list \<Rightarrow> ark_error + pubKey option list \<times> byte list" where
  "decode_keys lib 0 r = Inr ([], r)"
| "decode_keys lib (Suc n) r =
     (if length r < PubKeyBytesLen then Inl (ArkError ''unexpected EOF'')
      else bindR (arkR (al_parseXOnly lib (take PubKeyBytesLen r))) (\<lambda>key.
        bindR (decode_keys lib n (drop PubKeyBytesLen r)) (\<lambda>(keys, r'). Inr (Some key # keys, r'))))"

text \<open>
  Decoding recurses into the child while the depth charged to the budget stays below its maximum,
  which bounds the recursion whatever the bytes are.
\<close>

function (sequential)
  decodeNodeWithBudget :: "arkLib \<Rightarrow> byte list \<Rightarrow> decodeBudget \<Rightarrow> ark_error + node \<times> decodeBudget"
and decodeNodePayload :: "arkLib \<Rightarrow> byte list \<Rightarrow> byte \<Rightarrow> decodeBudget \<Rightarrow> ark_error + node \<times> byte list \<times> decodeBudget"
and decodeLockedNode :: "arkLib \<Rightarrow> byte list \<Rightarrow> decodeBudget \<Rightarrow> ark_error + node \<times> byte list \<times> decodeBudget"
where
  "decodeNodeWithBudget lib raw budget =
     (case raw of
        [] \<Rightarrow> Inl (ArkError ''node encoding is empty'')
      | kind # r \<Rightarrow>
          (case budget_enter budget of
             Inl e \<Rightarrow> Inl e
           | Inr b \<Rightarrow>
               bindR (decodeNodePayload lib r kind b) (\<lambda>(node, r', b').
                 if r' \<noteq> [] then Inl (ArkError ''unexpected trailing bytes in node'')
                 else Inr (node, budget_exit b'))))"
| "decodeNodePayload lib r kind budget =
     (if kind = nodeKindMultisig then
        bindR (arkR (al_readVarInt lib r)) (\<lambda>(keyCount, r1).
          if keyCount = 0 then Inl (ArkError ''multisig must contain keys'')
          else if unat keyCount > MaxMultisigKeys then Inl (ArkError ''multisig key count exceeds maximum'')
          else bindR (decode_keys lib (unat keyCount) r1) (\<lambda>(keys, r2). Inr (Multisig keys, r2, budget)))
      else if kind = nodeKindCSV then decodeLockedNode lib r budget
      else if kind = nodeKindCondition then
        bindR (readVarBytes lib r) (\<lambda>(predicate, r1).
          if length predicate = 0 then Inl (ArkError ''condition predicate must not be empty'')
          else bindR (readVarBytes lib r1) (\<lambda>(childBytes, r2).
            bindR (decodeNodeWithBudget lib childBytes budget) (\<lambda>(child, b).
              Inr (Condition predicate (Some child), r2, b))))
      else Inl (ArkError ''unknown node kind''))"
| "decodeLockedNode lib r budget =
     bindR (arkR (al_readVarInt lib r)) (\<lambda>(lock, r1).
       if unat lock > 0xffffffff then Inl (ArkError ''csv lock value exceeds uint32 max'')
       else bindR (readVarBytes lib r1) (\<lambda>(childBytes, r2).
         bindR (decodeNodeWithBudget lib childBytes budget) (\<lambda>(child, b).
           Inr (CSV (ucast lock) (Some child), r2, b))))"
  by pat_completeness auto

termination
  by (relation "measure (\<lambda>x. case x of
        Inl (lib, raw, b) \<Rightarrow> 3 * (db_maxDepth b - db_depth b)
      | Inr (Inl (lib, r, kind, b)) \<Rightarrow> 3 * (db_maxDepth b - db_depth b) + 2
      | Inr (Inr (lib, r, b)) \<Rightarrow> 3 * (db_maxDepth b - db_depth b) + 1)")
    (auto simp: budget_enter_def Let_def split: if_splits)

declare decodeNodeWithBudget.simps [simp del] decodeNodePayload.simps [simp del] decodeLockedNode.simps [simp del]

definition DecodeNode :: "arkLib \<Rightarrow> byte list \<Rightarrow> ark_error + node" where
  "DecodeNode lib raw = bindR (decodeNodeWithBudget lib raw defaultDecodeBudget) (\<lambda>(n, b). Inr n)"

section \<open>Leaf and policy templates\<close>

definition LeafTemplate_Encode :: "arkLib \<Rightarrow> leafTemplate \<Rightarrow> ark_error + byte list" where
  "LeafTemplate_Encode lib l =
     (case lt_node l of
        None \<Rightarrow> Inl (ArkError ''node must be provided'')
      | Some n \<Rightarrow>
          bindR (EncodeNode lib n) (\<lambda>nodeBytes. Inr (leafTemplateVersion # writeVarBytes lib nodeBytes)))"

definition decodeLeafTemplateWithBudget :: "arkLib \<Rightarrow> byte list \<Rightarrow> decodeBudget
    \<Rightarrow> ark_error + leafTemplate \<times> decodeBudget" where
  "decodeLeafTemplateWithBudget lib raw budget =
     (case raw of
        [] \<Rightarrow> Inl (ArkError ''leaf template encoding is empty'')
      | version # r \<Rightarrow>
          if version \<noteq> leafTemplateVersion then Inl (ArkError ''unknown leaf template version'')
          else bindR (readVarBytes lib r) (\<lambda>(nodeBytes, r1).
            bindR (decodeNodeWithBudget lib nodeBytes budget) (\<lambda>(node, b).
              if r1 \<noteq> [] then Inl (ArkError ''unexpected trailing bytes in leaf template'')
              else Inr (\<lparr>lt_node = Some node\<rparr>, b))))"

definition DecodeLeafTemplate :: "arkLib \<Rightarrow> byte list \<Rightarrow> ark_error + leafTemplate" where
  "DecodeLeafTemplate lib raw =
     (if length raw > MaxLeafTemplateBytes then Inl (ArkError ''leaf template size exceeds maximum'')
      else bindR (decodeLeafTemplateWithBudget lib raw defaultDecodeBudget) (\<lambda>(l, b). Inr l))"

fun encode_leaves :: "arkLib \<Rightarrow> nat \<Rightarrow> leafTemplate list \<Rightarrow> ark_error + byte list" where
  "encode_leaves lib i [] = Inr []"
| "encode_leaves lib i (l # ls) =
     bindR (wrapR (InLeaf ''encode leaf'' i) (LeafTemplate_Encode lib l)) (\<lambda>leafBytes.
       bindR (encode_leaves lib (Suc i) ls) (\<lambda>rest. Inr (writeVarBytes lib leafBytes @ rest)))"

definition PolicyTemplate_Encode :: "arkLib \<Rightarrow> policyTemplate option \<Rightarrow> ark_error + byte list" where
  "PolicyTemplate_Encode lib p =
     (case p of
        None \<Rightarrow> Inl (ArkError ''policy template must be provided'')
      | Some p \<Rightarrow>
          if length (pt_leaves p) = 0 then Inl (ArkError ''policy template must contain leaves'')
          else bindR (encode_leaves lib 0 (pt_leaves p)) (\<lambda>leafBytes.
            Inr (policyTemplateVersion # al_writeVarInt lib (of_nat (length (pt_leaves p))) @ leafBytes)))"

fun decode_leaves :: "arkLib \<Rightarrow> nat \<Rightarrow> nat \<Rightarrow> byte list \<Rightarrow> decodeBudget
    \<Rightarrow> ark_error + leafTemplate list \<times> byte list \<times> decodeBudget" where
  "decode_leaves lib i 0 r budget = Inr ([], r, budget)"
| "decode_leaves lib i (Suc n) r budget =
     bindR (readVarBytes lib r) (\<lambda>(leafBytes, r1).
       if length leafBytes > MaxLeafTemplateBytes then Inl (AtIndex ''leaf size exceeds maximum'' i)
       else bindR (wrapR (InLeaf ''decode leaf'' i) (decodeLeafTemplateWithBudget lib leafBytes budget)) (\<lambda>(leaf, b).
         bindR (decode_leaves lib (Suc i) n r1 b) (\<lambda>(leaves, r2, b2). Inr (leaf # leaves, r2, b2))))"

definition DecodePolicyTemplate :: "arkLib \<Rightarrow> byte list \<Rightarrow> ark_error + policyTemplate" where
  "DecodePolicyTemplate lib raw =
     (if length raw > MaxPolicyTemplateBytes then Inl (ArkError ''policy template size exceeds maximum'')
      else case raw of
        [] \<Rightarrow> Inl (ArkError ''policy template encoding is empty'')
      | version # r \<Rightarrow>
          if version \<noteq> policyTemplateVersion then Inl (ArkError ''unknown policy template version'')
          else bindR (arkR (al_readVarInt lib r)) (\<lambda>(leafCount, r1).
            if leafCount = 0 then Inl (ArkError ''policy template must contain leaves'')
            else if unat leafCount > MaxPolicyLeaves then Inl (ArkError ''policy template leaf count exceeds maximum'')
            else bindR (decode_leaves lib 0 (unat leafCount) r1 defaultDecodeBudget) (\<lambda>(leaves, r2, b).
              if r2 \<noteq> [] then Inl (ArkError ''unexpected trailing bytes in policy template'')
              else Inr \<lparr>pt_leaves = leaves\<rparr>)))"

section \<open>Spend paths\<close>

record spendInfo =
  si_witnessScript :: "byte list"
  si_controlBlock :: "byte list"

record spendPath =
  sp_spendInfo :: "spendInfo option"
  sp_requiredSequence :: u32
  sp_requiredLockTime :: u32
  sp_conditions :: "byte list list"

definition spendPathVersion :: byte where "spendPathVersion = 1"
definition maxConditions :: nat where "maxConditions = 64"

definition SpendPath_Validate :: "spendPath option \<Rightarrow> ark_error option" where
  "SpendPath_Validate s =
     (case s of
        None \<Rightarrow> Some (ArkError ''spend path must be provided'')
      | Some s \<Rightarrow>
          (case sp_spendInfo s of
             None \<Rightarrow> Some (ArkError ''spend info must be provided'')
           | Some i \<Rightarrow>
               if length (si_witnessScript i) = 0 then Some (ArkError ''witness script must be provided'')
               else if length (si_controlBlock i) = 0 then Some (ArkError ''control block must be provided'')
               else None))"

definition SpendPath_Encode :: "arkLib \<Rightarrow> spendPath option \<Rightarrow> ark_error + byte list" where
  "SpendPath_Encode lib s =
     (case SpendPath_Validate s of
        Some e \<Rightarrow> Inl e
      | None \<Rightarrow>
          let p = the s; i = the (sp_spendInfo p) in
          Inr (spendPathVersion # al_writeVarInt lib (of_nat (length (sp_conditions p)))
                 @ concat (map (writeVarBytes lib) (sp_conditions p))
                 @ writeVarBytes lib (si_witnessScript i)
                 @ writeVarBytes lib (si_controlBlock i)
                 @ al_writeVarInt lib (ucast (sp_requiredSequence p))
                 @ al_writeVarInt lib (ucast (sp_requiredLockTime p))))"

fun read_items :: "arkLib \<Rightarrow> nat \<Rightarrow> nat \<Rightarrow> byte list \<Rightarrow> ark_error + byte list list \<times> byte list" where
  "read_items lib maxLen 0 r = Inr ([], r)"
| "read_items lib maxLen (Suc n) r =
     bindR (arkR (al_readVarBytes lib r maxLen)) (\<lambda>(item, r1).
       bindR (read_items lib maxLen n r1) (\<lambda>(items, r2). Inr (item # items, r2)))"

definition DecodeSpendPath :: "arkLib \<Rightarrow> byte list \<Rightarrow> ark_error + spendPath" where
  "DecodeSpendPath lib raw =
     (case raw of
        [] \<Rightarrow> Inl (ArkError ''spend path encoding is empty'')
      | version # r \<Rightarrow>
          if version \<noteq> spendPathVersion then Inl (ArkError ''unknown spend path version'')
          else bindR (arkR (al_readVarInt lib r)) (\<lambda>(conditionCount, r1).
            if unat conditionCount > maxConditions then Inl (ArkError ''condition count exceeds maximum'')
            else bindR (read_items lib MaxPolicyTemplateBytes (unat conditionCount) r1) (\<lambda>(conditions, r2).
            bindR (readVarBytes lib r2) (\<lambda>(witnessScript, r3).
            bindR (readVarBytes lib r3) (\<lambda>(controlBlock, r4).
            bindR (arkR (al_readVarInt lib r4)) (\<lambda>(requiredSequence, r5).
              if unat requiredSequence > 0xffffffff then Inl (ArkError ''required sequence exceeds uint32 max'')
              else bindR (arkR (al_readVarInt lib r5)) (\<lambda>(requiredLockTime, r6).
                if unat requiredLockTime > 0xffffffff then Inl (ArkError ''required locktime exceeds uint32 max'')
                else if r6 \<noteq> [] then Inl (ArkError ''unexpected trailing bytes in spend path'')
                else
                  let path = \<lparr>sp_spendInfo = Some \<lparr>si_witnessScript = witnessScript, si_controlBlock = controlBlock\<rparr>,
                              sp_requiredSequence = ucast requiredSequence, sp_requiredLockTime = ucast requiredLockTime,
                              sp_conditions = conditions\<rparr> in
                  case SpendPath_Validate (Some path) of
                    Some e \<Rightarrow> Inl e
                  | None \<Rightarrow> Inr path)))))))"

definition SpendPath_Witness :: "spendPath option \<Rightarrow> byte list list \<Rightarrow> ark_error + byte list list" where
  "SpendPath_Witness s sigItems =
     (case SpendPath_Validate s of
        Some e \<Rightarrow> Inl e
      | None \<Rightarrow>
          let p = the s; i = the (sp_spendInfo p) in
          Inr (sigItems @ sp_conditions p @ [si_witnessScript i, si_controlBlock i]))"

section \<open>Condition witnesses\<close>

definition maxConditionWitnessItems :: nat where "maxConditionWitnessItems = 64"
definition maxConditionWitnessItemLen :: nat where "maxConditionWitnessItemLen = 520"

fun encode_items :: "arkLib \<Rightarrow> nat \<Rightarrow> byte list list \<Rightarrow> ark_error + byte list" where
  "encode_items lib i [] = Inr []"
| "encode_items lib i (item # items) =
     (if length item > maxConditionWitnessItemLen then Inl (AtIndex ''condition witness item too long'' i)
      else bindR (encode_items lib (Suc i) items) (\<lambda>rest. Inr (writeVarBytes lib item @ rest)))"

definition EncodeConditionWitness :: "arkLib \<Rightarrow> byte list list \<Rightarrow> ark_error + byte list" where
  "EncodeConditionWitness lib items =
     (if length items > maxConditionWitnessItems then Inl (ArkError ''condition witness item count exceeds maximum'')
      else bindR (encode_items lib 0 items) (\<lambda>rest.
        Inr (al_writeVarInt lib (of_nat (length items)) @ rest)))"

definition DecodeConditionWitness :: "arkLib \<Rightarrow> byte list \<Rightarrow> ark_error + byte list list" where
  "DecodeConditionWitness lib data =
     bindR (arkR (al_readVarInt lib data)) (\<lambda>(count, r).
       if unat count > maxConditionWitnessItems then Inl (ArkError ''condition witness item count exceeds maximum'')
       else bindR (read_items lib maxConditionWitnessItemLen (unat count) r) (\<lambda>(items, r1).
         if r1 \<noteq> [] then Inl (ArkError ''unexpected trailing bytes in condition witness'')
         else Inr items))"

end
