(* ===== verification/Ark_Tree.thy ===== *)
theory Ark_Tree
  imports Ark_Codec
begin

text \<open>
  The taproot tree of a policy (\<open>lib/arkscript/tree.go\<close>, \<open>compose.go\<close>): canonical leaf order,
  the Merkle tree with its inclusion proofs, control blocks and spend paths, the composition
  with an external root, and the check of \<open>spend_path.go\<close> that a spend path commits
  to an output script.
\<close>

section \<open>Leaves in canonical order\<close>

fun bytesCompare :: "byte list \<Rightarrow> byte list \<Rightarrow> int" where
  "bytesCompare [] [] = 0"
| "bytesCompare [] (y # ys) = - 1"
| "bytesCompare (x # xs) [] = 1"
| "bytesCompare (x # xs) (y # ys) = (if x < y then - 1 else if x > y then 1 else bytesCompare xs ys)"

datatype policyLeaf = PolicyLeaf (pl_leafVersion: byte) (pl_script: "byte list")

definition CompareTo :: "policyLeaf \<Rightarrow> policyLeaf \<Rightarrow> int" where
  "CompareTo l other =
     (if pl_leafVersion l \<noteq> pl_leafVersion other then
        if pl_leafVersion l < pl_leafVersion other then - 1 else 1
      else bytesCompare (pl_script l) (pl_script other))"

text \<open>The inner loop of the insertion sort, from index \<open>j\<close> downwards.\<close>

fun sink_leaf :: "nat \<Rightarrow> policyLeaf list \<Rightarrow> policyLeaf list" where
  "sink_leaf 0 leaves = leaves"
| "sink_leaf (Suc j) leaves =
     (if CompareTo (leaves ! Suc j) (leaves ! j) < 0
      then sink_leaf j (leaves[Suc j := leaves ! j, j := leaves ! Suc j])
      else leaves)"

definition sortLeaves :: "policyLeaf list \<Rightarrow> policyLeaf list" where
  "sortLeaves leaves = fold sink_leaf [1..<length leaves] leaves"

section \<open>The tree\<close>

definition tapBranchHash :: "arkLib \<Rightarrow> hash \<Rightarrow> hash \<Rightarrow> hash" where
  "tapBranchHash lib a b = (if a > b then al_tapBranch lib b a else al_tapBranch lib a b)"

text \<open>
  The recursion returns the root of the subtree and the proofs of its leaves, which the code
  appends to in place.
\<close>

function buildTreeRecursive :: "arkLib \<Rightarrow> hash list \<Rightarrow> hash \<times> hash list list" where
  "buildTreeRecursive lib hashes =
     (let n = length hashes in
      if n \<le> 1 then (hd hashes, [[]])
      else
        let mid = n div 2;
            (leftRoot, leftProofs) = buildTreeRecursive lib (take mid hashes);
            (rightRoot, rightProofs) = buildTreeRecursive lib (drop mid hashes) in
        (tapBranchHash lib leftRoot rightRoot,
         map (\<lambda>p. p @ [rightRoot]) leftProofs @ map (\<lambda>p. p @ [leftRoot]) rightProofs))"
  by pat_completeness auto

termination
  by (relation "measure (\<lambda>(lib, hashes). length hashes)") auto

declare buildTreeRecursive.simps [simp del]

record compiledPolicy =
  cp_internalKey :: pubKey
  cp_leaves :: "policyLeaf list"
  cp_rootHash :: hash
  cp_leafHashes :: "hash list"
  cp_merkleProofs :: "hash list list"

definition TapHash :: "arkLib \<Rightarrow> policyLeaf \<Rightarrow> hash" where
  "TapHash lib l = al_tapLeafHash lib (pl_leafVersion l) (pl_script l)"

definition BuildTree :: "arkLib \<Rightarrow> policyLeaf list \<Rightarrow> pubKey option \<Rightarrow> ark_error + compiledPolicy" where
  "BuildTree lib leaves internalKey =
     (if length leaves = 0 then Inl (ArkError ''cannot build tree with no leaves'')
      else case internalKey of
        None \<Rightarrow> Inl (ArkError ''internal key must be provided'')
      | Some key \<Rightarrow>
          if key \<noteq> al_numsKey lib then Inl (ArkError ''internal key must be the Ark NUMS key'')
          else
            let sorted_leaves = sortLeaves leaves;
                leafHashes = map (TapHash lib) sorted_leaves;
                (rootHash, proofs) = buildTreeRecursive lib leafHashes in
            Inr \<lparr>cp_internalKey = key, cp_leaves = sorted_leaves, cp_rootHash = rootHash,
                 cp_leafHashes = leafHashes, cp_merkleProofs = proofs\<rparr>)"

definition OutputKey :: "arkLib \<Rightarrow> compiledPolicy \<Rightarrow> pubKey" where
  "OutputKey lib p = al_outputKey lib (cp_internalKey p) (cp_rootHash p)"

definition buildControlBlock :: "arkLib \<Rightarrow> compiledPolicy \<Rightarrow> nat \<Rightarrow> ark_error + byte list" where
  "buildControlBlock lib p leafIndex =
     (let outputKeyYIsOdd = hd (al_compressed lib (OutputKey lib p)) = 0x03 in
      arkR (al_controlBlockBytes lib
        \<lparr>cb_internalKey = cp_internalKey p, cb_outputKeyYIsOdd = outputKeyYIsOdd,
         cb_leafVersion = pl_leafVersion (cp_leaves p ! leafIndex),
         cb_inclusionProof = cp_merkleProofs p ! leafIndex\<rparr>))"

definition SpendInfo :: "arkLib \<Rightarrow> compiledPolicy \<Rightarrow> int \<Rightarrow> ark_error + spendInfo" where
  "SpendInfo lib p leafIndex =
     (if leafIndex < 0 \<or> leafIndex \<ge> int (length (cp_leaves p)) then Inl (ArkError ''leaf index out of bounds'')
      else bindR (buildControlBlock lib p (nat leafIndex)) (\<lambda>controlBlock.
        Inr \<lparr>si_witnessScript = pl_script (cp_leaves p ! nat leafIndex), si_controlBlock = controlBlock\<rparr>))"

fun script_index :: "nat \<Rightarrow> policyLeaf list \<Rightarrow> byte list \<Rightarrow> int" where
  "script_index i [] script = - 1"
| "script_index i (l # ls) script = (if pl_script l = script then int i else script_index (Suc i) ls script)"

definition ScriptIndex :: "compiledPolicy \<Rightarrow> byte list \<Rightarrow> int" where
  "ScriptIndex p script = script_index 0 (cp_leaves p) script"

definition SpendInfoForNode :: "arkLib \<Rightarrow> compiledPolicy \<Rightarrow> node \<Rightarrow> ark_error + spendInfo" where
  "SpendInfoForNode lib p node =
     bindR (Script lib node) (\<lambda>script.
       let idx = ScriptIndex p script in
       if idx < 0 then Inl (ArkError ''node script not found in tree'') else SpendInfo lib p idx)"

definition cloneWitnessItems :: "byte list list \<Rightarrow> byte list list" where
  "cloneWitnessItems items = items"

definition SpendPathForNode :: "arkLib \<Rightarrow> compiledPolicy \<Rightarrow> node \<Rightarrow> byte list list \<Rightarrow> ark_error + spendPath" where
  "SpendPathForNode lib p node conditions =
     bindR (SpendInfoForNode lib p node) (\<lambda>info.
       Inr \<lparr>sp_spendInfo = Some info, sp_requiredSequence = DeriveSequence lib node,
            sp_requiredLockTime = ExtractAbsoluteLockTime lib node, sp_conditions = cloneWitnessItems conditions\<rparr>)"

section \<open>Compiling a template\<close>

definition BaseLeafVersion :: byte where "BaseLeafVersion = 0xc0"

definition Compile :: "arkLib \<Rightarrow> policyTemplate option \<Rightarrow> ark_error + compiledPolicy" where
  "Compile lib p =
     (case p of
        None \<Rightarrow> Inl (ArkError ''policy template must be provided'')
      | Some p \<Rightarrow>
          if length (pt_leaves p) = 0 then Inl (ArkError ''policy template must contain leaves'')
          else bindR (compile_scripts lib 0 (pt_leaves p)) (\<lambda>scripts.
            BuildTree lib (map (PolicyLeaf BaseLeafVersion) scripts) (Some (al_numsKey lib))))"

definition PkScript :: "arkLib \<Rightarrow> policyTemplate option \<Rightarrow> ark_error + byte list" where
  "PkScript lib p = bindR (Compile lib p) (\<lambda>compiled. arkR (al_payToTaproot lib (OutputKey lib compiled)))"

definition MatchesPkScript :: "arkLib \<Rightarrow> policyTemplate option \<Rightarrow> byte list \<Rightarrow> bool" where
  "MatchesPkScript lib p pkScript \<longleftrightarrow>
     (case PkScript lib p of Inl _ \<Rightarrow> False | Inr compiledPkScript \<Rightarrow> compiledPkScript = pkScript)"

section \<open>Binding of a spend path\<close>

definition VerifyBindsToPkScript :: "arkLib \<Rightarrow> spendPath option \<Rightarrow> byte list \<Rightarrow> ark_error option" where
  "VerifyBindsToPkScript lib s pkScript =
     (case SpendPath_Validate s of
        Some e \<Rightarrow> Some e
      | None \<Rightarrow>
          if length pkScript = 0 then Some (ArkError ''pk script must be provided'')
          else
            let i = the (sp_spendInfo (the s)) in
            case al_parseControlBlock lib (si_controlBlock i) of
              Inl e \<Rightarrow> Some (ArkLibError e)
            | Inr ctrlBlock \<Rightarrow>
                if al_xOnly lib (cb_internalKey ctrlBlock) \<noteq> al_xOnly lib (al_numsKey lib)
                then Some (ArkError ''control block internal key is not the Ark NUMS point'')
                else
                  let rootHash = al_controlBlockRoot lib ctrlBlock (si_witnessScript i);
                      outputKey = al_outputKey lib (al_numsKey lib) rootHash in
                  case al_payToTaproot lib outputKey of
                    Inl e \<Rightarrow> Some (ArkLibError e)
                  | Inr expectedPkScript \<Rightarrow>
                      if expectedPkScript \<noteq> pkScript
                      then Some (ArkError ''control block does not commit to declared pkScript'')
                      else None)"

section \<open>Composition with an external root\<close>

record composedPolicy =
  co_internalKey :: pubKey
  co_policyRoot :: hash
  co_externalRoot :: hash
  co_combinedRoot :: hash
  co_arkPolicy :: compiledPolicy

definition ComposeWithSiblingRoot :: "arkLib \<Rightarrow> compiledPolicy option \<Rightarrow> hash \<Rightarrow> ark_error + composedPolicy" where
  "ComposeWithSiblingRoot lib policy externalRoot =
     (case policy of
        None \<Rightarrow> Inl (ArkError ''compose: policy is nil'')
      | Some p \<Rightarrow>
          Inr \<lparr>co_internalKey = cp_internalKey p, co_policyRoot = cp_rootHash p, co_externalRoot = externalRoot,
               co_combinedRoot = tapBranchHash lib (cp_rootHash p) externalRoot, co_arkPolicy = p\<rparr>)"

definition ComposedOutputKey :: "arkLib \<Rightarrow> composedPolicy \<Rightarrow> pubKey" where
  "ComposedOutputKey lib c = al_outputKey lib (co_internalKey c) (co_combinedRoot c)"

end
