(* ===== verification/Ark_Policy.thy ===== *)
theory Ark_Policy
  imports Ark_Tree
begin

text \<open>
  The policies of \<open>lib/arkscript\<close>: the standard VTXO policy (\<open>standard_vtxo.go\<close>, \<open>vtxo.go\<close>) with its
  recognizer, and the six-leaf vHTLC policy (\<open>vhtlc.go\<close>) with its recognizer and its timing
  checks (\<open>vhtlc_timing.go\<close>).
\<close>

section \<open>The standard VTXO policy\<close>

record standardVTXOParams =
  sv_ownerKey :: pubKey
  sv_operatorKey :: pubKey
  sv_exitDelay :: u32

definition StandardVTXOTemplate :: "arkLib \<Rightarrow> pubKey option \<Rightarrow> pubKey option \<Rightarrow> u32 \<Rightarrow> ark_error + policyTemplate" where
  "StandardVTXOTemplate lib ownerKey operatorKey exitDelay =
     (if ownerKey = None then Inl (ArkError ''vtxo: owner key is nil'')
      else if operatorKey = None then Inl (ArkError ''vtxo: operator key is nil'')
      else if exitDelay = 0 then Inl (ArkError ''vtxo: exit delay must be non-zero'')
      else case validateCSVLock exitDelay of
        Some e \<Rightarrow> Inl e
      | None \<Rightarrow>
          let exitSeq = al_lockTimeToSequence lib exitDelay in
          Inr \<lparr>pt_leaves = [\<lparr>lt_node = Some (Multisig [ownerKey, operatorKey])\<rparr>,
                             \<lparr>lt_node = Some (CSV exitSeq (Some (Multisig [ownerKey])))\<rparr>]\<rparr>)"

definition EncodeStandardVTXOTemplate :: "arkLib \<Rightarrow> pubKey option \<Rightarrow> pubKey option \<Rightarrow> u32 \<Rightarrow> ark_error + byte list" where
  "EncodeStandardVTXOTemplate lib ownerKey operatorKey exitDelay =
     bindR (StandardVTXOTemplate lib ownerKey operatorKey exitDelay) (\<lambda>template.
       PolicyTemplate_Encode lib (Some template))"

text \<open>The loop over the leaves: the keys of the collaborative leaf and the exit leaf found so far.\<close>

fun find_standard :: "nat \<Rightarrow> leafTemplate list \<Rightarrow> pubKey option list option \<Rightarrow> (u32 \<times> node option) option
    \<Rightarrow> ark_error + pubKey option list option \<times> (u32 \<times> node option) option" where
  "find_standard i [] collab exitLeaf = Inr (collab, exitLeaf)"
| "find_standard i (l # ls) collab exitLeaf =
     (case lt_node l of
        Some (Multisig keys) \<Rightarrow>
          if collab \<noteq> None then Inl (ArkError ''multiple collab leaves found'')
          else find_standard (Suc i) ls (Some keys) exitLeaf
      | Some (CSV lock inner) \<Rightarrow>
          if exitLeaf \<noteq> None then Inl (ArkError ''multiple exit leaves found'')
          else find_standard (Suc i) ls collab (Some (lock, inner))
      | _ \<Rightarrow> Inl (AtIndex ''leaf is not standard vtxo'' i))"

fun find_operator :: "arkLib \<Rightarrow> pubKey \<Rightarrow> nat \<Rightarrow> pubKey option list \<Rightarrow> pubKey option \<Rightarrow> ark_error + pubKey option" where
  "find_operator lib ownerKey i [] operatorKey = Inr operatorKey"
| "find_operator lib ownerKey i (key # keys) operatorKey =
     (if key = None then Inl (AtIndex ''collab key is nil'' i)
      else if sameXOnlyKey lib key (Some ownerKey) then find_operator lib ownerKey (Suc i) keys operatorKey
      else if operatorKey \<noteq> None then Inl (ArkError ''collab leaf contains extra key'')
      else find_operator lib ownerKey (Suc i) keys key)"

text \<open>The checks on the two leaves once both are found.\<close>

definition standard_params :: "arkLib \<Rightarrow> pubKey option list \<Rightarrow> u32 \<Rightarrow> node option \<Rightarrow> ark_error + standardVTXOParams" where
  "standard_params lib collabKeys lock inner =
     (if length collabKeys \<noteq> 2 then Inl (ArkError ''collab leaf must contain 2 keys'')
      else case inner of
        None \<Rightarrow> Inl (ArkError ''exit leaf must contain inner multisig'')
      | Some (Multisig exitKeys) \<Rightarrow>
          if length exitKeys \<noteq> 1 then Inl (ArkError ''exit leaf must contain 1 owner key'')
          else (case hd exitKeys of
              None \<Rightarrow> Inl (ArkError ''exit leaf owner key is nil'')
            | Some ownerKey \<Rightarrow>
                bindR (find_operator lib ownerKey 0 collabKeys None) (\<lambda>operatorKey.
                  case operatorKey of
                    None \<Rightarrow> Inl (ArkError ''collab leaf missing operator key'')
                  | Some operatorKey \<Rightarrow>
                      if \<not> containsKeyBytes lib (Multisig collabKeys) (al_xOnly lib ownerKey)
                      then Inl (ArkError ''collab leaf missing owner key'')
                      else (case validateCSVLock lock of
                          Some e \<Rightarrow> Inl e
                        | None \<Rightarrow> Inr \<lparr>sv_ownerKey = ownerKey, sv_operatorKey = operatorKey, sv_exitDelay = lock\<rparr>)))
      | Some _ \<Rightarrow> Inl (ArkError ''exit leaf inner node must be multisig''))"

definition DecodeStandardVTXOParams :: "arkLib \<Rightarrow> policyTemplate option \<Rightarrow> ark_error + standardVTXOParams" where
  "DecodeStandardVTXOParams lib template =
     (case template of
        None \<Rightarrow> Inl (ArkError ''policy template must be provided'')
      | Some t \<Rightarrow>
          if length (pt_leaves t) \<noteq> 2 then Inl (ArkError ''standard vtxo policy must contain 2 leaves'')
          else bindR (find_standard 0 (pt_leaves t) None None) (\<lambda>(collab, exitLeaf).
            case (collab, exitLeaf) of
              (Some collabKeys, Some (lock, inner)) \<Rightarrow> standard_params lib collabKeys lock inner
            | _ \<Rightarrow> Inl (ArkError ''standard vtxo policy missing collab or exit'')))"

definition IsStandardVTXOTemplate :: "arkLib \<Rightarrow> policyTemplate option \<Rightarrow> bool" where
  "IsStandardVTXOTemplate lib template = okR (DecodeStandardVTXOParams lib template)"

record vtxoPolicy =
  vp_template :: policyTemplate
  vp_compiled :: compiledPolicy
  vp_collabNode :: node
  vp_exitNode :: node

definition NewVTXOPolicy :: "arkLib \<Rightarrow> pubKey option \<Rightarrow> pubKey option \<Rightarrow> u32 \<Rightarrow> ark_error + vtxoPolicy" where
  "NewVTXOPolicy lib ownerKey operatorKey exitDelay =
     bindR (StandardVTXOTemplate lib ownerKey operatorKey exitDelay) (\<lambda>template.
     bindR (Compile lib (Some template)) (\<lambda>policy.
       Inr \<lparr>vp_template = template, vp_compiled = policy,
            vp_collabNode = the (lt_node (pt_leaves template ! 0)),
            vp_exitNode = the (lt_node (pt_leaves template ! 1))\<rparr>))"

definition CollabSpendInfo :: "arkLib \<Rightarrow> vtxoPolicy \<Rightarrow> ark_error + spendInfo" where
  "CollabSpendInfo lib v = SpendInfoForNode lib (vp_compiled v) (vp_collabNode v)"

definition ExitSpendInfo :: "arkLib \<Rightarrow> vtxoPolicy \<Rightarrow> ark_error + spendInfo" where
  "ExitSpendInfo lib v = SpendInfoForNode lib (vp_compiled v) (vp_exitNode v)"

section \<open>The vHTLC policy\<close>

text \<open>The preimage hash is an array of 32 bytes.\<close>

record vhtlcOpts =
  vo_sender :: "pubKey option"
  vo_receiver :: "pubKey option"
  vo_server :: "pubKey option"
  vo_preimageHash :: "byte list"
  vo_refundLocktime :: u32
  vo_unilateralClaimDelay :: u32
  vo_unilateralRefundDelay :: u32
  vo_unilateralRefundWithoutReceiverDelay :: u32

definition vhtlc_validate :: "vhtlcOpts \<Rightarrow> ark_error option" where
  "vhtlc_validate opts =
     (if vo_sender opts = None then Some (ArkError ''vhtlc: sender key is nil'')
      else if vo_receiver opts = None then Some (ArkError ''vhtlc: receiver key is nil'')
      else if vo_server opts = None then Some (ArkError ''vhtlc: server key is nil'')
      else if vo_preimageHash opts = replicate 32 0 then Some (ArkError ''vhtlc: preimage hash must not be zero'')
      else if vo_refundLocktime opts = 0 then Some (ArkError ''vhtlc: refund locktime must be non-zero'')
      else if vo_unilateralClaimDelay opts = 0 then Some (ArkError ''vhtlc: unilateral claim delay must be non-zero'')
      else if vo_unilateralRefundDelay opts = 0 then Some (ArkError ''vhtlc: unilateral refund delay must be non-zero'')
      else if vo_unilateralRefundWithoutReceiverDelay opts = 0
      then Some (ArkError ''vhtlc: unilateral refund without receiver delay must be non-zero'')
      else firstErr validateCSVLock
        [vo_unilateralClaimDelay opts, vo_unilateralRefundDelay opts, vo_unilateralRefundWithoutReceiverDelay opts])"

record vhtlcPolicy =
  vh_template :: policyTemplate
  vh_compiled :: compiledPolicy
  vh_preimageHash :: "byte list"
  vh_claim :: node
  vh_refund :: node
  vh_refundWithoutReceiver :: node
  vh_unilateralClaim :: node
  vh_unilateralRefund :: node
  vh_unilateralRefundWithoutReceiver :: node

definition NewVHTLCPolicy :: "arkLib \<Rightarrow> vhtlcOpts \<Rightarrow> ark_error + vhtlcPolicy" where
  "NewVHTLCPolicy lib opts =
     (case vhtlc_validate opts of
        Some e \<Rightarrow> Inl e
      | None \<Rightarrow>
          bindR (sha256Condition lib (vo_preimageHash opts)) (\<lambda>claimPredicate.
          bindR (AbsoluteLockTimeCondition lib (vo_refundLocktime opts)) (\<lambda>refundPredicate.
            let claim = Condition claimPredicate (Some (Multisig [vo_receiver opts, vo_server opts]));
                refund = Multisig [vo_sender opts, vo_receiver opts, vo_server opts];
                refundWithoutReceiver = Condition refundPredicate (Some (Multisig [vo_sender opts, vo_server opts]));
                unilateralClaim = CSV (al_lockTimeToSequence lib (vo_unilateralClaimDelay opts))
                  (Some (Condition claimPredicate (Some (Multisig [vo_receiver opts]))));
                unilateralRefund = CSV (al_lockTimeToSequence lib (vo_unilateralRefundDelay opts))
                  (Some (Multisig [vo_sender opts, vo_receiver opts]));
                unilateralRefundWithoutReceiver =
                  CSV (al_lockTimeToSequence lib (vo_unilateralRefundWithoutReceiverDelay opts))
                    (Some (Condition refundPredicate (Some (Multisig [vo_sender opts]))));
                template = \<lparr>pt_leaves = map (\<lambda>n. \<lparr>lt_node = Some n\<rparr>)
                  [claim, refund, refundWithoutReceiver, unilateralClaim, unilateralRefund, unilateralRefundWithoutReceiver]\<rparr> in
            bindR (Compile lib (Some template)) (\<lambda>policy.
              Inr \<lparr>vh_template = template, vh_compiled = policy, vh_preimageHash = vo_preimageHash opts,
                   vh_claim = claim, vh_refund = refund, vh_refundWithoutReceiver = refundWithoutReceiver,
                   vh_unilateralClaim = unilateralClaim, vh_unilateralRefund = unilateralRefund,
                   vh_unilateralRefundWithoutReceiver = unilateralRefundWithoutReceiver\<rparr>))))"

section \<open>vHTLC timing\<close>

record vhtlcTiming =
  ti_refundLocktime :: u32
  ti_unilateralClaimDelay :: u32
  ti_unilateralRefundDelay :: u32
  ti_unilateralRefundWithoutReceiverDelay :: u32

record vhtlcClaimWindow =
  cw_currentHeight :: u32
  cw_exitAncestryDelay :: u32
  cw_recoveryMargin :: u32

definition Timing :: "vhtlcOpts \<Rightarrow> vhtlcTiming" where
  "Timing opts = \<lparr>ti_refundLocktime = vo_refundLocktime opts, ti_unilateralClaimDelay = vo_unilateralClaimDelay opts,
     ti_unilateralRefundDelay = vo_unilateralRefundDelay opts,
     ti_unilateralRefundWithoutReceiverDelay = vo_unilateralRefundWithoutReceiverDelay opts\<rparr>"

definition LockTimeThreshold :: u32 where "LockTimeThreshold = 500000000"

definition ValidateOrder :: "vhtlcTiming \<Rightarrow> ark_error option" where
  "ValidateOrder t =
     (if ti_unilateralClaimDelay t > ti_unilateralRefundDelay t
      then Some (ArkError ''vhtlc: unilateral claim delay exceeds unilateral refund delay'')
      else if ti_unilateralRefundDelay t > ti_unilateralRefundWithoutReceiverDelay t
      then Some (ArkError ''vhtlc: unilateral refund delay exceeds unilateral refund without receiver delay'')
      else None)"

definition ValidateRefundWindow :: "vhtlcTiming \<Rightarrow> u32 \<Rightarrow> u32 \<Rightarrow> ark_error option" where
  "ValidateRefundWindow t currentHeight maxBlocks =
     (case ValidateOrder t of
        Some e \<Rightarrow> Some e
      | None \<Rightarrow>
          if maxBlocks = 0 then Some (ArkError ''vhtlc: maximum refund window must be set'')
          else if ti_refundLocktime t \<ge> LockTimeThreshold
          then Some (ArkError ''vhtlc: refund locktime is not a block height'')
          else if ti_refundLocktime t \<le> currentHeight
          then Some (ArkError ''vhtlc: refund locktime is not after current height'')
          else if ti_refundLocktime t - currentHeight > maxBlocks
          then Some (ArkError ''vhtlc: refund window exceeds maximum'')
          else if ti_unilateralRefundWithoutReceiverDelay t > maxBlocks
          then Some (ArkError ''vhtlc: sender-only refund delay exceeds maximum'')
          else None)"

definition ValidateClaimWindow :: "vhtlcTiming \<Rightarrow> vhtlcClaimWindow \<Rightarrow> ark_error option" where
  "ValidateClaimWindow t window =
     (case ValidateOrder t of
        Some e \<Rightarrow> Some e
      | None \<Rightarrow>
          if ti_refundLocktime t \<le> cw_currentHeight window
          then Some (ArkError ''vhtlc: refund locktime is not after current height'')
          else
            let required = (ucast (cw_exitAncestryDelay window) :: u64) + ucast (ti_unilateralClaimDelay t)
                             + ucast (cw_recoveryMargin window);
                remaining = (ucast (ti_refundLocktime t - cw_currentHeight window) :: u64) in
            if remaining \<le> required
            then Some (ArkError ''vhtlc: refund window does not exceed required claim window'')
            else None)"

section \<open>Recognizing a vHTLC\<close>

record vhtlcNodeShape =
  ns_csvDelay :: u32
  ns_locktime :: u32
  ns_predicate :: "byte list"
  ns_keys :: "byte list list"

datatype vhtlcBranch =
    BranchClaim
  | BranchRefund
  | BranchRefundWithoutReceiver
  | BranchUnilateralClaim
  | BranchUnilateralRefund
  | BranchUnilateralRefundWithoutReceiver

type_synonym vhtlcShapes = "vhtlcBranch \<Rightarrow> vhtlcNodeShape option"

text \<open>The wrappers are taken off in the order a CSV gate, a condition, the multisig.\<close>

definition strip_condition :: "arkLib \<Rightarrow> u32 \<Rightarrow> node option \<Rightarrow> ark_error + vhtlcNodeShape" where
  "strip_condition lib csvDelay node =
     (let finish = (\<lambda>locktime predicate node.
        case node of
          Some (Multisig keys) \<Rightarrow>
            (case first_nil 0 keys of
               Some i \<Rightarrow> Inl (AtIndex ''multisig key is nil'' i)
             | None \<Rightarrow> Inr \<lparr>ns_csvDelay = csvDelay, ns_locktime = locktime, ns_predicate = predicate,
                            ns_keys = map (\<lambda>k. al_compressed lib (the k)) keys\<rparr>)
        | _ \<Rightarrow> Inl (ArkError ''unsupported closure shape'')) in
      case node of
        Some (Condition predicate inner) \<Rightarrow>
          finish (ExtractAbsoluteLockTime lib (Condition predicate inner)) predicate inner
      | _ \<Rightarrow> finish 0 [] node)"

definition decodeVHTLCNode :: "arkLib \<Rightarrow> node option \<Rightarrow> ark_error + vhtlcNodeShape" where
  "decodeVHTLCNode lib node =
     (case node of
        Some (CSV lock inner) \<Rightarrow>
          (case validateCSVLock lock of
             Some e \<Rightarrow> Inl e
           | None \<Rightarrow> strip_condition lib (and lock SequenceLockTimeMask) inner)
      | _ \<Rightarrow> strip_condition lib 0 node)"

definition branch_of :: "vhtlcNodeShape \<Rightarrow> vhtlcBranch option" where
  "branch_of s =
     (if ns_csvDelay s = 0 \<and> ns_locktime s = 0 \<and> length (ns_predicate s) > 0 \<and> length (ns_keys s) = 2
      then Some BranchClaim
      else if ns_csvDelay s = 0 \<and> ns_locktime s = 0 \<and> length (ns_predicate s) = 0 \<and> length (ns_keys s) = 3
      then Some BranchRefund
      else if ns_csvDelay s = 0 \<and> ns_locktime s > 0 \<and> length (ns_keys s) = 2
      then Some BranchRefundWithoutReceiver
      else if ns_csvDelay s > 0 \<and> ns_locktime s = 0 \<and> length (ns_predicate s) > 0 \<and> length (ns_keys s) = 1
      then Some BranchUnilateralClaim
      else if ns_csvDelay s > 0 \<and> ns_locktime s = 0 \<and> length (ns_predicate s) = 0 \<and> length (ns_keys s) = 2
      then Some BranchUnilateralRefund
      else if ns_csvDelay s > 0 \<and> ns_locktime s > 0 \<and> length (ns_keys s) = 1
      then Some BranchUnilateralRefundWithoutReceiver
      else None)"

definition add_shape :: "vhtlcShapes \<Rightarrow> vhtlcNodeShape \<Rightarrow> ark_error + vhtlcShapes" where
  "add_shape shapes shape =
     (case branch_of shape of
        None \<Rightarrow> Inl (ArkError ''unrecognized branch shape'')
      | Some b \<Rightarrow>
          if shapes b \<noteq> None then Inl (ArkError ''duplicate branch shape'')
          else Inr (shapes(b := Some shape)))"

fun collect_shapes :: "arkLib \<Rightarrow> nat \<Rightarrow> leafTemplate list \<Rightarrow> vhtlcShapes \<Rightarrow> ark_error + vhtlcShapes" where
  "collect_shapes lib i [] shapes = Inr shapes"
| "collect_shapes lib i (l # ls) shapes =
     bindR (wrapR (InLeaf ''vhtlc: leaf'' i) (decodeVHTLCNode lib (lt_node l))) (\<lambda>shape.
     bindR (wrapR (InLeaf ''vhtlc: leaf'' i) (add_shape shapes shape)) (\<lambda>shapes'.
       collect_shapes lib (Suc i) ls shapes'))"

definition shapes_validate :: "vhtlcShapes \<Rightarrow> ark_error option" where
  "shapes_validate s =
     (if list_ex (\<lambda>b. s b = None) [BranchClaim, BranchRefund, BranchRefundWithoutReceiver,
           BranchUnilateralClaim, BranchUnilateralRefund, BranchUnilateralRefundWithoutReceiver]
      then Some (ArkError ''vhtlc: missing branch'')
      else
        let at = (\<lambda>b. the (s b));
            sender = ns_keys (at BranchUnilateralRefundWithoutReceiver) ! 0;
            receiver = ns_keys (at BranchUnilateralClaim) ! 0;
            server = ns_keys (at BranchClaim) ! 1 in
        if ns_keys (at BranchClaim) \<noteq> [receiver, server]
        then Some (ArkError ''vhtlc: claim keys do not match'')
        else if ns_keys (at BranchRefund) \<noteq> [sender, receiver, server]
        then Some (ArkError ''vhtlc: refund keys do not match'')
        else if ns_keys (at BranchRefundWithoutReceiver) \<noteq> [sender, server]
        then Some (ArkError ''vhtlc: refund without receiver keys do not match'')
        else if ns_keys (at BranchUnilateralRefund) \<noteq> [sender, receiver]
        then Some (ArkError ''vhtlc: unilateral refund keys do not match'')
        else if ns_predicate (at BranchClaim) \<noteq> ns_predicate (at BranchUnilateralClaim)
        then Some (ArkError ''vhtlc: claim predicates do not match'')
        else if ns_predicate (at BranchRefundWithoutReceiver) \<noteq> ns_predicate (at BranchUnilateralRefundWithoutReceiver)
          \<or> ns_locktime (at BranchRefundWithoutReceiver) \<noteq> ns_locktime (at BranchUnilateralRefundWithoutReceiver)
        then Some (ArkError ''vhtlc: refund locktimes do not match'')
        else None)"

definition DecodeVHTLCTiming :: "arkLib \<Rightarrow> policyTemplate option \<Rightarrow> ark_error + vhtlcTiming" where
  "DecodeVHTLCTiming lib template =
     (case template of
        None \<Rightarrow> Inl (ArkError ''vhtlc: policy template is required'')
      | Some t \<Rightarrow>
          if length (pt_leaves t) \<noteq> 6 then Inl (ArkError ''vhtlc: expected 6 leaves'')
          else bindR (collect_shapes lib 0 (pt_leaves t) (\<lambda>_. None)) (\<lambda>shapes.
            case shapes_validate shapes of
              Some e \<Rightarrow> Inl e
            | None \<Rightarrow>
                Inr \<lparr>ti_refundLocktime = ns_locktime (the (shapes BranchRefundWithoutReceiver)),
                     ti_unilateralClaimDelay = ns_csvDelay (the (shapes BranchUnilateralClaim)),
                     ti_unilateralRefundDelay = ns_csvDelay (the (shapes BranchUnilateralRefund)),
                     ti_unilateralRefundWithoutReceiverDelay =
                       ns_csvDelay (the (shapes BranchUnilateralRefundWithoutReceiver))\<rparr>))"

end
