(* ===== verification/Ark_Codec_Facts.thy ===== *)
theory Ark_Codec_Facts
  imports Ark_Codec
begin

text \<open>
  The encodings of policies and spend paths are inverse to their decoders: what decodes is
  the encoding of what it decodes to, and what is within the decoder's limits decodes to itself with its
  keys reduced to their x-only form.
\<close>

section \<open>What the codecs rely on\<close>

text \<open>
  \<open>wire.ReadVarInt\<close> reads what \<open>wire.WriteVarInt\<close> wrote and rejects every other encoding of a number
  (it is documented to accept canonical encodings only); \<open>wire.ReadVarBytes\<close> reads a length of
  at most the given maximum and that many bytes. The sizes used here are far below \<open>2 ^ 32\<close>.
\<close>

definition wire_laws :: "arkLib \<Rightarrow> bool" where
  "wire_laws lib \<longleftrightarrow>
     (\<forall>n rest. al_readVarInt lib (al_writeVarInt lib n @ rest) = Inr (n, rest)) \<and>
     (\<forall>bs n rest. al_readVarInt lib bs = Inr (n, rest) \<longrightarrow> bs = al_writeVarInt lib n @ rest) \<and>
     (\<forall>m v rest. length v \<le> m \<longrightarrow> m < 2 ^ 32 \<longrightarrow>
        al_readVarBytes lib (al_writeVarInt lib (of_nat (length v)) @ v @ rest) m = Inr (v, rest)) \<and>
     (\<forall>m bs v rest. al_readVarBytes lib bs m = Inr (v, rest) \<longrightarrow>
        length v \<le> m \<and> bs = al_writeVarInt lib (of_nat (length v)) @ v @ rest)"

text \<open>
  An x-only key has 32 bytes, parses, and parsing keeps the bytes: \<open>schnorr.ParsePubKey\<close> returns
  the key with that x-coordinate and even y.
\<close>

definition key_laws :: "arkLib \<Rightarrow> bool" where
  "key_laws lib \<longleftrightarrow>
     (\<forall>k. length (al_xOnly lib k) = 32 \<and> (\<exists>k'. al_parseXOnly lib (al_xOnly lib k) = Inr k')) \<and>
     (\<forall>bs k. al_parseXOnly lib bs = Inr k \<longrightarrow> al_xOnly lib k = bs)"

lemma wire_lawsD:
  assumes "wire_laws lib"
  shows "al_readVarInt lib (al_writeVarInt lib n @ rest) = Inr (n, rest)"
    and "al_readVarInt lib bs = Inr (n, rest) \<Longrightarrow> bs = al_writeVarInt lib n @ rest"
    and "length v \<le> m \<Longrightarrow> m < 2 ^ 32 \<Longrightarrow>
      al_readVarBytes lib (al_writeVarInt lib (of_nat (length v)) @ v @ rest) m = Inr (v, rest)"
    and "al_readVarBytes lib bs m = Inr (v, rest) \<Longrightarrow>
      length v \<le> m \<and> bs = al_writeVarInt lib (of_nat (length v)) @ v @ rest"
proof -
  show "al_readVarInt lib (al_writeVarInt lib n @ rest) = Inr (n, rest)"
    using assms by (simp add: wire_laws_def)
  show "bs = al_writeVarInt lib n @ rest" if "al_readVarInt lib bs = Inr (n, rest)"
    using assms that by (simp only: wire_laws_def)
  show "al_readVarBytes lib (al_writeVarInt lib (of_nat (length v)) @ v @ rest) m = Inr (v, rest)"
    if "length v \<le> m" "m < 2 ^ 32"
    using assms that by (simp only: wire_laws_def)
  show "length v \<le> m \<and> bs = al_writeVarInt lib (of_nat (length v)) @ v @ rest"
    if "al_readVarBytes lib bs m = Inr (v, rest)"
    using assms that by (simp only: wire_laws_def)
qed

lemma readVarInt_write: "wire_laws lib \<Longrightarrow> al_readVarInt lib (al_writeVarInt lib n @ rest) = Inr (n, rest)"
  by (rule wire_lawsD)

lemma readVarInt_write_end: "wire_laws lib \<Longrightarrow> al_readVarInt lib (al_writeVarInt lib n) = Inr (n, [])"
  using readVarInt_write [of lib n "[]"] by simp

lemma readVarBytes_write:
  assumes "wire_laws lib" and "length v \<le> MaxPolicyTemplateBytes"
  shows "readVarBytes lib (writeVarBytes lib v @ rest) = Inr (v, rest)"
  using wire_lawsD(3) [OF assms] by (simp add: readVarBytes_def writeVarBytes_def MaxPolicyTemplateBytes_def)

lemma readVarBytes_write_end:
  assumes "wire_laws lib" and "length v \<le> MaxPolicyTemplateBytes"
  shows "readVarBytes lib (writeVarBytes lib v) = Inr (v, [])"
  using readVarBytes_write [OF assms, of "[]"] by simp

lemma readVarBytes_Inr:
  assumes "wire_laws lib" and "readVarBytes lib bs = Inr (v, rest)"
  shows "length v \<le> MaxPolicyTemplateBytes" and "bs = writeVarBytes lib v @ rest"
  using wire_lawsD(4) [OF assms(1), of bs MaxPolicyTemplateBytes v rest] assms(2)
  by (auto simp: readVarBytes_def writeVarBytes_def)

lemma length_writeVarBytes: "length v \<le> length (writeVarBytes lib v)"
  by (simp add: writeVarBytes_def)

section \<open>Canonical nodes\<close>

definition lift_key :: "arkLib \<Rightarrow> pubKey \<Rightarrow> pubKey" where
  "lift_key lib k = projr (al_parseXOnly lib (al_xOnly lib k))"

fun canon_node :: "arkLib \<Rightarrow> node \<Rightarrow> node" where
  "canon_node lib (Multisig keys) = Multisig (map (map_option (lift_key lib)) keys)"
| "canon_node lib (CSV lock inner) = CSV lock (case inner of None \<Rightarrow> None | Some n \<Rightarrow> Some (canon_node lib n))"
| "canon_node lib (Condition p inner) = Condition p (case inner of None \<Rightarrow> None | Some n \<Rightarrow> Some (canon_node lib n))"

fun node_depth :: "node \<Rightarrow> nat" where
  "node_depth (Multisig keys) = 1"
| "node_depth (CSV lock inner) = 1 + (case inner of None \<Rightarrow> 0 | Some n \<Rightarrow> node_depth n)"
| "node_depth (Condition p inner) = 1 + (case inner of None \<Rightarrow> 0 | Some n \<Rightarrow> node_depth n)"

text \<open>What the decoder demands of every node beyond the budget.\<close>

fun node_ok :: "node \<Rightarrow> bool" where
  "node_ok (Multisig keys) \<longleftrightarrow> keys \<noteq> [] \<and> length keys \<le> MaxMultisigKeys"
| "node_ok (CSV lock inner) \<longleftrightarrow> (case inner of None \<Rightarrow> False | Some n \<Rightarrow> node_ok n)"
| "node_ok (Condition p inner) \<longleftrightarrow> p \<noteq> [] \<and> (case inner of None \<Rightarrow> False | Some n \<Rightarrow> node_ok n)"

lemma node_depth_pos: "0 < node_depth n"
  by (cases n) auto

lemma lift_key_parse:
  assumes "key_laws lib"
  shows "al_parseXOnly lib (al_xOnly lib k) = Inr (lift_key lib k)" and "al_xOnly lib (lift_key lib k) = al_xOnly lib k"
  using assms unfolding key_laws_def lift_key_def by (metis sum.sel(2))+

lemma lift_key_parsed:
  assumes "key_laws lib" and "al_parseXOnly lib bs = Inr k"
  shows "lift_key lib k = k" and "al_xOnly lib k = bs" and "length bs = 32"
  using assms unfolding key_laws_def lift_key_def by (metis sum.sel(2))+

lemma encode_keys_Inr:
  assumes "encode_keys lib i ks = Inr bs"
  shows "\<exists>ps. ks = map Some ps \<and> bs = concat (map (al_xOnly lib) ps)"
  using assms
proof (induction lib i ks arbitrary: bs rule: encode_keys.induct)
  case (2 lib i k ks)
  then obtain key rest where k: "k = Some key" and r: "encode_keys lib (Suc i) ks = Inr rest" "bs = al_xOnly lib key @ rest"
    by (auto split: option.splits)
  from "2.IH" [OF k r(1)] obtain ps where "ks = map Some ps" "rest = concat (map (al_xOnly lib) ps)"
    by blast
  then show ?case
    using k r(2) by (intro exI [of _ "key # ps"]) simp
qed auto

lemma encode_keys_some: "encode_keys lib i (map Some ps) = Inr (concat (map (al_xOnly lib) ps))"
  by (induction ps arbitrary: i) auto

lemma decode_keys_concat:
  assumes "key_laws lib"
  shows "decode_keys lib (length ps) (concat (map (al_xOnly lib) ps) @ rest)
       = Inr (map (\<lambda>p. Some (lift_key lib p)) ps, rest)"
  using assms
  by (induction ps) (auto simp: PubKeyBytesLen_def key_laws_def lift_key_parse(1) [OF assms])

lemma decode_keys_Inr:
  assumes "key_laws lib" and "decode_keys lib n r = Inr (ks, r')"
  shows "\<exists>ps. ks = map Some ps \<and> length ps = n \<and> r = concat (map (al_xOnly lib) ps) @ r' \<and> map (lift_key lib) ps = ps"
  using assms(2)
proof (induction n arbitrary: r ks)
  case (Suc n)
  then obtain key ks' where k: "al_parseXOnly lib (take 32 r) = Inr key"
    and rec: "decode_keys lib n (drop 32 r) = Inr (ks', r')" and ks: "ks = Some key # ks'"
    by (auto simp: PubKeyBytesLen_def split: if_splits)
  from Suc.IH [OF rec] obtain ps where ps: "ks' = map Some ps" "length ps = n"
    "drop 32 r = concat (map (al_xOnly lib) ps) @ r'" "map (lift_key lib) ps = ps"
    by blast
  have "r = al_xOnly lib key @ concat (map (al_xOnly lib) ps) @ r'"
    using lift_key_parsed(2) [OF assms(1) k] ps(3) by (metis append_take_drop_id)
  with ps ks lift_key_parsed(1) [OF assms(1) k] show ?case
    by (intro exI [of _ "key # ps"]) simp
qed auto

section \<open>Nodes\<close>

lemma kinds [simp]:
  "nodeKindCSV \<noteq> nodeKindMultisig" "nodeKindCondition \<noteq> nodeKindMultisig" "nodeKindCondition \<noteq> nodeKindCSV"
  "nodeKindMultisig \<noteq> nodeKindCSV" "nodeKindMultisig \<noteq> nodeKindCondition" "nodeKindCSV \<noteq> nodeKindCondition"
  by (simp_all add: nodeKindCSV_def nodeKindMultisig_def nodeKindCondition_def)

lemma lock_roundtrip: "unat (ucast (lock :: u32) :: u64) \<le> 0xffffffff" "ucast (ucast (lock :: u32) :: u64) = lock"
proof -
  have less: "unat lock < 4294967296"
    using unsigned_less [of lock, where ?'a = nat] by simp
  then show "unat (ucast lock :: u64) \<le> 0xffffffff"
    by (simp add: unsigned_ucast_eq take_bit_nat_eq_self)
  show "ucast (ucast lock :: u64) = lock"
    using less by (intro unsigned_word_eqI [where ?'a = nat])
      (simp add: unsigned_ucast_eq unsigned_take_bit_eq take_bit_nat_eq_self)
qed

lemma lock_roundtrip':
  assumes "unat (lock :: u64) \<le> 0xffffffff"
  shows "ucast (ucast lock :: u32) = lock"
  using assms by (intro unsigned_word_eqI [where ?'a = nat])
    (simp add: unsigned_ucast_eq unsigned_take_bit_eq take_bit_nat_eq_self)

lemma small_count:
  assumes "n \<le> 64"
  shows "unat (of_nat n :: u64) = n" and "n \<noteq> 0 \<Longrightarrow> (of_nat n :: u64) \<noteq> 0"
proof -
  show "unat (of_nat n :: u64) = n" using assms by (simp add: unsigned_of_nat take_bit_nat_eq_self)
  then show "(of_nat n :: u64) \<noteq> 0" if "n \<noteq> 0" using that by auto
qed

lemma enter_ok:
  assumes "db_depth b < db_maxDepth b" and "db_nodes b < db_maxNodes b"
  shows "budget_enter b = Inr (b\<lparr>db_depth := db_depth b + 1, db_nodes := db_nodes b + 1\<rparr>)"
  using assms by (simp add: budget_enter_def)

lemma decodeNode_encoded:
  assumes laws: "wire_laws lib" "key_laws lib"
  shows "EncodeNode lib n = Inr bs \<Longrightarrow> node_ok n \<Longrightarrow> length bs \<le> MaxPolicyTemplateBytes \<Longrightarrow>
     db_depth b + node_depth n \<le> db_maxDepth b \<Longrightarrow> db_nodes b + node_depth n \<le> db_maxNodes b \<Longrightarrow>
     decodeNodeWithBudget lib bs b = Inr (canon_node lib n, b\<lparr>db_nodes := db_nodes b + node_depth n\<rparr>)"
proof (induction n arbitrary: bs b)
  case (Multisig keys)
  then obtain ps where ps: "keys = map Some ps"
    "bs = nodeKindMultisig # al_writeVarInt lib (of_nat (length keys)) @ concat (map (al_xOnly lib) ps)"
    using encode_keys_Inr by fastforce
  have n: "length ps \<noteq> 0" "length ps \<le> 64"
    using Multisig ps by (auto simp: MaxMultisigKeys_def)
  show ?case
    using Multisig.prems ps n small_count [of "length ps"] decode_keys_concat [OF laws(2), of ps "[]"]
    by (simp add: decodeNodeWithBudget.simps decodeNodePayload.simps enter_ok readVarInt_write [OF laws(1)]
        MaxMultisigKeys_def budget_exit_def)
next
  case (CSV lock inner)
  then obtain n cb where n: "inner = Some n" "EncodeNode lib n = Inr cb"
    "bs = nodeKindCSV # al_writeVarInt lib (ucast lock) @ writeVarBytes lib cb"
    by (auto split: option.splits)
  have len: "length cb \<le> MaxPolicyTemplateBytes"
    using CSV.prems(3) n(3) length_writeVarBytes [of cb lib] by simp
  show ?case
    using CSV.prems n len lock_roundtrip [of lock]
      CSV.IH [of n cb "b\<lparr>db_depth := db_depth b + 1, db_nodes := db_nodes b + 1\<rparr>"]
    by (simp add: decodeNodeWithBudget.simps [of lib "_ # _"] decodeNodePayload.simps decodeLockedNode.simps enter_ok
        readVarInt_write [OF laws(1)] readVarBytes_write_end [OF laws(1)] budget_exit_def)
next
  case (Condition p inner)
  then obtain n cb where n: "inner = Some n" "EncodeNode lib n = Inr cb"
    "bs = nodeKindCondition # writeVarBytes lib p @ writeVarBytes lib cb"
    by (auto split: option.splits)
  have len: "length cb \<le> MaxPolicyTemplateBytes" "length p \<le> MaxPolicyTemplateBytes"
    using Condition.prems(3) n(3) length_writeVarBytes [of cb lib] length_writeVarBytes [of p lib] by simp_all
  show ?case
    using Condition.prems n len
      Condition.IH [of n cb "b\<lparr>db_depth := db_depth b + 1, db_nodes := db_nodes b + 1\<rparr>"]
    by (simp add: decodeNodeWithBudget.simps [of lib "_ # _"] decodeNodePayload.simps enter_ok
        readVarBytes_write [OF laws(1)] readVarBytes_write_end [OF laws(1)] budget_exit_def)
qed

lemma node_ok_child: "node_ok (CSV lock (Some n)) = node_ok n" "node_ok (Condition p (Some n)) = (p \<noteq> [] \<and> node_ok n)"
  by simp_all

text \<open>What decoding says about the bytes, the node and the budget.\<close>

definition decoded :: "arkLib \<Rightarrow> byte list \<Rightarrow> decodeBudget \<Rightarrow> node \<Rightarrow> decodeBudget \<Rightarrow> bool" where
  "decoded lib raw b n b' \<longleftrightarrow> EncodeNode lib n = Inr raw \<and> node_ok n \<and> canon_node lib n = n \<and>
     db_depth b + node_depth n \<le> db_maxDepth b \<and> db_nodes b + node_depth n \<le> db_maxNodes b \<and>
     b' = b\<lparr>db_nodes := db_nodes b + node_depth n\<rparr>"

definition decoded_payload :: "arkLib \<Rightarrow> byte list \<Rightarrow> byte \<Rightarrow> decodeBudget \<Rightarrow> node \<Rightarrow> byte list \<Rightarrow> decodeBudget \<Rightarrow> bool" where
  "decoded_payload lib r kind b n r' b' \<longleftrightarrow> (\<exists>pre. EncodeNode lib n = Inr (kind # pre) \<and> r = pre @ r') \<and>
     node_ok n \<and> canon_node lib n = n \<and>
     (node_depth n \<noteq> 1 \<longrightarrow> db_depth b + node_depth n \<le> db_maxDepth b + 1 \<and> db_nodes b + node_depth n \<le> db_maxNodes b + 1) \<and>
     b' = b\<lparr>db_nodes := db_nodes b + (node_depth n - 1)\<rparr>"

lemma decoded_multisig:
  assumes laws: "wire_laws lib" "key_laws lib"
    and "decodeNodePayload lib r nodeKindMultisig b = Inr (n, r', b')"
  shows "decoded_payload lib r nodeKindMultisig b n r' b'"
proof -
  obtain c r1 keys where c: "al_readVarInt lib r = Inr (c, r1)" "c \<noteq> 0" "unat c \<le> 64"
    and k: "decode_keys lib (unat c) r1 = Inr (keys, r')" "n = Multisig keys" "b' = b"
    using assms(3) by (auto simp: decodeNodePayload.simps MaxMultisigKeys_def split: if_splits)
  obtain ps where ps: "keys = map Some ps" "length ps = unat c" "r1 = concat (map (al_xOnly lib) ps) @ r'"
    "map (lift_key lib) ps = ps"
    using decode_keys_Inr [OF laws(2) k(1)] by blast
  have "c = of_nat (length ps)" using ps(2) by simp
  moreover have "ps \<noteq> []" using c(2) ps(2) by (auto simp: unat_eq_0)
  moreover have "canon_node lib n = n"
  proof -
    have "map (map_option (lift_key lib)) (map Some ps) = map Some (map (lift_key lib) ps)" by simp
    then show ?thesis using ps(4) by (simp only: k(2) ps(1) canon_node.simps)
  qed
  moreover have "r = al_writeVarInt lib c @ concat (map (al_xOnly lib) ps) @ r'"
    using wire_lawsD(2) [OF laws(1) c(1)] ps(3) by simp
  ultimately show ?thesis
    using ps(1,2) c(3) k(2,3) by (simp add: decoded_payload_def encode_keys_some MaxMultisigKeys_def)
qed

lemma decoded_child:
  assumes "decoded lib cb b c b'"
  shows "EncodeNode lib (CSV lock (Some c)) = Inr (nodeKindCSV # al_writeVarInt lib (ucast lock) @ writeVarBytes lib cb)"
    and "EncodeNode lib (Condition p (Some c)) = Inr (nodeKindCondition # writeVarBytes lib p @ writeVarBytes lib cb)"
  using assms by (auto simp: decoded_def)

lemma decodeNode_decoded:
  assumes laws: "wire_laws lib" "key_laws lib"
  shows "decodeNodeWithBudget lib raw b = Inr (n, b') \<Longrightarrow> decoded lib raw b n b'"
    and "decodeNodePayload lib r kind b = Inr (n, r', b') \<Longrightarrow> decoded_payload lib r kind b n r' b'"
    and "decodeLockedNode lib r b = Inr (n, r', b') \<Longrightarrow> decoded_payload lib r nodeKindCSV b n r' b'"
  using assms
proof (induction lib raw b and lib r kind b and lib r b arbitrary: n b' and n r' b' and n r' b'
    rule: decodeNodeWithBudget_decodeNodePayload_decodeLockedNode.induct)
  case (1 lib raw b)
  then obtain kind r where raw: "raw = kind # r"
    by (auto simp: decodeNodeWithBudget.simps split: list.splits)
  define b1 where "b1 = b\<lparr>db_depth := db_depth b + 1, db_nodes := db_nodes b + 1\<rparr>"
  have e: "budget_enter b = Inr b1" "db_depth b < db_maxDepth b" "db_nodes b < db_maxNodes b"
    using "1.prems"(1) by (auto simp: decodeNodeWithBudget.simps raw budget_enter_def b1_def Let_def split: if_splits)
  obtain b2 where p: "decodeNodePayload lib r kind b1 = Inr (n, [], b2)" and b': "b' = budget_exit b2"
    using "1.prems"(1) by (auto simp: decodeNodeWithBudget.simps raw e split: if_splits)
  from "1.IH" [OF raw e(1) p "1.prems"(2,3)] e(2,3) b' node_depth_pos [of n] show ?case
    by (auto simp: decoded_payload_def decoded_def raw b1_def budget_exit_def Suc_diff_le)
next
  case (2 lib r kind b)
  consider "kind = nodeKindMultisig" | "kind = nodeKindCSV" | "kind = nodeKindCondition"
    using "2.prems"(1) by (auto simp: decodeNodePayload.simps split: if_splits)
  then show ?case
  proof cases
    case 1
    then show ?thesis using decoded_multisig [OF "2.prems"(2,3)] "2.prems"(1) by simp
  next
    case 2
    then show ?thesis
      using "2.IH"(1) [of n r' b'] "2.prems" by (simp add: decodeNodePayload.simps)
  next
    case 3
    then obtain p r1 cb c where p: "readVarBytes lib r = Inr (p, r1)" "p \<noteq> []" "readVarBytes lib r1 = Inr (cb, r')"
      and c: "decodeNodeWithBudget lib cb b = Inr (c, b')" "n = Condition p (Some c)"
      using "2.prems"(1) by (auto simp: decodeNodePayload.simps split: if_splits)
    have d: "decoded lib cb b c b'"
      using "2.IH"(2) [of p cb c b'] 3 p c "2.prems"(2,3) by simp
    show ?thesis
      using d decoded_child(2) [OF d, of p] readVarBytes_Inr(2) [OF "2.prems"(2) p(1)] readVarBytes_Inr(2) [OF "2.prems"(2) p(3)] p c 3
      by (auto simp: decoded_payload_def decoded_def)
  qed
next
  case (3 lib r b)
  then obtain lock r1 cb c where l: "al_readVarInt lib r = Inr (lock, r1)" "unat lock \<le> 0xffffffff"
    "readVarBytes lib r1 = Inr (cb, r')" and c: "decodeNodeWithBudget lib cb b = Inr (c, b')" "n = CSV (ucast lock) (Some c)"
    by (auto simp: decodeLockedNode.simps split: if_splits)
  have d: "decoded lib cb b c b'"
    using "3.IH" [of lock cb c b'] l c "3.prems"(2,3) by simp
  show ?case
    using d decoded_child(1) [OF d, of "ucast lock"] wire_lawsD(2) [OF "3.prems"(2) l(1)]
      readVarBytes_Inr(2) [OF "3.prems"(2) l(3)] l c lock_roundtrip' [OF l(2)]
    by (auto simp: decoded_payload_def decoded_def)
qed

section \<open>Templates\<close>

definition leaf_depth :: "leafTemplate \<Rightarrow> nat" where
  "leaf_depth l = (case lt_node l of None \<Rightarrow> 0 | Some n \<Rightarrow> node_depth n)"

definition canon_leaf :: "arkLib \<Rightarrow> leafTemplate \<Rightarrow> leafTemplate" where
  "canon_leaf lib l = \<lparr>lt_node = map_option (canon_node lib) (lt_node l)\<rparr>"

definition canon_template :: "arkLib \<Rightarrow> policyTemplate \<Rightarrow> policyTemplate" where
  "canon_template lib t = \<lparr>pt_leaves = map (canon_leaf lib) (pt_leaves t)\<rparr>"

definition leaf_within :: "arkLib \<Rightarrow> leafTemplate \<Rightarrow> bool" where
  "leaf_within lib l \<longleftrightarrow>
     (case lt_node l of None \<Rightarrow> False | Some n \<Rightarrow> node_ok n \<and> node_depth n \<le> MaxPolicyDepth) \<and>
     (case LeafTemplate_Encode lib l of Inl _ \<Rightarrow> False | Inr bs \<Rightarrow> length bs \<le> MaxLeafTemplateBytes)"

text \<open>The limits of the decoder, as a predicate on templates.\<close>

definition template_within :: "arkLib \<Rightarrow> policyTemplate \<Rightarrow> bool" where
  "template_within lib t \<longleftrightarrow>
     0 < length (pt_leaves t) \<and> length (pt_leaves t) \<le> MaxPolicyLeaves \<and>
     list_all (leaf_within lib) (pt_leaves t) \<and>
     sum_list (map leaf_depth (pt_leaves t)) \<le> MaxPolicyNodes \<and>
     (case PolicyTemplate_Encode lib (Some t) of Inl _ \<Rightarrow> False | Inr bs \<Rightarrow> length bs \<le> MaxPolicyTemplateBytes)"

lemma decodeLeaf_encoded:
  assumes laws: "wire_laws lib" "key_laws lib" and enc: "LeafTemplate_Encode lib l = Inr bs" and "leaf_within lib l"
    and "db_depth b = 0" "db_maxDepth b = MaxPolicyDepth" "db_nodes b + leaf_depth l \<le> db_maxNodes b"
  shows "decodeLeafTemplateWithBudget lib bs b = Inr (canon_leaf lib l, b\<lparr>db_nodes := db_nodes b + leaf_depth l\<rparr>)"
proof -
  obtain n nb where n: "lt_node l = Some n" "EncodeNode lib n = Inr nb" "bs = leafTemplateVersion # writeVarBytes lib nb"
    using enc by (auto simp: LeafTemplate_Encode_def split: option.splits)
  have len: "length nb \<le> MaxPolicyTemplateBytes"
    using assms(3,4) n(3) length_writeVarBytes [of nb lib]
    by (simp add: leaf_within_def MaxLeafTemplateBytes_def MaxPolicyTemplateBytes_def)
  have "decodeNodeWithBudget lib nb b = Inr (canon_node lib n, b\<lparr>db_nodes := db_nodes b + node_depth n\<rparr>)"
    using assms(4-) n len by (intro decodeNode_encoded [OF laws]) (auto simp: leaf_within_def leaf_depth_def)
  with n len show ?thesis
    by (simp add: decodeLeafTemplateWithBudget_def readVarBytes_write_end [OF laws(1)] canon_leaf_def leaf_depth_def)
qed

lemma decodeLeaf_decoded:
  assumes laws: "wire_laws lib" "key_laws lib" and "decodeLeafTemplateWithBudget lib raw b = Inr (l, b')"
    and "length raw \<le> MaxLeafTemplateBytes" "db_depth b = 0" "db_maxDepth b = MaxPolicyDepth"
  shows "LeafTemplate_Encode lib l = Inr raw" and "leaf_within lib l" and "canon_leaf lib l = l"
    and "db_nodes b + leaf_depth l \<le> db_maxNodes b" and "b' = b\<lparr>db_nodes := db_nodes b + leaf_depth l\<rparr>"
proof -
  obtain r nb n where raw: "raw = leafTemplateVersion # r" "readVarBytes lib r = Inr (nb, [])"
    and d: "decodeNodeWithBudget lib nb b = Inr (n, b')" and l: "l = \<lparr>lt_node = Some n\<rparr>"
    using assms(3) by (auto simp: decodeLeafTemplateWithBudget_def split: list.splits if_splits)
  note dec = decodeNode_decoded(1) [OF laws d, unfolded decoded_def] and r = readVarBytes_Inr(2) [OF laws(1) raw(2)]
  show enc: "LeafTemplate_Encode lib l = Inr raw"
    using dec r raw(1) l by (simp add: LeafTemplate_Encode_def)
  show "leaf_within lib l" using enc dec assms(4-) l by (simp add: leaf_within_def)
  show "canon_leaf lib l = l" using dec l by (simp add: canon_leaf_def)
  show "db_nodes b + leaf_depth l \<le> db_maxNodes b" "b' = b\<lparr>db_nodes := db_nodes b + leaf_depth l\<rparr>"
    using dec l by (simp_all add: leaf_depth_def)
qed

lemma leaf_encoding_small:
  assumes "leaf_within lib l" and "LeafTemplate_Encode lib l = Inr bs"
  shows "length bs \<le> MaxLeafTemplateBytes" and "length bs \<le> MaxPolicyTemplateBytes"
  using assms by (simp_all add: leaf_within_def MaxLeafTemplateBytes_def MaxPolicyTemplateBytes_def)

lemma decode_leaves_encoded:
  assumes laws: "wire_laws lib" "key_laws lib"
  shows "encode_leaves lib i ls = Inr bs \<Longrightarrow> list_all (leaf_within lib) ls \<Longrightarrow> db_depth b = 0 \<Longrightarrow>
     db_maxDepth b = MaxPolicyDepth \<Longrightarrow> db_nodes b + sum_list (map leaf_depth ls) \<le> db_maxNodes b \<Longrightarrow>
     decode_leaves lib j (length ls) (bs @ rest) b =
       Inr (map (canon_leaf lib) ls, rest, b\<lparr>db_nodes := db_nodes b + sum_list (map leaf_depth ls)\<rparr>)"
proof (induction ls arbitrary: i j bs b)
  case (Cons l ls)
  then obtain lb more where l: "LeafTemplate_Encode lib l = Inr lb" "encode_leaves lib (Suc i) ls = Inr more"
    "bs = writeVarBytes lib lb @ more"
    by auto
  note small = leaf_encoding_small [OF _ l(1)]
  have d: "decodeLeafTemplateWithBudget lib lb b = Inr (canon_leaf lib l, b\<lparr>db_nodes := db_nodes b + leaf_depth l\<rparr>)"
    using Cons.prems by (intro decodeLeaf_encoded [OF laws l(1)]) auto
  show ?case
    using Cons.prems Cons.IH [OF l(2), of "b\<lparr>db_nodes := db_nodes b + leaf_depth l\<rparr>" "Suc j"] l(3) d small
    by (simp add: readVarBytes_write [OF laws(1)] add.assoc)
qed simp

lemma decode_leaves_decoded:
  assumes laws: "wire_laws lib" "key_laws lib"
  shows "decode_leaves lib j n r b = Inr (ls, r', b') \<Longrightarrow> db_depth b = 0 \<Longrightarrow> db_maxDepth b = MaxPolicyDepth \<Longrightarrow>
     length ls = n \<and> list_all (leaf_within lib) ls \<and> map (canon_leaf lib) ls = ls \<and>
     (\<exists>bs. (\<forall>i. encode_leaves lib i ls = Inr bs) \<and> r = bs @ r') \<and>
     (db_nodes b \<le> db_maxNodes b \<longrightarrow> db_nodes b + sum_list (map leaf_depth ls) \<le> db_maxNodes b)"
proof (induction n arbitrary: j r b ls)
  case (Suc n)
  then obtain lb r1 l b1 more where lb: "readVarBytes lib r = Inr (lb, r1)" "length lb \<le> MaxLeafTemplateBytes"
    and l: "decodeLeafTemplateWithBudget lib lb b = Inr (l, b1)"
    and more: "decode_leaves lib (Suc j) n r1 b1 = Inr (more, r', b')" "ls = l # more"
    by (auto split: if_splits)
  note leaf = decodeLeaf_decoded [OF laws l lb(2) Suc.prems(2,3)]
  have b1: "db_depth b1 = 0" "db_maxDepth b1 = MaxPolicyDepth"
    using leaf(5) Suc.prems(2,3) by simp_all
  from Suc.IH [OF more(1) b1] leaf obtain bs where
    ih: "length more = n" "list_all (leaf_within lib) more" "map (canon_leaf lib) more = more"
      "\<forall>i. encode_leaves lib i more = Inr bs" "r1 = bs @ r'"
      "db_nodes b1 \<le> db_maxNodes b1 \<longrightarrow> db_nodes b1 + sum_list (map leaf_depth more) \<le> db_maxNodes b1"
    by auto
  have "\<forall>i. encode_leaves lib i ls = Inr (writeVarBytes lib lb @ bs)"
    using leaf(1) ih(4) more(2) by simp
  moreover have "r = (writeVarBytes lib lb @ bs) @ r'"
    using readVarBytes_Inr(2) [OF laws(1) lb(1)] ih(5) by simp
  ultimately show ?case
    using leaf ih more(2) by auto
qed simp

lemma PolicyTemplate_Encode_Inr:
  "PolicyTemplate_Encode lib (Some t) = Inr raw \<longleftrightarrow> pt_leaves t \<noteq> [] \<and>
     (\<exists>bs. encode_leaves lib 0 (pt_leaves t) = Inr bs \<and>
        raw = policyTemplateVersion # al_writeVarInt lib (of_nat (length (pt_leaves t))) @ bs)"
  by (auto simp: PolicyTemplate_Encode_def)

lemma decodePolicy_encoded:
  assumes laws: "wire_laws lib" "key_laws lib" and enc: "PolicyTemplate_Encode lib (Some t) = Inr raw"
    and within: "template_within lib t"
  shows "DecodePolicyTemplate lib raw = Inr (canon_template lib t)"
proof -
  obtain bs where bs: "encode_leaves lib 0 (pt_leaves t) = Inr bs"
    "raw = policyTemplateVersion # al_writeVarInt lib (of_nat (length (pt_leaves t))) @ bs"
    using enc by (auto simp: PolicyTemplate_Encode_Inr)
  have n: "length (pt_leaves t) \<noteq> 0" "length (pt_leaves t) \<le> 64"
    using within by (auto simp: template_within_def MaxPolicyLeaves_def)
  have "decode_leaves lib 0 (length (pt_leaves t)) (bs @ []) defaultDecodeBudget =
     Inr (map (canon_leaf lib) (pt_leaves t), [],
          defaultDecodeBudget\<lparr>db_nodes := db_nodes defaultDecodeBudget + sum_list (map leaf_depth (pt_leaves t))\<rparr>)"
    using within bs(1)
    by (intro decode_leaves_encoded [OF laws]) (auto simp: template_within_def defaultDecodeBudget_def)
  then show ?thesis
    using within enc bs(2) small_count [OF n(2)] n(1)
    by (simp add: DecodePolicyTemplate_def template_within_def readVarInt_write [OF laws(1)] canon_template_def)
qed

lemma decodePolicy_decoded:
  assumes laws: "wire_laws lib" "key_laws lib" and dec: "DecodePolicyTemplate lib raw = Inr t"
  shows "PolicyTemplate_Encode lib (Some t) = Inr raw" and "template_within lib t" and "canon_template lib t = t"
proof -
  obtain r c r1 ls b where raw: "length raw \<le> MaxPolicyTemplateBytes" "raw = policyTemplateVersion # r"
    and c: "al_readVarInt lib r = Inr (c, r1)" "c \<noteq> 0" "unat c \<le> MaxPolicyLeaves"
    and ls: "decode_leaves lib 0 (unat c) r1 defaultDecodeBudget = Inr (ls, [], b)" "t = \<lparr>pt_leaves = ls\<rparr>"
    using dec by (auto simp: DecodePolicyTemplate_def split: list.splits if_splits)
  from decode_leaves_decoded [OF laws ls(1)] obtain bs where
    d: "length ls = unat c" "list_all (leaf_within lib) ls" "map (canon_leaf lib) ls = ls"
      "encode_leaves lib 0 ls = Inr bs" "r1 = bs" "sum_list (map leaf_depth ls) \<le> MaxPolicyNodes"
    by (auto simp: defaultDecodeBudget_def)
  have c': "c = of_nat (length ls)" "ls \<noteq> []"
    using d(1) c(2) by (auto simp: unat_eq_0)
  show enc: "PolicyTemplate_Encode lib (Some t) = Inr raw"
    using raw(2) wire_lawsD(2) [OF laws(1) c(1)] d(4,5) c' ls(2) by (simp add: PolicyTemplate_Encode_Inr)
  show "template_within lib t"
    using enc raw(1) d c' c(3) ls(2) by (simp add: template_within_def)
  show "canon_template lib t = t"
    using d(3) ls(2) by (simp add: canon_template_def)
qed

section \<open>Scripts of canonical templates\<close>

lemma checksig_ops_lift:
  "key_laws lib \<Longrightarrow> checksig_ops lib (map (lift_key lib) ks) = checksig_ops lib ks"
  by (induction lib ks rule: checksig_ops.induct) (simp_all add: lift_key_parse(2))

lemma first_nil_map: "first_nil i (map (map_option f) ks) = first_nil i ks"
  by (induction i ks rule: first_nil.induct) auto

lemma Script_canon:
  assumes "key_laws lib"
  shows "Script lib (canon_node lib n) = Script lib n"
proof (induction n)
  case (Multisig keys)
  have "map the (map (map_option (lift_key lib)) keys) = map (lift_key lib) (map the keys)" if "None \<notin> set keys"
    using that by simp (metis option.map_sel)
  moreover have "first_nil 0 keys = None \<longleftrightarrow> None \<notin> set keys" by simp
  ultimately show ?case
    by (cases "first_nil 0 keys")
      (auto simp: first_nil_map scriptChecksig_def checksig_ops_lift [OF assms] simp del: map_map first_nil_None)
qed (auto split: option.splits)

lemma compile_canon:
  assumes "key_laws lib"
  shows "compile_scripts lib i (map (canon_leaf lib) ls) = compile_scripts lib i ls"
  by (induction ls arbitrary: i)
    (simp_all add: LeafTemplate_Script_def canon_leaf_def Script_canon [OF assms] option.case_eq_if option.map_sel)

section \<open>Spend paths and condition witnesses\<close>

lemma read_items_encoded:
  assumes "wire_laws lib" and "m < 2 ^ 32"
  shows "list_all (\<lambda>v. length v \<le> m) items \<Longrightarrow>
     read_items lib m (length items) (concat (map (writeVarBytes lib) items) @ rest) = Inr (items, rest)"
  by (induction items) (simp_all add: writeVarBytes_def wire_lawsD(3) [OF assms(1) _ assms(2)])

lemma read_items_decoded:
  assumes "wire_laws lib"
  shows "read_items lib m n r = Inr (items, r') \<Longrightarrow>
     length items = n \<and> list_all (\<lambda>v. length v \<le> m) items \<and> r = concat (map (writeVarBytes lib) items) @ r'"
proof (induction n arbitrary: r items)
  case (Suc n)
  then obtain v r1 more where v: "al_readVarBytes lib r m = Inr (v, r1)"
    and more: "read_items lib m n r1 = Inr (more, r')" "items = v # more"
    by auto
  from Suc.IH [OF more(1)] wire_lawsD(4) [OF assms v] more(2) show ?case
    by (simp add: writeVarBytes_def)
qed simp

definition path_within :: "spendPath \<Rightarrow> bool" where
  "path_within p \<longleftrightarrow> length (sp_conditions p) \<le> maxConditions \<and>
     list_all (\<lambda>v. length v \<le> MaxPolicyTemplateBytes) (sp_conditions p) \<and>
     (case sp_spendInfo p of None \<Rightarrow> False
      | Some i \<Rightarrow> length (si_witnessScript i) \<le> MaxPolicyTemplateBytes \<and> length (si_controlBlock i) \<le> MaxPolicyTemplateBytes)"

lemma decodePath_encoded:
  assumes laws: "wire_laws lib" and enc: "SpendPath_Encode lib (Some p) = Inr raw" and within: "path_within p"
  shows "DecodeSpendPath lib raw = Inr p"
proof -
  obtain i where i: "sp_spendInfo p = Some i" and val: "SpendPath_Validate (Some p) = None"
    using within enc by (auto simp: path_within_def SpendPath_Encode_def split: option.splits)
  have raw: "raw = spendPathVersion # al_writeVarInt lib (of_nat (length (sp_conditions p)))
        @ concat (map (writeVarBytes lib) (sp_conditions p)) @ writeVarBytes lib (si_witnessScript i)
        @ writeVarBytes lib (si_controlBlock i) @ al_writeVarInt lib (ucast (sp_requiredSequence p))
        @ al_writeVarInt lib (ucast (sp_requiredLockTime p))"
    using enc i val by (simp add: SpendPath_Encode_def Let_def)
  have n: "length (sp_conditions p) \<le> 64"
    using within by (simp add: path_within_def maxConditions_def)
  have items: "read_items lib MaxPolicyTemplateBytes (length (sp_conditions p))
      (concat (map (writeVarBytes lib) (sp_conditions p)) @ rest) = Inr (sp_conditions p, rest)" for rest
    using within by (intro read_items_encoded [OF laws]) (auto simp: path_within_def MaxPolicyTemplateBytes_def)
  have eta: "\<lparr>sp_spendInfo = Some \<lparr>si_witnessScript = si_witnessScript i, si_controlBlock = si_controlBlock i\<rparr>,
       sp_requiredSequence = sp_requiredSequence p, sp_requiredLockTime = sp_requiredLockTime p,
       sp_conditions = sp_conditions p\<rparr> = p"
    using i by simp
  show ?thesis
    using within i n val lock_roundtrip [of "sp_requiredSequence p"] lock_roundtrip [of "sp_requiredLockTime p"]
    by (simp add: DecodeSpendPath_def raw readVarInt_write [OF laws] readVarInt_write_end [OF laws]
        small_count [OF n] maxConditions_def items readVarBytes_write [OF laws] path_within_def eta)
qed

lemma decodePath_decoded:
  assumes laws: "wire_laws lib" and dec: "DecodeSpendPath lib raw = Inr p"
  shows "SpendPath_Encode lib (Some p) = Inr raw" and "path_within p"
proof -
  obtain r c r1 conds r2 ws r3 cb r4 sq r5 lt where
    raw: "raw = spendPathVersion # r" "al_readVarInt lib r = Inr (c, r1)" "unat c \<le> 64"
    and conds: "read_items lib MaxPolicyTemplateBytes (unat c) r1 = Inr (conds, r2)"
    and ws: "readVarBytes lib r2 = Inr (ws, r3)" and cb: "readVarBytes lib r3 = Inr (cb, r4)"
    and sq: "al_readVarInt lib r4 = Inr (sq, r5)" "unat sq \<le> 0xffffffff"
    and lt: "al_readVarInt lib r5 = Inr (lt, [])" "unat lt \<le> 0xffffffff"
    and p: "p = \<lparr>sp_spendInfo = Some \<lparr>si_witnessScript = ws, si_controlBlock = cb\<rparr>, sp_requiredSequence = ucast sq,
              sp_requiredLockTime = ucast lt, sp_conditions = conds\<rparr>"
    and val: "SpendPath_Validate (Some p) = None"
    using dec by (auto simp: DecodeSpendPath_def maxConditions_def Let_def split: list.splits if_splits option.splits)
  note items = read_items_decoded [OF laws conds] and sz = readVarBytes_Inr [OF laws ws] readVarBytes_Inr [OF laws cb]
  have c: "c = of_nat (length conds)" using items by simp
  show "SpendPath_Encode lib (Some p) = Inr raw"
    using val items sz wire_lawsD(2) [OF laws raw(2)] wire_lawsD(2) [OF laws sq(1)] wire_lawsD(2) [OF laws lt(1)]
      lock_roundtrip' [OF sq(2)] lock_roundtrip' [OF lt(2)] c
    by (simp add: SpendPath_Encode_def Let_def p raw(1))
  show "path_within p"
    using items sz raw(3) by (simp add: path_within_def p maxConditions_def)
qed

lemma encode_items_Inr:
  "encode_items lib i items = Inr bs \<longleftrightarrow>
     list_all (\<lambda>v. length v \<le> maxConditionWitnessItemLen) items \<and> bs = concat (map (writeVarBytes lib) items)"
  by (induction items arbitrary: i bs) auto

section \<open>Properties\<close>

text \<open>
  C27: The binary form of a policy is unique and complete: a byte string decodes to a template
  exactly when it is the encoding of that template, the template is within the decoder's limits
  (at most 32 leaves, depth 16, 256 nodes, 64 keys, 16 KiB a leaf and 64 KiB in all, no empty
  predicate or key list) and its keys are in x-only form. So decoding ends with an error
  or a bounded template on every input, nothing decodes in two ways and no
  encoding is malleable.
\<close>

theorem DecodePolicyTemplate_iff:
  assumes "wire_laws lib" and "key_laws lib"
  shows "DecodePolicyTemplate lib raw = Inr t \<longleftrightarrow>
     PolicyTemplate_Encode lib (Some t) = Inr raw \<and> template_within lib t \<and> canon_template lib t = t"
  using decodePolicy_encoded [OF assms, of t raw] decodePolicy_decoded [OF assms, of raw t] by auto

text \<open>
  Storing a policy keeps its scripts: a template within the limits is decoded from its encoding
  to a template whose leaves compile to the same scripts in the same order, or fail to compile
  with the same error.
\<close>

lemma template_roundtrip_scripts:
  assumes "wire_laws lib" and "key_laws lib" and "PolicyTemplate_Encode lib (Some t) = Inr raw"
    and "template_within lib t"
  shows "\<exists>t'. DecodePolicyTemplate lib raw = Inr t' \<and>
     compile_scripts lib 0 (pt_leaves t') = compile_scripts lib 0 (pt_leaves t)"
  using decodePolicy_encoded [OF assms] compile_canon [OF assms(2), of 0 "pt_leaves t"]
  by (simp add: canon_template_def)

text \<open>
  The same holds for spend paths and condition witnesses: a spend path decodes exactly from its
  own encoding, provided it has at most 64 conditions and no item above 64 KiB, and a condition
  witness decodes exactly from its own encoding without further provisos.
\<close>

lemma spend_path_codec_iff:
  assumes "wire_laws lib"
  shows "(DecodeSpendPath lib raw = Inr p \<longleftrightarrow> SpendPath_Encode lib (Some p) = Inr raw \<and> path_within p) \<and>
     (DecodeConditionWitness lib data = Inr items \<longleftrightarrow> EncodeConditionWitness lib items = Inr data)"
proof
  show "DecodeSpendPath lib raw = Inr p \<longleftrightarrow> SpendPath_Encode lib (Some p) = Inr raw \<and> path_within p"
    using decodePath_encoded [OF assms] decodePath_decoded [OF assms] by blast
  have "DecodeConditionWitness lib data = Inr items" if enc: "EncodeConditionWitness lib items = Inr data"
  proof -
    have d: "length items \<le> 64" "list_all (\<lambda>v. length v \<le> 520) items"
      "data = al_writeVarInt lib (of_nat (length items)) @ concat (map (writeVarBytes lib) items)"
      using enc by (auto simp: EncodeConditionWitness_def encode_items_Inr maxConditionWitnessItems_def
          maxConditionWitnessItemLen_def split: if_splits)
    show ?thesis
      using read_items_encoded [OF assms _ d(2), of "[]"] d(1) small_count(1) [OF d(1)]
      by (simp add: DecodeConditionWitness_def d(3) readVarInt_write [OF assms] maxConditionWitnessItems_def
          maxConditionWitnessItemLen_def)
  qed
  moreover have "EncodeConditionWitness lib items = Inr data" if "DecodeConditionWitness lib data = Inr items"
    using that wire_lawsD(2) [OF assms] read_items_decoded [OF assms]
    by (fastforce simp: EncodeConditionWitness_def DecodeConditionWitness_def encode_items_Inr split: if_splits)
  ultimately show "DecodeConditionWitness lib data = Inr items \<longleftrightarrow> EncodeConditionWitness lib items = Inr data"
    by blast
qed

section \<open>Witnesses\<close>

text \<open>A concrete library: counts in eight bytes, keys that are their own x-only form, padded to 32 bytes.\<close>

fun le_bytes :: "nat \<Rightarrow> nat \<Rightarrow> byte list" where
  "le_bytes 0 n = []"
| "le_bytes (Suc k) n = of_nat (n mod 256) # le_bytes k (n div 256)"

fun le_value :: "byte list \<Rightarrow> nat" where
  "le_value [] = 0"
| "le_value (b # bs) = unat b + 256 * le_value bs"

definition ex_readVarInt :: "byte list \<Rightarrow> string + u64 \<times> byte list" where
  "ex_readVarInt bs = (if length bs < 8 then Inl ''varint'' else Inr (of_nat (le_value (take 8 bs)), drop 8 bs))"

definition ex_readVarBytes :: "byte list \<Rightarrow> nat \<Rightarrow> string + byte list \<times> byte list" where
  "ex_readVarBytes bs m =
     bindR (ex_readVarInt bs) (\<lambda>(n, r). if unat n > m \<or> length r < unat n then Inl ''varbytes''
        else Inr (take (unat n) r, drop (unat n) r))"

definition op_bytes :: "scriptOp \<Rightarrow> byte list" where
  "op_bytes x = (case x of AddOp b \<Rightarrow> [b] | AddData d \<Rightarrow> of_nat (length d) # d | AddInt64 i \<Rightarrow> [1, of_int i] | AddOps d \<Rightarrow> d)"

definition ex_ark :: arkLib where
  "ex_ark = \<lparr>al_script = \<lambda>ops. Inr (concat (map op_bytes ops)), al_tokenize = \<lambda>_. ([], None),
     al_hasOpSuccess = \<lambda>_. False, al_makeScriptNum = \<lambda>_ _. Inl [], al_xOnly = \<lambda>k. take 32 (k @ replicate 32 0),
     al_compressed = \<lambda>k. k, al_parseXOnly = \<lambda>bs. if length bs = 32 then Inr bs else Inl ''key'',
     al_writeVarInt = \<lambda>n. le_bytes 8 (unat n), al_readVarInt = ex_readVarInt, al_readVarBytes = ex_readVarBytes,
     al_lockTimeToSequence = \<lambda>x. x, al_tapLeafHash = \<lambda>v s. of_nat (length s), al_tapBranch = \<lambda>a b. 3 * a + b,
     al_numsKey = [1], al_outputKey = \<lambda>k r. k, al_payToTaproot = \<lambda>k. Inr (0x51 # k),
     al_controlBlockBytes = \<lambda>_. Inr [1], 
     al_parseControlBlock = \<lambda>_. Inr \<lparr>cb_internalKey = [1], cb_outputKeyYIsOdd = False, cb_leafVersion = 0xc0, cb_inclusionProof = []\<rparr>,
     al_controlBlockRoot = \<lambda>_ _. 0\<rparr>"

lemma length_le_bytes [simp]: "length (le_bytes k n) = k"
  by (induction k arbitrary: n) simp_all

lemma le_value_bytes: "n < 256 ^ k \<Longrightarrow> le_value (le_bytes k n) = n"
  by (induction k arbitrary: n) (simp_all add: unsigned_of_nat take_bit_nat_eq_self less_mult_imp_div_less mult.commute)

lemma le_bytes_value: "length bs = k \<Longrightarrow> le_bytes k (le_value bs) = bs"
proof (induction bs arbitrary: k)
  case (Cons b bs)
  have "unat b < 256" using unsigned_less [of b, where ?'a = nat] by simp
  with Cons show ?case by auto
qed simp

lemma le_value_less: "le_value bs < 256 ^ length bs"
proof (induction bs)
  case (Cons b bs)
  have "unat b < 256" using unsigned_less [of b, where ?'a = nat] by simp
  with Cons show ?case by simp
qed simp

lemma ex_readVarInt_write: "ex_readVarInt (le_bytes 8 (unat (n :: u64)) @ rest) = Inr (n, rest)"
  using unsigned_less [of n, where ?'a = nat] le_value_bytes [of "unat n" 8] by (simp add: ex_readVarInt_def)

lemma ex_readVarInt_Inr:
  assumes "ex_readVarInt bs = Inr (n, rest)"
  shows "bs = le_bytes 8 (unat n) @ rest"
proof -
  have len: "length (take 8 bs) = 8" and n: "n = of_nat (le_value (take 8 bs))" and rest: "rest = drop 8 bs"
    using assms by (auto simp: ex_readVarInt_def split: if_splits)
  have "unat n = le_value (take 8 bs)"
    using le_value_less [of "take 8 bs"] len by (simp add: n unsigned_of_nat take_bit_nat_eq_self)
  then show ?thesis using le_bytes_value [OF len] rest by simp
qed

lemma ex_wire: "wire_laws ex_ark"
proof -
  have "ex_readVarBytes (le_bytes 8 (unat (of_nat (length v) :: u64)) @ v @ rest) m = Inr (v, rest)"
    if "length v \<le> m" "m < 2 ^ 32" for v rest m
    using that by (simp only: ex_readVarBytes_def ex_readVarInt_write bindR_simps prod.case)
      (simp add: unsigned_of_nat take_bit_nat_eq_self)
  moreover have "length v \<le> m \<and> bs = le_bytes 8 (unat (of_nat (length v) :: u64)) @ v @ rest"
    if "ex_readVarBytes bs m = Inr (v, rest)" for bs v rest m
    using that by (auto simp: ex_readVarBytes_def dest!: ex_readVarInt_Inr split: if_splits)
  ultimately show ?thesis
    using ex_readVarInt_write ex_readVarInt_Inr by (simp add: wire_laws_def ex_ark_def)
qed

lemma ex_keys: "key_laws ex_ark"
proof -
  have "length (take 32 (k @ replicate 32 (0 :: byte))) = 32" for k :: "byte list" by simp
  then show ?thesis by (auto simp: key_laws_def ex_ark_def)
qed

definition ex_owner :: pubKey where "ex_owner = replicate 32 2"
definition ex_operator :: pubKey where "ex_operator = replicate 32 3"

definition ex_template :: policyTemplate where
  "ex_template = \<lparr>pt_leaves = [\<lparr>lt_node = Some (Multisig [Some ex_owner, Some ex_operator])\<rparr>,
     \<lparr>lt_node = Some (CSV 5 (Some (Multisig [Some ex_owner])))\<rparr>]\<rparr>"

lemma ex_template_encoded:
  "PolicyTemplate_Encode ex_ark (Some ex_template) = Inr (projr (PolicyTemplate_Encode ex_ark (Some ex_template)))"
  "template_within ex_ark ex_template" "canon_template ex_ark ex_template = ex_template"
  by (simp_all add: PolicyTemplate_Encode_def ex_template_def LeafTemplate_Encode_def template_within_def leaf_within_def
      MaxPolicyLeaves_def MaxPolicyDepth_def MaxPolicyNodes_def MaxMultisigKeys_def MaxLeafTemplateBytes_def
      MaxPolicyTemplateBytes_def leaf_depth_def ex_ark_def writeVarBytes_def canon_template_def canon_leaf_def
      lift_key_def ex_owner_def ex_operator_def)

theorem DecodePolicyTemplate_iff_witness:
  "DecodePolicyTemplate ex_ark (projr (PolicyTemplate_Encode ex_ark (Some ex_template))) = Inr ex_template"
  unfolding DecodePolicyTemplate_iff [OF ex_wire ex_keys] using ex_template_encoded by simp

theorem template_roundtrip_scripts_witness:
  "\<exists>t'. DecodePolicyTemplate ex_ark (projr (PolicyTemplate_Encode ex_ark (Some ex_template))) = Inr t' \<and>
     compile_scripts ex_ark 0 (pt_leaves t') = compile_scripts ex_ark 0 (pt_leaves ex_template)"
  by (rule template_roundtrip_scripts [OF ex_wire ex_keys ex_template_encoded(1,2)])

end
