(* ===== verification/Ark_Tree_Facts.thy ===== *)
theory Ark_Tree_Facts
  imports Ark_Tree Ark_Codec_Facts
begin

text \<open>
  The canonical order of leaves is a linear order and the insertion sort sorts by it, so a
  policy's tree does not depend on the order its leaves were written in; every inclusion proof leads to the
  root; a spend path derived from a compiled policy commits to the policy's output script.
\<close>

section \<open>The order of leaves\<close>

lemma bytesCompare_values: "bytesCompare xs ys \<in> {- 1, 0, 1}"
  by (induction xs ys rule: bytesCompare.induct) auto

lemma bytesCompare_eq_0 [simp]: "bytesCompare xs ys = 0 \<longleftrightarrow> xs = ys"
  by (induction xs ys rule: bytesCompare.induct) auto

lemma bytesCompare_sym: "bytesCompare ys xs = - bytesCompare xs ys"
  by (induction xs ys rule: bytesCompare.induct) auto

lemma bytesCompare_refl [simp]: "bytesCompare xs xs = 0"
  by simp

lemma bytesCompare_Nil [simp]: "bytesCompare [] zs \<le> 0"
  by (cases zs) auto

lemma bytesCompare_trans: "bytesCompare xs ys \<le> 0 \<Longrightarrow> bytesCompare ys zs \<le> 0 \<Longrightarrow> bytesCompare xs zs \<le> 0"
proof (induction xs ys arbitrary: zs rule: bytesCompare.induct)
  case (4 x xs y ys)
  then show ?case by (cases zs) (auto split: if_splits)
qed auto

instantiation policyLeaf :: linorder
begin

definition less_eq_policyLeaf :: "policyLeaf \<Rightarrow> policyLeaf \<Rightarrow> bool" where
  "a \<le> b \<longleftrightarrow> CompareTo a b \<le> 0"

definition less_policyLeaf :: "policyLeaf \<Rightarrow> policyLeaf \<Rightarrow> bool" where
  "a < b \<longleftrightarrow> CompareTo a b < 0"

instance
proof
  fix a b c :: policyLeaf
  show "a < b \<longleftrightarrow> a \<le> b \<and> \<not> b \<le> a"
    using bytesCompare_sym [of "pl_script b" "pl_script a"]
    by (auto simp: less_eq_policyLeaf_def less_policyLeaf_def CompareTo_def)
  show "a \<le> a" by (simp add: less_eq_policyLeaf_def CompareTo_def)
  show "a \<le> b \<Longrightarrow> b \<le> c \<Longrightarrow> a \<le> c"
    using bytesCompare_trans [of "pl_script a" "pl_script b" "pl_script c"]
    by (auto simp: less_eq_policyLeaf_def CompareTo_def split: if_splits)
  show "a \<le> b \<Longrightarrow> b \<le> a \<Longrightarrow> a = b"
    using bytesCompare_sym [of "pl_script b" "pl_script a"] bytesCompare_eq_0 [of "pl_script a" "pl_script b"]
    by (auto simp: less_eq_policyLeaf_def CompareTo_def intro: policyLeaf.expand split: if_splits)
  show "a \<le> b \<or> b \<le> a"
    using bytesCompare_sym [of "pl_script b" "pl_script a"]
    by (auto simp: less_eq_policyLeaf_def CompareTo_def)
qed

end

section \<open>The insertion sort\<close>

lemma length_sink_leaf [simp]: "length (sink_leaf j ls) = length ls"
  by (induction j ls rule: sink_leaf.induct) simp_all

lemma drop_sink_leaf: "drop (Suc j) (sink_leaf j ls) = drop (Suc j) ls"
proof (induction j ls rule: sink_leaf.induct)
  case (2 j ls)
  have tl: "drop (Suc (Suc j)) xs = tl (drop (Suc j) xs)" for xs :: "policyLeaf list"
    by (simp add: drop_Suc tl_drop)
  show ?case
  proof (cases "CompareTo (ls ! Suc j) (ls ! j) < 0")
    case True
    with "2.IH" show ?thesis by (simp add: tl [of "sink_leaf j _"]) (simp add: tl [symmetric])
  qed simp
qed simp

lemma sorted_mset_unique:
  fixes xs ys :: "'a :: linorder list"
  assumes "sorted xs" "sorted ys" "mset xs = mset ys"
  shows "xs = ys"
  using properties_for_sort [OF assms(3,1)] assms(2) by (simp add: sort_key_id_if_sorted)

lemma insort_last:
  assumes "sorted (xs @ [y])"
  shows "insort (x :: 'a :: linorder) (xs @ [y]) = (if x < y then insort x xs @ [y] else xs @ [y, x])"
proof (rule sorted_mset_unique)
  show "sorted (insort x (xs @ [y]))" using assms by (simp add: sorted_insort)
  show "sorted (if x < y then insort x xs @ [y] else xs @ [y, x])"
    using assms by (auto simp: sorted_append sorted_insort set_insort_key)
qed auto

lemma take_sink_leaf:
  "j < length ls \<Longrightarrow> sorted (take j ls) \<Longrightarrow> take (Suc j) (sink_leaf j ls) = insort (ls ! j) (take j ls)"
proof (induction j ls rule: sink_leaf.induct)
  case (1 ls)
  then show ?case by (cases ls) auto
next
  case (2 j ls)
  have pre: "take (Suc j) ls = take j ls @ [ls ! j]"
    using "2.prems"(1) by (simp add: take_Suc_conv_app_nth)
  have sorted: "sorted (take j ls @ [ls ! j])"
    using "2.prems"(2) pre by simp
  show ?case
  proof (cases "CompareTo (ls ! Suc j) (ls ! j) < 0")
    case True
    define ls' where "ls' = ls[Suc j := ls ! j, j := ls ! Suc j]"
    have len: "Suc j < length ls'" and x: "ls' ! j = ls ! Suc j" "ls' ! Suc j = ls ! j" and tk: "take j ls' = take j ls"
      using "2.prems"(1) by (simp_all add: ls'_def)
    have "take (Suc j) (sink_leaf j ls') = insort (ls ! Suc j) (take j ls)"
      using "2.IH" [OF True] "2.prems"(1) sorted x(1) tk by (simp add: ls'_def sorted_append)
    moreover have "sink_leaf j ls' ! Suc j = ls ! j"
      using drop_sink_leaf [of j ls'] len x(2)
      by (metis Cons_nth_drop_Suc length_sink_leaf list.inject)
    ultimately show ?thesis
      using True len sorted pre insort_last [OF sorted, of "ls ! Suc j"]
      by (simp add: ls'_def [symmetric] less_policyLeaf_def take_Suc_conv_app_nth [of "Suc j"])
  next
    case False
    then show ?thesis
      using "2.prems"(1) pre insort_last [OF sorted, of "ls ! Suc j"]
      by (simp add: less_policyLeaf_def take_Suc_conv_app_nth)
  qed
qed

lemma fold_sink_leaf:
  assumes "0 < n" "n \<le> length ls"
  shows "fold sink_leaf [1..<n] ls = sort (take n ls) @ drop n ls"
  using assms
proof (induction n)
  case (Suc n)
  show ?case
  proof (cases "n = 0")
    case True
    with Suc.prems show ?thesis by (cases ls) auto
  next
    case False
    define ys where "ys = sort (take n ls) @ drop n ls"
    have ys: "fold sink_leaf [1..<Suc n] ls = sink_leaf n ys"
      using Suc False by (simp add: ys_def)
    have len: "length ys = length ls" "n < length ys" "ys ! n = ls ! n" "take n ys = sort (take n ls)"
      using Suc.prems by (simp_all add: ys_def nth_append min_def)
    have "take (Suc n) (sink_leaf n ys) = insort (ls ! n) (sort (take n ls))"
      using take_sink_leaf [of n ys] len by simp
    moreover have "insort (ls ! n) (sort (take n ls)) = sort (take (Suc n) ls)"
    proof (rule properties_for_sort [symmetric])
      show "mset (insort (ls ! n) (sort (take n ls))) = mset (take (Suc n) ls)"
        using Suc.prems by (simp add: take_Suc_conv_app_nth)
    qed (simp add: sorted_insort)
    moreover have "drop (Suc n) (sink_leaf n ys) = drop (Suc n) ls"
      using drop_sink_leaf [of n ys] Suc.prems by (simp add: ys_def)
    ultimately show ?thesis
      unfolding ys by (metis append_take_drop_id)
  qed
qed simp

lemma sortLeaves_sort: "sortLeaves ls = sort ls"
  using fold_sink_leaf [of "length ls" ls] by (cases ls) (auto simp: sortLeaves_def)

section \<open>Inclusion proofs\<close>

lemma tapBranchHash_comm: "tapBranchHash lib a b = tapBranchHash lib b a"
  by (auto simp: tapBranchHash_def)

definition proof_root :: "arkLib \<Rightarrow> hash \<Rightarrow> hash list \<Rightarrow> hash" where
  "proof_root lib h prf = foldl (tapBranchHash lib) h prf"

lemma buildTree_proofs:
  assumes "hashes \<noteq> []" and "buildTreeRecursive lib hashes = (root, proofs)"
  shows "length proofs = length hashes \<and> (\<forall>i < length hashes. proof_root lib (hashes ! i) (proofs ! i) = root)"
  using assms
proof (induction "length hashes" arbitrary: hashes root proofs rule: less_induct)
  case less
  show ?case
  proof (cases "length hashes \<le> 1")
    case True
    then obtain h where "hashes = [h]"
      using less.prems(1) by (cases hashes) auto
    then show ?thesis
      using less.prems(2) by (auto simp: buildTreeRecursive.simps proof_root_def)
  next
    case False
    define mid where "mid = length hashes div 2"
    obtain l pl r pr where l: "buildTreeRecursive lib (take mid hashes) = (l, pl)"
      and r: "buildTreeRecursive lib (drop mid hashes) = (r, pr)"
      by fastforce
    have res: "root = tapBranchHash lib l r" "proofs = map (\<lambda>p. p @ [r]) pl @ map (\<lambda>p. p @ [l]) pr"
      using less.prems(2) False l r by (auto simp: buildTreeRecursive.simps [of lib hashes] mid_def Let_def)
    have mid: "0 < mid" "mid < length hashes" using False by (auto simp: mid_def)
    have L: "length pl = mid" "\<And>i. i < mid \<Longrightarrow> proof_root lib (hashes ! i) (pl ! i) = l"
      using less.hyps [OF _ _ l] mid less.prems(1) by auto
    have R: "length pr = length hashes - mid"
      "\<And>i. i < length hashes - mid \<Longrightarrow> proof_root lib (hashes ! (mid + i)) (pr ! i) = r"
      using less.hyps [OF _ _ r] mid less.prems(1) by auto
    have "proof_root lib (hashes ! i) (proofs ! i) = root" if i: "i < length hashes" for i
    proof (cases "i < mid")
      case True
      then show ?thesis using L by (simp add: res nth_append proof_root_def)
    next
      case False
      then show ?thesis
        using L(1) R(1) R(2) [of "i - mid"] i mid
        by (simp add: res nth_append proof_root_def tapBranchHash_comm [of lib l r])
    qed
    then show ?thesis using L(1) R(1) mid by (simp add: res)
  qed
qed

text \<open>The tree is balanced: the proofs of at most \<open>2 ^ k\<close> leaves have at most \<open>k\<close> siblings.\<close>

lemma buildTree_depth:
  assumes "buildTreeRecursive lib hashes = (root, proofs)" and "length hashes \<le> 2 ^ k" and "pf \<in> set proofs"
  shows "length pf \<le> k"
  using assms
proof (induction k arbitrary: hashes root proofs pf)
  case 0
  then show ?case by (auto simp: buildTreeRecursive.simps)
next
  case (Suc k)
  show ?case
  proof (cases "length hashes \<le> 1")
    case True
    then show ?thesis using Suc.prems by (auto simp: buildTreeRecursive.simps)
  next
    case False
    define mid where "mid = length hashes div 2"
    obtain l pl r pr where l: "buildTreeRecursive lib (take mid hashes) = (l, pl)"
      and r: "buildTreeRecursive lib (drop mid hashes) = (r, pr)"
      by fastforce
    have "proofs = map (\<lambda>p. p @ [r]) pl @ map (\<lambda>p. p @ [l]) pr"
      using Suc.prems(1) False l r by (auto simp: buildTreeRecursive.simps [of lib hashes] mid_def Let_def)
    moreover have "length (take mid hashes) \<le> 2 ^ k" "length (drop mid hashes) \<le> 2 ^ k"
      using Suc.prems(2) by (auto simp: mid_def)
    ultimately show ?thesis
      using Suc.IH [OF l] Suc.IH [OF r] Suc.prems(3) by auto
  qed
qed

section \<open>Compiled policies\<close>

lemma BuildTree_Inr:
  assumes "BuildTree lib leaves key = Inr p"
  shows "cp_leaves p = sort leaves" and "cp_internalKey p = al_numsKey lib" and "leaves \<noteq> []"
    and "length (cp_merkleProofs p) = length leaves"
    and "i < length leaves \<Longrightarrow> proof_root lib (TapHash lib (cp_leaves p ! i)) (cp_merkleProofs p ! i) = cp_rootHash p"
    and "length leaves \<le> 2 ^ k \<Longrightarrow> i < length leaves \<Longrightarrow> length (cp_merkleProofs p ! i) \<le> k"
proof -
  have ne: "leaves \<noteq> []" and nums: "key = Some (al_numsKey lib)"
    using assms by (auto simp: BuildTree_def split: option.splits if_splits)
  obtain root proofs where b: "buildTreeRecursive lib (map (TapHash lib) (sort leaves)) = (root, proofs)"
    by fastforce
  have p: "p = \<lparr>cp_internalKey = al_numsKey lib, cp_leaves = sort leaves, cp_rootHash = root,
      cp_leafHashes = map (TapHash lib) (sort leaves), cp_merkleProofs = proofs\<rparr>"
    using assms ne nums b by (auto simp: BuildTree_def sortLeaves_sort Let_def)
  note proofs = buildTree_proofs [OF _ b]
  show "cp_leaves p = sort leaves" "cp_internalKey p = al_numsKey lib" "leaves \<noteq> []" using p ne by simp_all
  have ne': "map (TapHash lib) (sort leaves) \<noteq> []"
    using ne by (metis length_0_conv length_map length_sort)
  show "length (cp_merkleProofs p) = length leaves" using proofs [OF ne'] p by simp
  show "proof_root lib (TapHash lib (cp_leaves p ! i)) (cp_merkleProofs p ! i) = cp_rootHash p" if "i < length leaves"
    using proofs [OF ne'] p that by simp
  show "length (cp_merkleProofs p ! i) \<le> k" if "length leaves \<le> 2 ^ k" "i < length leaves"
    using buildTree_depth [OF b, of k] proofs [OF ne'] p that by simp
qed

lemma script_index_ge:
  assumes "script_index i ls script \<ge> 0"
  shows "\<exists>k < length ls. script_index i ls script = int (i + k) \<and> pl_script (ls ! k) = script"
  using assms
proof (induction i ls script rule: script_index.induct)
  case (2 i l ls script)
  show ?case
  proof (cases "pl_script l = script")
    case True
    then show ?thesis by (intro exI [of _ 0]) simp
  next
    case False
    with 2 obtain k where "k < length ls" "script_index (Suc i) ls script = int (Suc i + k)" "pl_script (ls ! k) = script"
      by auto
    with False show ?thesis by (intro exI [of _ "Suc k"]) simp
  qed
qed simp

lemma script_index_found: "script \<in> pl_script ` set ls \<Longrightarrow> script_index i ls script \<ge> 0"
  by (induction i ls script rule: script_index.induct) auto

text \<open>
  What the binding relies on of the control blocks of \<open>txscript\<close> (BIP-341): a serialized block is not
  empty; parsing it gives its leaf version, its proof and the x-only internal key back, provided that the
  lowest bit of the leaf version is clear (the serialization puts the parity of the output key there)
  and that the proof has at most 128 siblings (the parser refuses longer blocks); and the root of a
  block is the leaf's hash combined with the proof's siblings, each pair in order.
\<close>

definition controlBlockMaxNodeCount :: nat where
  "controlBlockMaxNodeCount = 128"

definition taproot_laws :: "arkLib \<Rightarrow> bool" where
  "taproot_laws lib \<longleftrightarrow>
     (\<forall>cb bs. al_controlBlockBytes lib cb = Inr bs \<longrightarrow> bs \<noteq> []) \<and>
     (\<forall>cb bs. al_controlBlockBytes lib cb = Inr bs \<longrightarrow> even (cb_leafVersion cb) \<longrightarrow>
        length (cb_inclusionProof cb) \<le> controlBlockMaxNodeCount \<longrightarrow>
        (\<exists>cb'. al_parseControlBlock lib bs = Inr cb' \<and>
           al_xOnly lib (cb_internalKey cb') = al_xOnly lib (cb_internalKey cb) \<and>
           cb_leafVersion cb' = cb_leafVersion cb \<and> cb_inclusionProof cb' = cb_inclusionProof cb)) \<and>
     (\<forall>cb script. al_controlBlockRoot lib cb script =
        foldl (\<lambda>a b. if a \<le> b then al_tapBranch lib a b else al_tapBranch lib b a)
          (al_tapLeafHash lib (cb_leafVersion cb) script) (cb_inclusionProof cb))"

lemma taproot_block:
  assumes "taproot_laws lib" and "al_controlBlockBytes lib cb = Inr bs"
    and "even (cb_leafVersion cb)" and "length (cb_inclusionProof cb) \<le> controlBlockMaxNodeCount"
  obtains cb' where "bs \<noteq> []" "al_parseControlBlock lib bs = Inr cb'"
    "al_xOnly lib (cb_internalKey cb') = al_xOnly lib (cb_internalKey cb)"
    "al_controlBlockRoot lib cb' script = proof_root lib (al_tapLeafHash lib (cb_leafVersion cb) script) (cb_inclusionProof cb)"
proof -
  have step: "(\<lambda>a b. if a \<le> b then al_tapBranch lib a b else al_tapBranch lib b a) = tapBranchHash lib"
    by (intro ext) (auto simp: tapBranchHash_def)
  obtain cb' where "bs \<noteq> []" "al_parseControlBlock lib bs = Inr cb'"
    "al_xOnly lib (cb_internalKey cb') = al_xOnly lib (cb_internalKey cb)"
    "cb_leafVersion cb' = cb_leafVersion cb" "cb_inclusionProof cb' = cb_inclusionProof cb"
    using assms unfolding taproot_laws_def by blast
  moreover have "al_controlBlockRoot lib cb' script
      = proof_root lib (al_tapLeafHash lib (cb_leafVersion cb') script) (cb_inclusionProof cb')"
    using assms(1) unfolding taproot_laws_def step proof_root_def by blast
  ultimately show ?thesis using that by simp
qed

lemma compile_scripts_member:
  "compile_scripts lib i ls = Inr scripts \<Longrightarrow> l \<in> set ls \<Longrightarrow> \<exists>script \<in> set scripts. LeafTemplate_Script lib l = Inr script"
  by (induction ls arbitrary: i scripts) auto

lemma control_block_binds:
  assumes "taproot_laws lib" and b: "BuildTree lib leaves key = Inr p" and i: "i < length (cp_leaves p)"
    and cb: "buildControlBlock lib p i = Inr cb" and "al_payToTaproot lib (OutputKey lib p) = Inr pk" "pk \<noteq> []"
    and "pl_script (cp_leaves p ! i) \<noteq> []"
    and "even (pl_leafVersion (cp_leaves p ! i))" and "length leaves \<le> 2 ^ controlBlockMaxNodeCount"
  shows "VerifyBindsToPkScript lib (Some \<lparr>sp_spendInfo = Some \<lparr>si_witnessScript = pl_script (cp_leaves p ! i),
     si_controlBlock = cb\<rparr>, sp_requiredSequence = sq, sp_requiredLockTime = lt, sp_conditions = cs\<rparr>) pk = None"
proof -
  note tree = BuildTree_Inr [OF b]
  define block where "block = \<lparr>cb_internalKey = cp_internalKey p,
     cb_outputKeyYIsOdd = (hd (al_compressed lib (OutputKey lib p)) = 0x03),
     cb_leafVersion = pl_leafVersion (cp_leaves p ! i), cb_inclusionProof = cp_merkleProofs p ! i\<rparr>"
  have "al_controlBlockBytes lib block = Inr cb" "even (cb_leafVersion block)"
    "length (cb_inclusionProof block) \<le> controlBlockMaxNodeCount"
    using cb assms(8,9) tree(6) [of _ i] i tree(1) by (simp_all add: buildControlBlock_def block_def)
  then obtain cb' where cb': "cb \<noteq> []" "al_parseControlBlock lib cb = Inr cb'"
    "al_xOnly lib (cb_internalKey cb') = al_xOnly lib (cb_internalKey block)"
    "al_controlBlockRoot lib cb' (pl_script (cp_leaves p ! i)) =
       proof_root lib (al_tapLeafHash lib (cb_leafVersion block) (pl_script (cp_leaves p ! i))) (cb_inclusionProof block)"
    using taproot_block [OF assms(1), where script = "pl_script (cp_leaves p ! i)"] by metis
  have "al_controlBlockRoot lib cb' (pl_script (cp_leaves p ! i)) = cp_rootHash p"
    using cb'(4) tree(5) [of i] i tree(1) by (simp add: block_def TapHash_def)
  with cb' assms(5-7) tree(2) show ?thesis
    by (simp add: VerifyBindsToPkScript_def SpendPath_Validate_def Let_def block_def OutputKey_def)
qed

lemma compile_scripts_Inr:
  "compile_scripts lib i ls = Inr scripts \<longleftrightarrow>
     (\<forall>l \<in> set ls. okR (LeafTemplate_Script lib l)) \<and> scripts = map (\<lambda>l. projr (LeafTemplate_Script lib l)) ls"
  by (induction ls arbitrary: i scripts) (auto simp: okR_iff)

lemma compile_scripts_mset:
  assumes "compile_scripts lib i ls = Inr scripts" and "mset ls = mset ls'"
  shows "\<exists>scripts'. compile_scripts lib j ls' = Inr scripts' \<and> mset scripts' = mset scripts"
proof -
  have "mset (map (\<lambda>l. projr (LeafTemplate_Script lib l)) ls') = mset (map (\<lambda>l. projr (LeafTemplate_Script lib l)) ls)"
    using assms(2) by simp
  then show ?thesis
    using assms(1) mset_eq_setD [OF assms(2)] unfolding compile_scripts_Inr by auto
qed

lemma BuildTree_mset:
  assumes "mset leaves = mset leaves'"
  shows "BuildTree lib leaves key = BuildTree lib leaves' key"
proof -
  have "sort leaves = sort leaves'" using assms by (intro sorted_mset_unique) simp_all
  moreover have "length leaves = length leaves'" using assms by (rule mset_eq_length)
  ultimately show ?thesis by (simp only: BuildTree_def sortLeaves_sort)
qed

lemma Compile_mset:
  assumes "Compile lib (Some t) = Inr p" and "mset (pt_leaves t') = mset (pt_leaves t)"
  shows "Compile lib (Some t') = Inr p"
proof -
  obtain scripts where s: "compile_scripts lib 0 (pt_leaves t) = Inr scripts"
    "BuildTree lib (map (PolicyLeaf BaseLeafVersion) scripts) (Some (al_numsKey lib)) = Inr p"
    and ne: "pt_leaves t \<noteq> []"
    using assms(1) by (auto simp: Compile_def split: if_splits)
  obtain scripts' where s': "compile_scripts lib 0 (pt_leaves t') = Inr scripts'" "mset scripts' = mset scripts"
    using compile_scripts_mset [OF s(1) assms(2) [symmetric]] by blast
  have "pt_leaves t' \<noteq> []" using assms(2) ne by auto
  then show ?thesis
    using s s'(1) BuildTree_mset [of "map (PolicyLeaf BaseLeafVersion) scripts'" "map (PolicyLeaf BaseLeafVersion) scripts"] s'(2)
    by (simp add: Compile_def)
qed

lemma leaf_found:
  assumes "Compile lib (Some t) = Inr p" and "\<lparr>lt_node = Some n\<rparr> \<in> set (pt_leaves t)" and "Script lib n = Inr script"
  obtains i where "i < length (cp_leaves p)" "ScriptIndex p script = int i" "pl_script (cp_leaves p ! i) = script"
proof -
  obtain scripts where s: "compile_scripts lib 0 (pt_leaves t) = Inr scripts"
    and b: "BuildTree lib (map (PolicyLeaf BaseLeafVersion) scripts) (Some (al_numsKey lib)) = Inr p"
    using assms(1) by (auto simp: Compile_def split: if_splits)
  have "script \<in> set scripts"
    using compile_scripts_member [OF s assms(2)] assms(3) by (simp add: LeafTemplate_Script_def)
  then have "script \<in> pl_script ` set (cp_leaves p)"
    by (force simp: BuildTree_Inr(1) [OF b])
  from script_index_ge [OF script_index_found [OF this, of 0]] that show ?thesis
    by (auto simp: ScriptIndex_def)
qed

lemma spend_info_binds:
  assumes "taproot_laws lib" and "Compile lib (Some t) = Inr p" and "PkScript lib (Some t) = Inr pk" "pk \<noteq> []"
    and "i < length (cp_leaves p)" "pl_script (cp_leaves p ! i) = script" "script \<noteq> []"
    and "buildControlBlock lib p i = Inr cb" and "length (pt_leaves t) \<le> 2 ^ controlBlockMaxNodeCount"
  shows "VerifyBindsToPkScript lib (Some \<lparr>sp_spendInfo = Some \<lparr>si_witnessScript = script, si_controlBlock = cb\<rparr>,
     sp_requiredSequence = sq, sp_requiredLockTime = lt, sp_conditions = cs\<rparr>) pk = None"
proof -
  obtain scripts where s: "compile_scripts lib 0 (pt_leaves t) = Inr scripts"
    and b: "BuildTree lib (map (PolicyLeaf BaseLeafVersion) scripts) (Some (al_numsKey lib)) = Inr p"
    using assms(2) by (auto simp: Compile_def split: if_splits)
  have "cp_leaves p ! i \<in> set (map (PolicyLeaf BaseLeafVersion) scripts)"
    using nth_mem [OF assms(5)] by (simp add: BuildTree_Inr(1) [OF b])
  then have even: "even (pl_leafVersion (cp_leaves p ! i))"
    by (auto simp: BaseLeafVersion_def)
  have len: "length (map (PolicyLeaf BaseLeafVersion) scripts) \<le> 2 ^ controlBlockMaxNodeCount"
    using s assms(9) by (simp add: compile_scripts_Inr)
  have "al_payToTaproot lib (OutputKey lib p) = Inr pk" using assms(2,3) by (simp add: PkScript_def)
  then show ?thesis
    using control_block_binds [OF assms(1) b assms(5,8) _ assms(4) _ even len] assms(6,7) by simp
qed

section \<open>Properties\<close>

text \<open>
  C29: A policy's output does not depend on the order of its leaves: when a template compiles, every
  template with the same leaves in another order compiles to the same tree, output key and output script.
\<close>

theorem Compile_order_independent:
  assumes "Compile lib (Some t) = Inr p" and "mset (pt_leaves t') = mset (pt_leaves t)"
  shows "Compile lib (Some t') = Inr p \<and> PkScript lib (Some t') = PkScript lib (Some t)"
  using Compile_mset [OF assms] assms(1) by (simp add: PkScript_def)

text \<open>
  C28: A compiled policy can be spent by every leaf: for a template of at most \<open>2 ^ 128\<close> leaves whose
  output script is not empty, and for each of its leaves whose script is not empty, the spend path
  is found, carries that leaf's script and, whenever its control block serializes, passes the check
  that it commits to the policy's output script. The leaf versions are even and the proofs short
  enough for the control blocks to be parsed.
\<close>

theorem spend_path_binds:
  assumes "taproot_laws lib" and "Compile lib (Some t) = Inr p" and "PkScript lib (Some t) = Inr pk" "pk \<noteq> []"
    and "\<lparr>lt_node = Some n\<rparr> \<in> set (pt_leaves t)" and "Script lib n = Inr script" "script \<noteq> []"
    and "length (pt_leaves t) \<le> 2 ^ controlBlockMaxNodeCount"
  shows "\<exists>i < length (cp_leaves p). pl_script (cp_leaves p ! i) = script \<and>
     SpendPathForNode lib p n conds = bindR (buildControlBlock lib p i) (\<lambda>cb.
       Inr \<lparr>sp_spendInfo = Some \<lparr>si_witnessScript = script, si_controlBlock = cb\<rparr>,
            sp_requiredSequence = DeriveSequence lib n, sp_requiredLockTime = DeriveLockTime lib n,
            sp_conditions = conds\<rparr>) \<and>
     (\<forall>sp. SpendPathForNode lib p n conds = Inr sp \<longrightarrow> VerifyBindsToPkScript lib (Some sp) pk = None)"
proof -
  obtain i where i: "i < length (cp_leaves p)" "ScriptIndex p script = int i" "pl_script (cp_leaves p ! i) = script"
    by (rule leaf_found [OF assms(2,5,6)])
  have eq: "SpendPathForNode lib p n conds = bindR (buildControlBlock lib p i) (\<lambda>cb.
       Inr \<lparr>sp_spendInfo = Some \<lparr>si_witnessScript = script, si_controlBlock = cb\<rparr>,
            sp_requiredSequence = DeriveSequence lib n, sp_requiredLockTime = DeriveLockTime lib n,
            sp_conditions = conds\<rparr>)"
    using i assms(6)
    by (cases "buildControlBlock lib p i")
      (simp_all add: SpendPathForNode_def SpendInfoForNode_def SpendInfo_def DeriveLockTime_def cloneWitnessItems_def)
  moreover have "VerifyBindsToPkScript lib (Some sp) pk = None" if sp: "SpendPathForNode lib p n conds = Inr sp" for sp
    using spend_info_binds [OF assms(1-4) i(1,3) assms(7) _ assms(8)] sp eq by auto
  ultimately show ?thesis using i by blast
qed

section \<open>Witnesses\<close>

text \<open>
  A concrete library: control blocks hold the version with the parity of the output key in its lowest
  bit, the x-only key and the siblings in unary, and the output key commits to the root.
\<close>

definition hash_bytes :: "hash \<Rightarrow> byte list" where
  "hash_bytes h = replicate (unat h) 1 @ [0]"

fun read_hashes :: "byte list \<Rightarrow> nat \<Rightarrow> hash list" where
  "read_hashes [] k = []"
| "read_hashes (b # bs) k = (if b = 0 then of_nat k # read_hashes bs 0 else read_hashes bs (Suc k))"

definition root_bytes :: "hash \<Rightarrow> byte list" where
  "root_bytes h = map (\<lambda>i. ucast (drop_bit (8 * i) h)) [0..<32]"

definition ex_tree_lib :: arkLib where
  "ex_tree_lib = ex_ark\<lparr>
     al_outputKey := \<lambda>k root. k @ root_bytes root,
     al_controlBlockBytes := \<lambda>cb. Inr ((cb_leafVersion cb + of_bool (cb_outputKeyYIsOdd cb)) #
       al_xOnly ex_ark (cb_internalKey cb) @ concat (map hash_bytes (cb_inclusionProof cb))),
     al_parseControlBlock := \<lambda>bs. if length bs < 33 then Inl ''block''
       else Inr \<lparr>cb_internalKey = take 32 (tl bs), cb_outputKeyYIsOdd = odd (hd bs), cb_leafVersion = 2 * (hd bs div 2),
              cb_inclusionProof = read_hashes (drop 33 bs) 0\<rparr>,
     al_controlBlockRoot := \<lambda>cb script. foldl (\<lambda>a b. if a \<le> b then 3 * a + b else 3 * b + a)
       (of_nat (length script)) (cb_inclusionProof cb)\<rparr>"

lemma read_hash_bytes: "read_hashes (replicate n 1 @ [0] @ rest) k = of_nat (k + n) # read_hashes rest 0"
  by (induction n arbitrary: k) simp_all

lemma read_hashes_concat: "read_hashes (concat (map hash_bytes hs)) 0 = hs"
  by (induction hs) (simp_all add: hash_bytes_def read_hash_bytes [simplified])

lemma ex_taproot: "taproot_laws ex_tree_lib"
proof -
  have sel: "al_tapBranch ex_tree_lib = (\<lambda>a b. 3 * a + b)" "al_tapLeafHash ex_tree_lib = (\<lambda>v s. of_nat (length s))"
    by (simp_all add: ex_tree_lib_def ex_ark_def)
  have v: "2 * ((v + of_bool b) div 2) = v" if "even v" for v :: byte and b
    using that mult_div_mod_eq [of 2 v] even_half_succ_eq [OF that]
    by (cases b) (simp_all add: even_iff_mod_2_eq_zero add.commute)
  have x: "length (al_xOnly ex_ark k) = 32" "take 32 (al_xOnly ex_ark k) = al_xOnly ex_ark k"
    "al_xOnly ex_ark (al_xOnly ex_ark k) = al_xOnly ex_ark k" for k
    by (simp_all add: ex_ark_def)
  show ?thesis
    unfolding taproot_laws_def sel by (auto simp: ex_tree_lib_def read_hashes_concat v x)
qed

lemma ex_tree_compiles: "\<exists>p pk. Compile ex_tree_lib (Some ex_template) = Inr p \<and> PkScript ex_tree_lib (Some ex_template) = Inr pk \<and> pk \<noteq> []"
  by (simp add: Compile_def PkScript_def ex_template_def LeafTemplate_Script_def scriptChecksig_def ex_tree_lib_def ex_ark_def
      validateCSVLock_def SequenceLockTimeMask_def BuildTree_def Let_def OutputKey_def split: prod.split)

theorem Compile_order_independent_witness:
  "PkScript ex_tree_lib (Some \<lparr>pt_leaves = rev (pt_leaves ex_template)\<rparr>) = PkScript ex_tree_lib (Some ex_template)"
proof -
  obtain p where "Compile ex_tree_lib (Some ex_template) = Inr p" using ex_tree_compiles by blast
  from Compile_order_independent [OF this, of "\<lparr>pt_leaves = rev (pt_leaves ex_template)\<rparr>"] show ?thesis by simp
qed

theorem spend_path_binds_witness:
  "\<exists>p pk sp. Compile ex_tree_lib (Some ex_template) = Inr p \<and> PkScript ex_tree_lib (Some ex_template) = Inr pk \<and>
     SpendPathForNode ex_tree_lib p (CSV 5 (Some (Multisig [Some ex_owner]))) [] = Inr sp \<and>
     VerifyBindsToPkScript ex_tree_lib (Some sp) pk = None"
proof -
  obtain p pk where p: "Compile ex_tree_lib (Some ex_template) = Inr p" "PkScript ex_tree_lib (Some ex_template) = Inr pk" "pk \<noteq> []"
    using ex_tree_compiles by blast
  define n where "n = CSV 5 (Some (Multisig [Some ex_owner]))"
  have n: "\<lparr>lt_node = Some n\<rparr> \<in> set (pt_leaves ex_template)" by (simp add: ex_template_def n_def)
  obtain script where s: "Script ex_tree_lib n = Inr script" "script \<noteq> []"
    by (simp add: n_def ex_tree_lib_def ex_ark_def scriptChecksig_def op_bytes_def validateCSVLock_def SequenceLockTimeMask_def)
  have "length (pt_leaves ex_template) \<le> 2 ^ controlBlockMaxNodeCount"
    by (simp add: ex_template_def controlBlockMaxNodeCount_def)
  from spend_path_binds [OF ex_taproot p n s this, of "[]"] obtain i cb where
    "SpendPathForNode ex_tree_lib p n [] = bindR (buildControlBlock ex_tree_lib p i) cb" "okR (buildControlBlock ex_tree_lib p i)"
    "\<And>x. okR (cb x)" "\<forall>sp. SpendPathForNode ex_tree_lib p n [] = Inr sp \<longrightarrow> VerifyBindsToPkScript ex_tree_lib (Some sp) pk = None"
    by (fastforce simp: buildControlBlock_def ex_tree_lib_def)
  then show ?thesis using p unfolding n_def by (metis bindR_simps(2) okR_iff)
qed

end
