(* ===== verification/Ark_Policy_Facts.thy ===== *)
theory Ark_Policy_Facts
  imports Ark_Policy Ark_Tree_Facts
begin

text \<open>
  What the policy checks buy: an accepted policy gives the operator no leaf of its own and nobody
  else a leaf without the exit delay; the standard policy and the vHTLC policy are
  accepted and recognized for what they are; the vHTLC windows hold in exact arithmetic.
\<close>

section \<open>Who can spend a leaf\<close>

text \<open>
  \<open>authorises lib S age n\<close>: the holders of the keys \<open>S\<close> (x-only) can satisfy the leaf \<open>n\<close> of an output
  that is \<open>age\<close> blocks old. The predicate of a condition is taken as met, which only adds spends.
\<close>

fun authorises :: "arkLib \<Rightarrow> byte list set \<Rightarrow> nat \<Rightarrow> node \<Rightarrow> bool" where
  "authorises lib S age (Multisig keys) \<longleftrightarrow> (\<forall>k \<in> set keys. \<exists>key. k = Some key \<and> al_xOnly lib key \<in> S)"
| "authorises lib S age (CSV lock inner) \<longleftrightarrow>
     unat lock \<le> age \<and> (case inner of None \<Rightarrow> False | Some n \<Rightarrow> authorises lib S age n)"
| "authorises lib S age (Condition p inner) \<longleftrightarrow> (case inner of None \<Rightarrow> False | Some n \<Rightarrow> authorises lib S age n)"

lemma not_operator_alone:
  "okR (Script lib n) \<Longrightarrow> \<not> walkRejectOperatorUnilateral lib n target \<Longrightarrow> \<not> authorises lib {target} age n"
proof (induction n)
  case (Multisig keys)
  then have ne: "keys \<noteq> []" and "None \<notin> set keys"
    by (auto split: if_splits option.splits)
  then obtain k0 where k0: "Some k0 \<in> set keys" by (cases keys) (auto, metis option.exhaust)
  show ?case
  proof (cases "multisigContainsKey lib keys target")
    case True
    with Multisig.prems(2) show ?thesis
      by (fastforce simp: list_ex_iff split: option.splits)
  next
    case False
    then have "al_xOnly lib k0 \<noteq> target"
      using k0 by (fastforce simp: multisigContainsKey_def list_ex_iff)
    with k0 show ?thesis by auto
  qed
qed (auto simp: bindR_def okR_def split: option.splits if_splits sum.splits)

lemma exit_delay_enforced:
  "authorises lib S age n \<Longrightarrow> unat (extractCSVDelay n) \<le> age"
  by (induction n) (auto split: option.splits)

lemma operator_needed:
  "okR (Script lib n) \<Longrightarrow> containsKeyBytes lib n k \<Longrightarrow> authorises lib S age n \<Longrightarrow> k \<in> S"
  by (induction n) (fastforce simp: list_ex_iff bindR_def okR_def split: option.splits if_splits sum.splits)+

section \<open>Validation\<close>

lemma check_leaves_None:
  "check_leaves lib operatorKey i leaves = None \<longleftrightarrow>
     (\<forall>l \<in> set leaves. \<exists>n. l = Some n \<and> okR (Script lib n) \<and> \<not> rejectOperatorUnilateral lib n operatorKey)"
  by (induction lib operatorKey i leaves rule: check_leaves.induct) (auto simp: okR_def split: option.splits sum.splits)

lemma fold_min_le: "m \<le> fold min xs s \<longleftrightarrow> m \<le> s \<and> (\<forall>x \<in> set xs. (m :: 'a :: linorder) \<le> x)"
  by (induction xs arbitrary: s) auto

lemma smallest_lock_acc:
  "smallest_lock i ns (Some s) = (if \<forall>n \<in> set ns. extractCSVDelay n \<noteq> 0
     then Inr (Some (fold min (map extractCSVDelay ns) s)) else smallest_lock i ns (Some s))"
  "okR (smallest_lock i ns (Some s)) \<longleftrightarrow> (\<forall>n \<in> set ns. extractCSVDelay n \<noteq> 0)"
proof -
  show "okR (smallest_lock i ns (Some s)) \<longleftrightarrow> (\<forall>n \<in> set ns. extractCSVDelay n \<noteq> 0)"
    by (induction ns arbitrary: i s) (auto simp: Let_def)
  have "\<forall>n \<in> set ns. extractCSVDelay n \<noteq> 0 \<Longrightarrow>
      smallest_lock i ns (Some s) = Inr (Some (fold min (map extractCSVDelay ns) s))"
    by (induction ns arbitrary: i s) (auto simp: Let_def min_def not_less)
  then show "smallest_lock i ns (Some s) = (if \<forall>n \<in> set ns. extractCSVDelay n \<noteq> 0
     then Inr (Some (fold min (map extractCSVDelay ns) s)) else smallest_lock i ns (Some s))"
    by simp
qed

lemma smallest_lock_cases:
  assumes "ns \<noteq> []"
  shows "if \<forall>n \<in> set ns. extractCSVDelay n \<noteq> 0
    then \<exists>s. smallest_lock i ns None = Inr (Some s) \<and> (\<forall>m. m \<le> s \<longleftrightarrow> (\<forall>n \<in> set ns. m \<le> extractCSVDelay n))
    else \<exists>e. smallest_lock i ns None = Inl e"
proof (cases ns)
  case (Cons n more)
  show ?thesis
  proof (cases "\<forall>n \<in> set ns. extractCSVDelay n \<noteq> 0")
    case True
    then have "smallest_lock i ns None = Inr (Some (fold min (map extractCSVDelay more) (extractCSVDelay n)))"
      using smallest_lock_acc(1) [of "Suc i" more "extractCSVDelay n"] by (simp add: Cons Let_def)
    with True show ?thesis by (auto simp: Cons fold_min_le)
  next
    case False
    then have "\<not> okR (smallest_lock i ns None)"
      using smallest_lock_acc(2) [of "Suc i" more "extractCSVDelay n"] by (auto simp: Cons Let_def)
    with False show ?thesis by (cases "smallest_lock i ns None") auto
  qed
qed (use assms in simp)

lemma ValidatePolicy_None:
  "ValidatePolicy lib nodes opts = None \<longleftrightarrow>
     (\<exists>operatorKey. po_operatorKey opts = Some operatorKey \<and>
        (\<forall>l \<in> set nodes. \<exists>n. l = Some n \<and> okR (Script lib n) \<and> \<not> rejectOperatorUnilateral lib n operatorKey) \<and>
        (\<exists>l \<in> set nodes. ContainsKey lib l (Some operatorKey)) \<and>
        (\<exists>l \<in> set nodes. \<not> ContainsKey lib l (Some operatorKey)) \<and>
        (\<forall>l \<in> set nodes. \<not> ContainsKey lib l (Some operatorKey) \<longrightarrow>
           extractCSVDelay (the l) \<noteq> 0 \<and> po_minExitDelay opts \<le> extractCSVDelay (the l)))"
proof (cases "po_operatorKey opts")
  case (Some operatorKey)
  define E where "E = filter (\<lambda>n. \<not> ContainsKey lib n (Some operatorKey)) nodes"
  define R where "R = smallest_lock 0 (map the E) None"
  have E: "E = [] \<longleftrightarrow> (\<forall>l \<in> set nodes. ContainsKey lib l (Some operatorKey))"
    by (auto simp: E_def filter_empty_conv)
  have "(case R of Inl e \<Rightarrow> Some e
      | Inr smallest \<Rightarrow> let s = (case smallest of None \<Rightarrow> 0 | Some s \<Rightarrow> s) in
          if po_minExitDelay opts > 0 \<and> s < po_minExitDelay opts then Some (ArkError ''exit delay is below minimum'') else None) = None
    \<longleftrightarrow> (\<forall>l \<in> set E. extractCSVDelay (the l) \<noteq> 0 \<and> po_minExitDelay opts \<le> extractCSVDelay (the l))" if ne: "E \<noteq> []"
  proof (cases "\<forall>l \<in> set E. extractCSVDelay (the l) \<noteq> 0")
    case True
    then obtain s where s: "R = Inr (Some s)" "\<And>m. m \<le> s \<longleftrightarrow> (\<forall>l \<in> set E. m \<le> extractCSVDelay (the l))"
      using smallest_lock_cases [of "map the E" 0] ne by (auto simp: R_def)
    have "(0 < po_minExitDelay opts \<and> s < po_minExitDelay opts) \<longleftrightarrow> \<not> po_minExitDelay opts \<le> s"
      by (auto simp: not_le intro: le_less_trans [OF word_zero_le])
    with True s show ?thesis by (simp add: Let_def)
  next
    case False
    then have "\<exists>e. R = Inl e"
      using smallest_lock_cases [of "map the E" 0] ne by (auto simp: R_def split: if_splits)
    with False show ?thesis by auto
  qed
  then show ?thesis
    using Some E
    by (auto simp: ValidatePolicy_def check_leaves_None list_ex_iff E_def [symmetric] R_def [symmetric] Let_def
        split: if_splits) (auto simp: E_def)
qed (simp add: ValidatePolicy_def)

text \<open>A policy whose leaves are sorted out: the collaborative ones \<open>C\<close> and the exits \<open>U\<close>.\<close>

lemma ValidatePolicy_split:
  assumes "set nodes = Some ` (C \<union> U)" "C \<noteq> {}" "U \<noteq> {}"
    and "\<And>n. n \<in> C \<union> U \<Longrightarrow> okR (Script lib n)" "\<And>n. n \<in> C \<union> U \<Longrightarrow> \<not> rejectOperatorUnilateral lib n srv"
    and "\<And>n. n \<in> C \<Longrightarrow> ContainsKey lib (Some n) (Some srv)" "\<And>n. n \<in> U \<Longrightarrow> \<not> ContainsKey lib (Some n) (Some srv)"
  shows "ValidatePolicy lib nodes \<lparr>po_operatorKey = Some srv, po_minExitDelay = m\<rparr> = None
    \<longleftrightarrow> (\<forall>n \<in> U. extractCSVDelay n \<noteq> 0 \<and> m \<le> extractCSVDelay n)"
proof -
  have all: "(\<forall>l \<in> set nodes. \<exists>n. l = Some n \<and> okR (Script lib n) \<and> \<not> rejectOperatorUnilateral lib n srv)"
    unfolding assms(1) using assms(4,5) by blast
  have ex: "\<exists>l \<in> set nodes. ContainsKey lib l (Some srv)" "\<exists>l \<in> set nodes. \<not> ContainsKey lib l (Some srv)"
    unfolding assms(1) using assms(2,3,6,7) by blast+
  have "(\<forall>l \<in> set nodes. \<not> ContainsKey lib l (Some srv) \<longrightarrow> extractCSVDelay (the l) \<noteq> 0 \<and> m \<le> extractCSVDelay (the l))
      \<longleftrightarrow> (\<forall>n \<in> U. extractCSVDelay n \<noteq> 0 \<and> m \<le> extractCSVDelay n)"
    unfolding assms(1) using assms(6,7) by (auto simp: ball_Un)
  with all ex show ?thesis
    unfolding ValidatePolicy_None by simp
qed

text \<open>
  C26: A policy that \<open>ValidatePolicy\<close> accepts keeps the two Ark invariants in every leaf: the operator
  alone can spend none of them at any age of the output, and any set of signers without the operator can spend
  only an output at least one block old and at least the minimum exit delay old. It has both a leaf that
  needs the operator and a leaf that does not.
\<close>

theorem ValidatePolicy_safe:
  assumes "ValidatePolicy lib nodes opts = None"
  shows "\<exists>operatorKey. po_operatorKey opts = Some operatorKey
     \<and> (\<forall>n. Some n \<in> set nodes \<longrightarrow>
          (\<forall>age. \<not> authorises lib {al_xOnly lib operatorKey} age n)
          \<and> (\<forall>S age. authorises lib S age n \<longrightarrow> al_xOnly lib operatorKey \<in> S
                \<or> 0 < age \<and> unat (po_minExitDelay opts) \<le> age))
     \<and> (\<exists>n. Some n \<in> set nodes \<and> (\<forall>S age. authorises lib S age n \<longrightarrow> al_xOnly lib operatorKey \<in> S))
     \<and> (\<exists>n. Some n \<in> set nodes \<and> \<not> ContainsKey lib (Some n) (Some operatorKey))"
proof -
  obtain k where k: "po_operatorKey opts = Some k"
    and leaf: "\<And>l. l \<in> set nodes \<Longrightarrow> \<exists>n. l = Some n \<and> okR (Script lib n) \<and> \<not> rejectOperatorUnilateral lib n k"
    and ex: "\<exists>l \<in> set nodes. ContainsKey lib l (Some k)" "\<exists>l \<in> set nodes. \<not> ContainsKey lib l (Some k)"
    and lock: "\<And>l. l \<in> set nodes \<Longrightarrow> \<not> ContainsKey lib l (Some k) \<Longrightarrow>
       extractCSVDelay (the l) \<noteq> 0 \<and> po_minExitDelay opts \<le> extractCSVDelay (the l)"
    using assms unfolding ValidatePolicy_None by blast
  have needs: "al_xOnly lib k \<in> S" if "Some n \<in> set nodes" "ContainsKey lib (Some n) (Some k)" "authorises lib S age n" for n S age
    using leaf [OF that(1)] that(2,3) by (auto simp: ContainsKey_def intro: operator_needed)
  have exits: "0 < age \<and> unat (po_minExitDelay opts) \<le> age"
    if n: "Some n \<in> set nodes" "\<not> ContainsKey lib (Some n) (Some k)" and a: "authorises lib S age n" for n S age
  proof -
    have "0 < unat (extractCSVDelay n)" "unat (po_minExitDelay opts) \<le> unat (extractCSVDelay n)"
      using lock [OF n] by (simp_all add: unat_gt_0 word_le_nat_alt)
    with exit_delay_enforced [OF a] show ?thesis by linarith
  qed
  have alone: "\<not> authorises lib {al_xOnly lib k} age n" if "Some n \<in> set nodes" for n age
    using leaf [OF that] by (auto simp: rejectOperatorUnilateral_def dest: not_operator_alone)
  obtain c u where "Some c \<in> set nodes" "ContainsKey lib (Some c) (Some k)" "Some u \<in> set nodes"
    "\<not> ContainsKey lib (Some u) (Some k)" using ex leaf by metis
  with k alone needs exits show ?thesis by blast
qed

section \<open>The standard policy\<close>

lemma list_two: "length xs = 2 \<longleftrightarrow> (\<exists>a b. xs = [a, b])"
  by (auto simp: numeral_2_eq_2 length_Suc_conv)

lemma find_standard_two:
  assumes "find_standard 0 [l1, l2] None None = Inr (Some keys, Some (lock, inner))"
  shows "{lt_node l1, lt_node l2} = {Some (Multisig keys), Some (CSV lock inner)}"
  using assms by (auto split: option.splits node.splits)

lemma find_operator_two:
  assumes "find_operator lib ownerKey 0 [k1, k2] None = Inr (Some operatorKey)"
  shows "\<exists>a. {k1, k2} = {Some a, Some operatorKey} \<and> al_xOnly lib a = al_xOnly lib ownerKey
     \<and> al_xOnly lib operatorKey \<noteq> al_xOnly lib ownerKey"
  using assms by (auto simp: sameXOnlyKey_def split: if_splits)

lemma standard_params_Inr:
  assumes "standard_params lib keys lock inner = Inr \<lparr>sv_ownerKey = own, sv_operatorKey = srv, sv_exitDelay = d\<rparr>"
  shows "length keys = 2" and "inner = Some (Multisig [Some own])"
    and "find_operator lib own 0 keys None = Inr (Some srv)" and "lock = d" "validateCSVLock d = None"
  using assms
  by (auto simp: standard_params_def length_Suc_conv split: if_splits option.splits node.splits)

lemma DecodeStandard_sound:
  assumes "DecodeStandardVTXOParams lib (Some t) = Inr \<lparr>sv_ownerKey = own, sv_operatorKey = srv, sv_exitDelay = d\<rparr>"
  shows "\<exists>a k1 k2. set (map lt_node (pt_leaves t)) = {Some (Multisig [k1, k2]), Some (CSV d (Some (Multisig [Some own])))}
     \<and> length (pt_leaves t) = 2 \<and> {k1, k2} = {Some a, Some srv} \<and> al_xOnly lib a = al_xOnly lib own
     \<and> al_xOnly lib srv \<noteq> al_xOnly lib own \<and> 0 < d \<and> d \<le> SequenceLockTimeMask"
proof -
  have len: "length (pt_leaves t) = 2"
    using assms by (auto simp: DecodeStandardVTXOParams_def split: if_splits)
  then obtain l1 l2 where t: "pt_leaves t = [l1, l2]" by (auto simp: list_two)
  obtain keys lock inner where f: "find_standard 0 [l1, l2] None None = Inr (Some keys, Some (lock, inner))"
    and p: "standard_params lib keys lock inner = Inr \<lparr>sv_ownerKey = own, sv_operatorKey = srv, sv_exitDelay = d\<rparr>"
    using assms t
    by (auto simp: DecodeStandardVTXOParams_def split: option.splits prod.splits simp del: find_standard.simps)
  note params = standard_params_Inr [OF p]
  obtain k1 k2 where k: "keys = [k1, k2]" using params(1) by (auto simp: list_two)
  obtain a where a: "{k1, k2} = {Some a, Some srv}" "al_xOnly lib a = al_xOnly lib own" "al_xOnly lib srv \<noteq> al_xOnly lib own"
    using find_operator_two [of lib own k1 k2 srv] params(3) k by auto
  have d: "0 < d" "d \<le> SequenceLockTimeMask"
    using params(5) by (auto simp: validateCSVLock_def word_neq_0_conv split: if_splits)
  have "set (map lt_node (pt_leaves t)) = {Some (Multisig [k1, k2]), Some (CSV d (Some (Multisig [Some own])))}"
    using find_standard_two [OF f] t k params(2,4) by simp
  with a d len show ?thesis by blast
qed

lemma standard_template:
  "StandardVTXOTemplate lib (Some own) (Some srv) d = Inr t \<longleftrightarrow>
     0 < d \<and> d \<le> SequenceLockTimeMask \<and> t = \<lparr>pt_leaves = [\<lparr>lt_node = Some (Multisig [Some own, Some srv])\<rparr>,
       \<lparr>lt_node = Some (CSV (al_lockTimeToSequence lib d) (Some (Multisig [Some own])))\<rparr>]\<rparr>"
  by (auto simp: StandardVTXOTemplate_def validateCSVLock_def word_neq_0_conv Let_def)

lemma standard_decodes:
  assumes "0 < d" "d \<le> SequenceLockTimeMask" "al_lockTimeToSequence lib d = d" "al_xOnly lib srv \<noteq> al_xOnly lib own"
    "StandardVTXOTemplate lib (Some own) (Some srv) d = Inr t"
  shows "DecodeStandardVTXOParams lib (Some t) = Inr \<lparr>sv_ownerKey = own, sv_operatorKey = srv, sv_exitDelay = d\<rparr>"
proof -
  have t: "t = \<lparr>pt_leaves = [\<lparr>lt_node = Some (Multisig [Some own, Some srv])\<rparr>, \<lparr>lt_node = Some (CSV d (Some (Multisig [Some own])))\<rparr>]\<rparr>"
    using assms(3,5) by (simp add: standard_template)
  have "validateCSVLock d = None" using assms(1,2) by (simp add: validateCSVLock_def word_neq_0_conv not_less)
  with assms(4) show ?thesis
    by (simp add: t DecodeStandardVTXOParams_def standard_params_def sameXOnlyKey_def)
qed

text \<open>
  C32: The standard VTXO policy is recognized for what it is, and nothing else is. The template built
  from two different keys and a canonical delay decodes to exactly these parameters; a template that decodes consists of
  a two-key leaf of the owner and the operator and a delayed leaf of the owner, with a canonical delay.
\<close>

theorem standard_vtxo_recognized:
  assumes "\<forall>x. al_lockTimeToSequence lib x = x"
  shows "(StandardVTXOTemplate lib (Some own) (Some srv) d = Inr t \<longrightarrow> al_xOnly lib srv \<noteq> al_xOnly lib own \<longrightarrow>
      DecodeStandardVTXOParams lib (Some t) = Inr \<lparr>sv_ownerKey = own, sv_operatorKey = srv, sv_exitDelay = d\<rparr>)
    \<and> (DecodeStandardVTXOParams lib (Some u) = Inr \<lparr>sv_ownerKey = own, sv_operatorKey = srv, sv_exitDelay = d\<rparr> \<longrightarrow>
      (\<exists>a k1 k2. set (map lt_node (pt_leaves u)) = {Some (Multisig [k1, k2]), Some (CSV d (Some (Multisig [Some own])))}
        \<and> length (pt_leaves u) = 2 \<and> {k1, k2} = {Some a, Some srv} \<and> al_xOnly lib a = al_xOnly lib own
        \<and> al_xOnly lib srv \<noteq> al_xOnly lib own \<and> 0 < d \<and> d \<le> SequenceLockTimeMask))"
  using assms standard_decodes [of d lib srv own t] standard_template [of lib own srv d t]
    DecodeStandard_sound [of lib u own srv d] by blast

section \<open>Scripts built and read back\<close>

text \<open>
  What the recognizers rely on of \<open>txscript\<close>: tokenizing a built script returns one token per added
  operation, with the opcode, the number or the data added (raw fragments, push opcodes and the short
  data the builder turns into an opcode aside),
  and \<open>LockTimeToSequence\<close> leaves a block count as it is.
\<close>

fun token_of :: "arkLib \<Rightarrow> scriptOp \<Rightarrow> token \<Rightarrow> bool" where
  "token_of lib (AddOp b) t \<longleftrightarrow> tk_opcode t = b \<and> tk_data t = []"
| "token_of lib (AddData d) t \<longleftrightarrow> tk_data t = d"
| "token_of lib (AddInt64 n) t \<longleftrightarrow> parseScriptNumToken lib t = Some n"
| "token_of lib (AddOps bs) t \<longleftrightarrow> False"

fun plain_op :: "scriptOp \<Rightarrow> bool" where
  "plain_op (AddOp b) \<longleftrightarrow> b > OP_16"
| "plain_op (AddData d) \<longleftrightarrow> 2 \<le> length d"
| "plain_op (AddInt64 n) \<longleftrightarrow> 0 \<le> n \<and> n < 2 ^ 32"
| "plain_op (AddOps bs) \<longleftrightarrow> False"

definition script_laws :: "arkLib \<Rightarrow> bool" where
  "script_laws lib \<longleftrightarrow>
     (\<forall>ops p. al_script lib ops = Inr p \<longrightarrow> list_all plain_op ops \<longrightarrow>
        (\<exists>ts. al_tokenize lib p = (ts, None) \<and> list_all2 (token_of lib) ops ts)) \<and>
     al_tokenize lib [] = ([], None) \<and>
     (\<forall>d. al_lockTimeToSequence lib d = d)"

lemma opcodes [simp]:
  "OP_CHECKLOCKTIMEVERIFY > OP_16" "OP_DROP > OP_16" "OP_SIZE > OP_16" "OP_EQUALVERIFY > OP_16" "OP_SHA256 > OP_16"
  by (simp_all add: OP_CHECKLOCKTIMEVERIFY_def OP_DROP_def OP_SIZE_def OP_EQUALVERIFY_def OP_SHA256_def OP_16_def)

lemma built_tokens:
  assumes "script_laws lib" and "al_script lib ops = Inr p" and "list_all plain_op ops"
  obtains ts where "al_tokenize lib p = (ts, None)" "list_all2 (token_of lib) ops ts"
  using assms unfolding script_laws_def by blast

lemma built_nonempty:
  assumes "script_laws lib" and "al_script lib ops = Inr p" and "list_all plain_op ops" and "ops \<noteq> []"
  shows "p \<noteq> []"
proof
  assume "p = []"
  then have "al_tokenize lib p = ([], None)" using assms(1) by (simp add: script_laws_def)
  with built_tokens [OF assms(1-3)] assms(4) show False by auto
qed

lemma locktime_predicate:
  assumes "script_laws lib" and "AbsoluteLockTimeCondition lib lock = Inr p"
  shows "parseAbsoluteLockTimePredicate lib p = Some lock" and "p \<noteq> []"
proof -
  have b: "al_script lib [AddInt64 (uint lock), AddOp OP_CHECKLOCKTIMEVERIFY, AddOp OP_DROP] = Inr p"
    using assms(2) by (simp add: AbsoluteLockTimeCondition_def)
  have lt: "uint lock < 2 ^ 32" using uint_lt2p [of lock] by simp
  have plain: "list_all plain_op [AddInt64 (uint lock), AddOp OP_CHECKLOCKTIMEVERIFY, AddOp OP_DROP]"
    using lt by simp
  obtain ts where ts: "al_tokenize lib p = (ts, None)"
    "list_all2 (token_of lib) [AddInt64 (uint lock), AddOp OP_CHECKLOCKTIMEVERIFY, AddOp OP_DROP] ts"
    using built_tokens [OF assms(1) b plain] .
  then obtain t1 t2 t3 where "ts = [t1, t2, t3]" "parseScriptNumToken lib t1 = Some (uint lock)"
    "tk_opcode t2 = OP_CHECKLOCKTIMEVERIFY" "tk_opcode t3 = OP_DROP"
    by (auto simp: list_all2_Cons1)
  with lt ts(1) show "parseAbsoluteLockTimePredicate lib p = Some lock"
    by (simp add: parseAbsoluteLockTimePredicate_def)
  show "p \<noteq> []" using built_nonempty [OF assms(1) b plain] by simp
qed

lemma hash_predicate:
  assumes "script_laws lib" and "sha256Condition lib h = Inr p"
  shows "parseAbsoluteLockTimePredicate lib p = None" and "p \<noteq> []"
proof -
  let ?ops = "[AddOp OP_SIZE, AddInt64 32, AddOp OP_EQUALVERIFY, AddOp OP_SHA256, AddData h, AddOp OP_EQUALVERIFY]"
  have b: "al_script lib ?ops = Inr p" and len: "length h = 32"
    using assms(2) by (auto simp: sha256Condition_def split: if_splits)
  have plain: "list_all plain_op ?ops" using len by simp
  obtain us where us: "al_tokenize lib p = (us, None)" "list_all2 (token_of lib) ?ops us"
    using built_tokens [OF assms(1) b plain] .
  then obtain t ts where t: "al_tokenize lib p = (t # ts, None)" "tk_opcode t = OP_SIZE" "tk_data t = []"
    by (auto simp: list_all2_Cons1)
  have "parseScriptNumToken lib t = None"
    using t by (simp add: parseScriptNumToken_def OP_SIZE_def OP_0_def OP_1_def OP_16_def OP_1NEGATE_def)
  with t show "parseAbsoluteLockTimePredicate lib p = None"
    by (auto simp: parseAbsoluteLockTimePredicate_def split: list.splits)
  show "p \<noteq> []" using built_nonempty [OF assms(1) b plain] by simp
qed

section \<open>The vHTLC policy\<close>

definition vhtlc_nodes :: "vhtlcPolicy \<Rightarrow> node list" where
  "vhtlc_nodes p = [vh_claim p, vh_refund p, vh_refundWithoutReceiver p, vh_unilateralClaim p,
     vh_unilateralRefund p, vh_unilateralRefundWithoutReceiver p]"

lemma NewVHTLCPolicy_Inr:
  assumes "script_laws lib" and "NewVHTLCPolicy lib opts = Inr pol"
  obtains se re sv cp rp where "vo_sender opts = Some se" "vo_receiver opts = Some re" "vo_server opts = Some sv"
    "sha256Condition lib (vo_preimageHash opts) = Inr cp" "AbsoluteLockTimeCondition lib (vo_refundLocktime opts) = Inr rp"
    "vo_refundLocktime opts \<noteq> 0" "validateCSVLock (vo_unilateralClaimDelay opts) = None"
    "validateCSVLock (vo_unilateralRefundDelay opts) = None"
    "validateCSVLock (vo_unilateralRefundWithoutReceiverDelay opts) = None"
    "vh_claim pol = Condition cp (Some (Multisig [Some re, Some sv]))"
    "vh_refund pol = Multisig [Some se, Some re, Some sv]"
    "vh_refundWithoutReceiver pol = Condition rp (Some (Multisig [Some se, Some sv]))"
    "vh_unilateralClaim pol = CSV (vo_unilateralClaimDelay opts) (Some (Condition cp (Some (Multisig [Some re]))))"
    "vh_unilateralRefund pol = CSV (vo_unilateralRefundDelay opts) (Some (Multisig [Some se, Some re]))"
    "vh_unilateralRefundWithoutReceiver pol =
       CSV (vo_unilateralRefundWithoutReceiverDelay opts) (Some (Condition rp (Some (Multisig [Some se]))))"
    "pt_leaves (vh_template pol) = map (\<lambda>n. \<lparr>lt_node = Some n\<rparr>) (vhtlc_nodes pol)"
    "okR (Compile lib (Some (vh_template pol)))"
proof -
  have seq: "al_lockTimeToSequence lib d = d" for d using assms(1) by (simp add: script_laws_def)
  show ?thesis
    using assms(2) that
    by (auto simp: NewVHTLCPolicy_def vhtlc_validate_def seq Let_def vhtlc_nodes_def split: option.splits if_splits)
qed

lemma mask_lock: "lock \<le> SequenceLockTimeMask \<Longrightarrow> and lock SequenceLockTimeMask = lock"
proof -
  assume "lock \<le> SequenceLockTimeMask"
  then have "unat lock < 2 ^ 16" by (simp add: SequenceLockTimeMask_def word_le_nat_alt)
  then have "take_bit 16 lock = lock"
    by (intro unsigned_word_eqI [where ?'a = nat]) (simp add: unsigned_take_bit_eq take_bit_nat_eq_self)
  moreover have "SequenceLockTimeMask = mask 16" by (simp add: SequenceLockTimeMask_def mask_eq_exp_minus_1)
  ultimately show ?thesis by (simp add: take_bit_eq_mask)
qed

lemma vhtlc_shapes:
  assumes laws: "script_laws lib" and "sha256Condition lib h = Inr cp" and "AbsoluteLockTimeCondition lib l = Inr rp"
    and "validateCSVLock d = None"
  shows "decodeVHTLCNode lib (Some (Condition cp (Some (Multisig (map Some ks))))) =
       Inr \<lparr>ns_csvDelay = 0, ns_locktime = 0, ns_predicate = cp, ns_keys = map (al_compressed lib) ks\<rparr>"
    and "decodeVHTLCNode lib (Some (Multisig (map Some ks))) =
       Inr \<lparr>ns_csvDelay = 0, ns_locktime = 0, ns_predicate = [], ns_keys = map (al_compressed lib) ks\<rparr>"
    and "decodeVHTLCNode lib (Some (Condition rp (Some (Multisig (map Some ks))))) =
       Inr \<lparr>ns_csvDelay = 0, ns_locktime = l, ns_predicate = rp, ns_keys = map (al_compressed lib) ks\<rparr>"
    and "decodeVHTLCNode lib (Some (CSV d (Some (Condition cp (Some (Multisig (map Some ks))))))) =
       Inr \<lparr>ns_csvDelay = d, ns_locktime = 0, ns_predicate = cp, ns_keys = map (al_compressed lib) ks\<rparr>"
    and "decodeVHTLCNode lib (Some (CSV d (Some (Multisig (map Some ks))))) =
       Inr \<lparr>ns_csvDelay = d, ns_locktime = 0, ns_predicate = [], ns_keys = map (al_compressed lib) ks\<rparr>"
    and "decodeVHTLCNode lib (Some (CSV d (Some (Condition rp (Some (Multisig (map Some ks))))))) =
       Inr \<lparr>ns_csvDelay = d, ns_locktime = l, ns_predicate = rp, ns_keys = map (al_compressed lib) ks\<rparr>"
proof -
  have nil: "first_nil i (map Some ks) = None" for i by (induction ks arbitrary: i) simp_all
  have mask: "and d SequenceLockTimeMask = d"
    using assms(4) by (intro mask_lock) (auto simp: validateCSVLock_def split: if_splits)
  note parse = locktime_predicate(1) [OF laws assms(3)] hash_predicate(1) [OF laws assms(2)]
  show "decodeVHTLCNode lib (Some (Condition cp (Some (Multisig (map Some ks))))) =
       Inr \<lparr>ns_csvDelay = 0, ns_locktime = 0, ns_predicate = cp, ns_keys = map (al_compressed lib) ks\<rparr>"
    "decodeVHTLCNode lib (Some (Multisig (map Some ks))) =
       Inr \<lparr>ns_csvDelay = 0, ns_locktime = 0, ns_predicate = [], ns_keys = map (al_compressed lib) ks\<rparr>"
    "decodeVHTLCNode lib (Some (Condition rp (Some (Multisig (map Some ks))))) =
       Inr \<lparr>ns_csvDelay = 0, ns_locktime = l, ns_predicate = rp, ns_keys = map (al_compressed lib) ks\<rparr>"
    "decodeVHTLCNode lib (Some (CSV d (Some (Condition cp (Some (Multisig (map Some ks))))))) =
       Inr \<lparr>ns_csvDelay = d, ns_locktime = 0, ns_predicate = cp, ns_keys = map (al_compressed lib) ks\<rparr>"
    "decodeVHTLCNode lib (Some (CSV d (Some (Multisig (map Some ks))))) =
       Inr \<lparr>ns_csvDelay = d, ns_locktime = 0, ns_predicate = [], ns_keys = map (al_compressed lib) ks\<rparr>"
    "decodeVHTLCNode lib (Some (CSV d (Some (Condition rp (Some (Multisig (map Some ks))))))) =
       Inr \<lparr>ns_csvDelay = d, ns_locktime = l, ns_predicate = rp, ns_keys = map (al_compressed lib) ks\<rparr>"
    by (simp_all add: decodeVHTLCNode_def strip_condition_def nil parse assms(4) mask Let_def comp_def)
qed

lemma lock_pos: "validateCSVLock d = None \<Longrightarrow> 0 < d"
  by (auto simp: validateCSVLock_def word_neq_0_conv split: if_splits)

lemma vhtlc_timing_decoded:
  assumes laws: "script_laws lib" and "NewVHTLCPolicy lib opts = Inr pol"
  shows "DecodeVHTLCTiming lib (Some (vh_template pol)) = Inr (Timing opts)"
  using NewVHTLCPolicy_Inr [OF assms]
proof cases
  fix se re sv cp rp
  assume a: "vo_sender opts = Some se" "vo_receiver opts = Some re" "vo_server opts = Some sv"
    "sha256Condition lib (vo_preimageHash opts) = Inr cp" "AbsoluteLockTimeCondition lib (vo_refundLocktime opts) = Inr rp"
    "vo_refundLocktime opts \<noteq> 0" "validateCSVLock (vo_unilateralClaimDelay opts) = None"
    "validateCSVLock (vo_unilateralRefundDelay opts) = None"
    "validateCSVLock (vo_unilateralRefundWithoutReceiverDelay opts) = None"
    and nodes: "vh_claim pol = Condition cp (Some (Multisig [Some re, Some sv]))"
    "vh_refund pol = Multisig [Some se, Some re, Some sv]"
    "vh_refundWithoutReceiver pol = Condition rp (Some (Multisig [Some se, Some sv]))"
    "vh_unilateralClaim pol = CSV (vo_unilateralClaimDelay opts) (Some (Condition cp (Some (Multisig [Some re]))))"
    "vh_unilateralRefund pol = CSV (vo_unilateralRefundDelay opts) (Some (Multisig [Some se, Some re]))"
    "vh_unilateralRefundWithoutReceiver pol =
       CSV (vo_unilateralRefundWithoutReceiverDelay opts) (Some (Condition rp (Some (Multisig [Some se]))))"
    and leaves: "pt_leaves (vh_template pol) = map (\<lambda>n. \<lparr>lt_node = Some n\<rparr>) (vhtlc_nodes pol)"
  note ne = locktime_predicate(2) [OF laws a(5)] hash_predicate(2) [OF laws a(4)]
  note pos = lock_pos [OF a(7)] lock_pos [OF a(8)] lock_pos [OF a(9)]
  have lt: "0 < vo_refundLocktime opts" using a(6) by (simp add: word_neq_0_conv)
  note sh7 = vhtlc_shapes [OF laws a(4,5,7)] and sh8 = vhtlc_shapes [OF laws a(4,5,8)] and sh9 = vhtlc_shapes [OF laws a(4,5,9)]
  have "decodeVHTLCNode lib (Some (vh_claim pol)) =
      Inr \<lparr>ns_csvDelay = 0, ns_locktime = 0, ns_predicate = cp, ns_keys = map (al_compressed lib) [re, sv]\<rparr>"
    "decodeVHTLCNode lib (Some (vh_refund pol)) =
      Inr \<lparr>ns_csvDelay = 0, ns_locktime = 0, ns_predicate = [], ns_keys = map (al_compressed lib) [se, re, sv]\<rparr>"
    "decodeVHTLCNode lib (Some (vh_refundWithoutReceiver pol)) = Inr \<lparr>ns_csvDelay = 0,
       ns_locktime = vo_refundLocktime opts, ns_predicate = rp, ns_keys = map (al_compressed lib) [se, sv]\<rparr>"
    "decodeVHTLCNode lib (Some (vh_unilateralClaim pol)) = Inr \<lparr>ns_csvDelay = vo_unilateralClaimDelay opts,
       ns_locktime = 0, ns_predicate = cp, ns_keys = map (al_compressed lib) [re]\<rparr>"
    "decodeVHTLCNode lib (Some (vh_unilateralRefund pol)) = Inr \<lparr>ns_csvDelay = vo_unilateralRefundDelay opts,
       ns_locktime = 0, ns_predicate = [], ns_keys = map (al_compressed lib) [se, re]\<rparr>"
    "decodeVHTLCNode lib (Some (vh_unilateralRefundWithoutReceiver pol)) =
       Inr \<lparr>ns_csvDelay = vo_unilateralRefundWithoutReceiverDelay opts,
       ns_locktime = vo_refundLocktime opts, ns_predicate = rp, ns_keys = map (al_compressed lib) [se]\<rparr>"
    unfolding nodes
    using sh7(1) [of "[re, sv]"] sh7(2) [of "[se, re, sv]"] sh7(3) [of "[se, sv]"] sh7(4) [of "[re]"] sh8(5) [of "[se, re]"]
      sh9(6) [of "[se]"] by simp_all
  then show ?thesis
    using ne pos lt
    by (simp add: DecodeVHTLCTiming_def leaves vhtlc_nodes_def add_shape_def branch_of_def shapes_validate_def Timing_def Let_def)
qed

lemma vhtlc_valid:
  assumes laws: "script_laws lib" and "NewVHTLCPolicy lib opts = Inr pol" and "vo_server opts = Some sv"
    and "\<forall>k. vo_sender opts = Some k \<or> vo_receiver opts = Some k \<longrightarrow> al_xOnly lib k \<noteq> al_xOnly lib sv"
  shows "ValidatePolicy lib (map lt_node (pt_leaves (vh_template pol))) \<lparr>po_operatorKey = Some sv, po_minExitDelay = m\<rparr> = None
    \<longleftrightarrow> m \<le> vo_unilateralClaimDelay opts \<and> m \<le> vo_unilateralRefundDelay opts \<and> m \<le> vo_unilateralRefundWithoutReceiverDelay opts"
  using NewVHTLCPolicy_Inr [OF assms(1,2)]
proof cases
  fix se re sv' cp rp
  assume a: "vo_sender opts = Some se" "vo_receiver opts = Some re" "vo_server opts = Some sv'"
    and locks: "validateCSVLock (vo_unilateralClaimDelay opts) = None"
    "validateCSVLock (vo_unilateralRefundDelay opts) = None"
    "validateCSVLock (vo_unilateralRefundWithoutReceiverDelay opts) = None"
    and nodes: "vh_claim pol = Condition cp (Some (Multisig [Some re, Some sv']))"
    "vh_refund pol = Multisig [Some se, Some re, Some sv']"
    "vh_refundWithoutReceiver pol = Condition rp (Some (Multisig [Some se, Some sv']))"
    "vh_unilateralClaim pol = CSV (vo_unilateralClaimDelay opts) (Some (Condition cp (Some (Multisig [Some re]))))"
    "vh_unilateralRefund pol = CSV (vo_unilateralRefundDelay opts) (Some (Multisig [Some se, Some re]))"
    "vh_unilateralRefundWithoutReceiver pol =
       CSV (vo_unilateralRefundWithoutReceiverDelay opts) (Some (Condition rp (Some (Multisig [Some se]))))"
    and leaves: "pt_leaves (vh_template pol) = map (\<lambda>n. \<lparr>lt_node = Some n\<rparr>) (vhtlc_nodes pol)"
    and comp: "okR (Compile lib (Some (vh_template pol)))"
  have sv: "sv' = sv" and diff: "al_xOnly lib se \<noteq> al_xOnly lib sv" "al_xOnly lib re \<noteq> al_xOnly lib sv"
    using a assms(3,4) by auto
  let ?C = "{vh_claim pol, vh_refund pol, vh_refundWithoutReceiver pol}"
  let ?U = "{vh_unilateralClaim pol, vh_unilateralRefund pol, vh_unilateralRefundWithoutReceiver pol}"
  have set: "set (map lt_node (pt_leaves (vh_template pol))) = Some ` (?C \<union> ?U)"
    by (auto simp: leaves vhtlc_nodes_def)
  obtain scripts where "compile_scripts lib 0 (pt_leaves (vh_template pol)) = Inr scripts"
    using comp by (auto simp: okR_iff Compile_def split: if_splits)
  then have all: "\<forall>l \<in> set (pt_leaves (vh_template pol)). okR (LeafTemplate_Script lib l)"
    unfolding compile_scripts_Inr by blast
  have ok: "okR (Script lib n)" if "n \<in> ?C \<union> ?U" for n
    using bspec [OF all, of "\<lparr>lt_node = Some n\<rparr>"] that by (auto simp: LeafTemplate_Script_def leaves vhtlc_nodes_def)
  have key: "ContainsKey lib (Some n) (Some sv)" if "n \<in> ?C" for n
    using that by (auto simp: nodes ContainsKey_def sv)
  have nokey: "\<not> ContainsKey lib (Some n) (Some sv)" if "n \<in> ?U" for n
    using that diff by (auto simp: nodes ContainsKey_def)
  have rej: "\<not> rejectOperatorUnilateral lib n sv" if "n \<in> ?C \<union> ?U" for n
    using that diff by (auto simp: nodes rejectOperatorUnilateral_def multisigContainsKey_def sv)
  have d: "extractCSVDelay (vh_unilateralClaim pol) = vo_unilateralClaimDelay opts"
    "extractCSVDelay (vh_unilateralRefund pol) = vo_unilateralRefundDelay opts"
    "extractCSVDelay (vh_unilateralRefundWithoutReceiver pol) = vo_unilateralRefundWithoutReceiverDelay opts"
    by (simp_all add: nodes)
  show ?thesis
    using ValidatePolicy_split [OF set _ _ ok rej key nokey, of m] d
      lock_pos [OF locks(1)] lock_pos [OF locks(2)] lock_pos [OF locks(3)]
    by (simp add: word_neq_0_conv)
qed

text \<open>
  C31: Every vHTLC policy that \<open>NewVHTLCPolicy\<close> builds is recognized from its template alone, with exactly
  the timing it was built with; and, when neither party shares the server's key, it passes the Ark validation
  against the server's key exactly for the minimum exit delays its three unilateral branches respect.
\<close>

theorem vhtlc_recognized_and_valid:
  assumes "script_laws lib" and "NewVHTLCPolicy lib opts = Inr pol" and "vo_server opts = Some sv"
    and "\<forall>k. vo_sender opts = Some k \<or> vo_receiver opts = Some k \<longrightarrow> al_xOnly lib k \<noteq> al_xOnly lib sv"
  shows "DecodeVHTLCTiming lib (Some (vh_template pol)) = Inr (Timing opts)
    \<and> (ValidatePolicy lib (map lt_node (pt_leaves (vh_template pol))) \<lparr>po_operatorKey = Some sv, po_minExitDelay = m\<rparr> = None
       \<longleftrightarrow> m \<le> vo_unilateralClaimDelay opts \<and> m \<le> vo_unilateralRefundDelay opts
         \<and> m \<le> vo_unilateralRefundWithoutReceiverDelay opts)"
  using vhtlc_timing_decoded [OF assms(1,2)] vhtlc_valid [OF assms, of m] by blast

lemma word_sub_up:
  fixes a b c d e :: u32
  assumes "b < a"
  shows "unat (a - b) = unat a - unat b"
    and "(ucast (a - b) :: u64) \<le> ucast c + ucast d + ucast e \<longleftrightarrow> unat a - unat b \<le> unat c + unat d + unat e"
proof -
  have up: "unat (ucast (x :: u32) :: u64) = unat x" for x
    using unsigned_less [of x, where ?'a = nat] by (simp add: unsigned_ucast_eq take_bit_nat_eq_self)
  have req: "unat ((ucast c :: u64) + ucast d + ucast e) = unat c + unat d + unat e"
    using unsigned_less [of c, where ?'a = nat] unsigned_less [of d, where ?'a = nat] unsigned_less [of e, where ?'a = nat]
    by (simp add: unat_word_ariths up)
  show sub: "unat (a - b) = unat a - unat b" using assms by (simp add: unat_sub less_imp_le)
  show "(ucast (a - b) :: u64) \<le> ucast c + ucast d + ucast e \<longleftrightarrow> unat a - unat b \<le> unat c + unat d + unat e"
    by (simp only: word_le_nat_alt req up sub)
qed

lemma claim_window_exact:
  "ValidateClaimWindow t w = None \<longleftrightarrow>
     ti_unilateralClaimDelay t \<le> ti_unilateralRefundDelay t
     \<and> ti_unilateralRefundDelay t \<le> ti_unilateralRefundWithoutReceiverDelay t
     \<and> unat (cw_currentHeight w) + unat (cw_exitAncestryDelay w) + unat (ti_unilateralClaimDelay t)
         + unat (cw_recoveryMargin w) < unat (ti_refundLocktime t)"
proof (cases "cw_currentHeight w < ti_refundLocktime t")
  case True
  then have "unat (cw_currentHeight w) < unat (ti_refundLocktime t)" by (simp add: word_less_nat_alt)
  with True show ?thesis
    by (auto simp: ValidateClaimWindow_def ValidateOrder_def Let_def word_sub_up(2) not_le not_less)
next
  case False
  then have "unat (ti_refundLocktime t) \<le> unat (cw_currentHeight w)" by (simp add: not_less word_le_nat_alt)
  with False show ?thesis by (auto simp: ValidateClaimWindow_def not_less split: option.splits)
qed

lemma refund_window_exact:
  "ValidateRefundWindow t height maxBlocks = None \<longleftrightarrow>
     ti_unilateralClaimDelay t \<le> ti_unilateralRefundDelay t
     \<and> ti_unilateralRefundDelay t \<le> ti_unilateralRefundWithoutReceiverDelay t
     \<and> unat height < unat (ti_refundLocktime t) \<and> unat (ti_refundLocktime t) < 500000000
     \<and> unat (ti_refundLocktime t) \<le> unat height + unat maxBlocks
     \<and> unat (ti_unilateralRefundWithoutReceiverDelay t) \<le> unat maxBlocks"
  by (auto simp: ValidateRefundWindow_def ValidateOrder_def LockTimeThreshold_def not_le not_less word_le_nat_alt
      word_less_nat_alt word_sub_up(1))

text \<open>
  The vHTLC windows are checked in exact arithmetic, without wrap-around. The claim window is accepted iff the
  delays are ordered and the current height, the exit ancestry, the claim delay and the recovery margin together stay
  below the refund locktime; the refund window iff the delays are ordered, the locktime is a block
  height after the current one, and both timelocks of the refund path end within the maximum.
\<close>

lemma vhtlc_windows_exact:
  "(ValidateClaimWindow t w = None \<longleftrightarrow>
     ti_unilateralClaimDelay t \<le> ti_unilateralRefundDelay t
     \<and> ti_unilateralRefundDelay t \<le> ti_unilateralRefundWithoutReceiverDelay t
     \<and> unat (cw_currentHeight w) + unat (cw_exitAncestryDelay w) + unat (ti_unilateralClaimDelay t)
         + unat (cw_recoveryMargin w) < unat (ti_refundLocktime t))
   \<and> (ValidateRefundWindow t height maxBlocks = None \<longleftrightarrow>
     ti_unilateralClaimDelay t \<le> ti_unilateralRefundDelay t
     \<and> ti_unilateralRefundDelay t \<le> ti_unilateralRefundWithoutReceiverDelay t
     \<and> unat height < unat (ti_refundLocktime t) \<and> unat (ti_refundLocktime t) < 500000000
     \<and> unat (ti_refundLocktime t) \<le> unat height + unat maxBlocks
     \<and> unat (ti_unilateralRefundWithoutReceiverDelay t) \<le> unat maxBlocks)"
  using claim_window_exact refund_window_exact by blast

section \<open>Witnesses\<close>

lemma ex_xonly [simp]: "al_xOnly ex_ark ex_owner = ex_owner" "al_xOnly ex_ark ex_operator = ex_operator"
  "ex_owner \<noteq> ex_operator" "ex_operator \<noteq> ex_owner"
  by (simp_all add: ex_ark_def ex_owner_def ex_operator_def)

theorem ValidatePolicy_safe_witness:
  "\<not> authorises ex_ark {al_xOnly ex_ark ex_operator} 100 (Multisig [Some ex_owner, Some ex_operator])"
proof -
  have "ValidatePolicy ex_ark (map lt_node (pt_leaves ex_template)) \<lparr>po_operatorKey = Some ex_operator, po_minExitDelay = 3\<rparr> = None"
    unfolding ValidatePolicy_None
    by (simp add: ex_template_def scriptChecksig_def rejectOperatorUnilateral_def multisigContainsKey_def ContainsKey_def
        validateCSVLock_def SequenceLockTimeMask_def) (simp add: ex_ark_def)
  from ValidatePolicy_safe [OF this] show ?thesis by (auto simp: ex_template_def)
qed

theorem standard_vtxo_recognized_witness:
  "DecodeStandardVTXOParams ex_ark (Some ex_template) =
     Inr \<lparr>sv_ownerKey = ex_owner, sv_operatorKey = ex_operator, sv_exitDelay = 5\<rparr>"
proof -
  have "\<forall>x. al_lockTimeToSequence ex_ark x = x" by (simp add: ex_ark_def)
  moreover have "StandardVTXOTemplate ex_ark (Some ex_owner) (Some ex_operator) 5 = Inr ex_template"
    by (simp add: standard_template ex_template_def SequenceLockTimeMask_def ex_ark_def)
  moreover have "al_xOnly ex_ark ex_operator \<noteq> al_xOnly ex_ark ex_owner"
    by simp
  ultimately show ?thesis using standard_vtxo_recognized [of ex_ark ex_owner ex_operator 5 ex_template] by blast
qed

text \<open>
  A builder and tokenizer with the laws: every operation is an opcode followed by its data, each
  byte of data marked and the end of the data marked; a number is a push as long as the number.
\<close>

fun ex_op :: "scriptOp \<Rightarrow> byte list" where
  "ex_op (AddOp b) = [b, 0]"
| "ex_op (AddData d) = 1 # concat (map (\<lambda>b. [1, b]) d) @ [0]"
| "ex_op (AddInt64 n) = (if n = 0 then [0, 0] else 1 # concat (map (\<lambda>b. [1, b]) (replicate (nat n) 1)) @ [0])"
| "ex_op (AddOps bs) = bs"

fun ex_tokens :: "byte list \<Rightarrow> token option \<Rightarrow> token list" where
  "ex_tokens [] t = []"
| "ex_tokens (x # xs) None = ex_tokens xs (Some \<lparr>tk_opcode = x, tk_data = []\<rparr>)"
| "ex_tokens (x # y # xs) (Some t) =
     (if x = 0 then t # ex_tokens (y # xs) None else ex_tokens xs (Some (t\<lparr>tk_data := tk_data t @ [y]\<rparr>)))"
| "ex_tokens [x] (Some t) = (if x = 0 then [t] else [])"

definition ex_script_lib :: arkLib where
  "ex_script_lib = ex_ark\<lparr>al_script := \<lambda>ops. Inr (concat (map ex_op ops)), al_tokenize := \<lambda>p. (ex_tokens p None, None),
     al_makeScriptNum := \<lambda>d m. Inr (int (length d))\<rparr>"

lemma ex_tokens_end: "ex_tokens (0 # rest) (Some t) = t # ex_tokens rest None"
  by (cases rest) simp_all

lemma ex_tokens_data:
  "ex_tokens (concat (map (\<lambda>b. [1, b]) d) @ 0 # rest) (Some t) = t\<lparr>tk_data := tk_data t @ d\<rparr> # ex_tokens rest None"
  by (induction d arbitrary: t) (simp_all add: ex_tokens_end)

lemma ex_tokens_op:
  assumes "plain_op x"
  shows "\<exists>t. ex_tokens (ex_op x @ rest) None = t # ex_tokens rest None \<and> token_of ex_script_lib x t"
proof (cases x)
  case (AddInt64 n)
  then have n: "0 \<le> n" using assms by simp
  let ?t = "\<lparr>tk_opcode = 1, tk_data = replicate (nat n) 1\<rparr>"
  have "ex_tokens (ex_op x @ rest) None = ?t # ex_tokens rest None" if "n \<noteq> 0"
    using that ex_tokens_data [of "replicate (nat n) 1" rest "\<lparr>tk_opcode = 1, tk_data = []\<rparr>"] AddInt64 by simp
  moreover have "token_of ex_script_lib x ?t" if "n \<noteq> 0"
    using that n AddInt64
    by (simp add: parseScriptNumToken_def ex_script_lib_def OP_0_def OP_1_def OP_16_def OP_1NEGATE_def Let_def word_le_nat_alt)
  moreover have "token_of ex_script_lib x \<lparr>tk_opcode = 0, tk_data = []\<rparr>" if "n = 0"
    using that AddInt64 by (simp add: parseScriptNumToken_def OP_0_def)
  ultimately show ?thesis using AddInt64 by (cases "n = 0") (auto simp: ex_tokens_end)
qed (use assms in \<open>auto simp: ex_tokens_end ex_tokens_data\<close>)

lemma ex_script: "script_laws ex_script_lib"
proof -
  have "\<exists>ts. ex_tokens (concat (map ex_op ops)) None = ts \<and> list_all2 (token_of ex_script_lib) ops ts" if "list_all plain_op ops" for ops
    using that
  proof (induction ops)
    case (Cons x ops)
    from ex_tokens_op [of x "concat (map ex_op ops)"] Cons show ?case by auto
  qed simp
  then show ?thesis
    by (auto simp: script_laws_def ex_script_lib_def [unfolded ex_ark_def])
qed

definition ex_vhtlc :: vhtlcOpts where
  "ex_vhtlc = \<lparr>vo_sender = Some [4], vo_receiver = Some [5], vo_server = Some [6], vo_preimageHash = replicate 32 9,
     vo_refundLocktime = 700, vo_unilateralClaimDelay = 10, vo_unilateralRefundDelay = 20,
     vo_unilateralRefundWithoutReceiverDelay = 30\<rparr>"

lemma Compile_ok:
  "okR (Compile lib (Some p)) \<longleftrightarrow> pt_leaves p \<noteq> [] \<and> (\<forall>l \<in> set (pt_leaves p). okR (LeafTemplate_Script lib l))"
proof -
  have "okR (compile_scripts lib 0 (pt_leaves p)) \<longleftrightarrow> (\<forall>l \<in> set (pt_leaves p). okR (LeafTemplate_Script lib l))"
    by (auto simp: okR_iff compile_scripts_Inr)
  then show ?thesis
    by (auto simp: Compile_def BuildTree_def okR_iff Let_def compile_scripts_Inr split: prod.splits)
qed

lemma ex_vhtlc_built: "okR (NewVHTLCPolicy ex_script_lib ex_vhtlc)"
proof -
  have s: "al_script ex_script_lib ops = Inr (concat (map ex_op ops))"
    "al_tokenize ex_script_lib p = (ex_tokens p None, None)" "\<not> al_hasOpSuccess ex_script_lib p"
    "al_lockTimeToSequence ex_script_lib x = x" for ops p x
    by (simp_all add: ex_script_lib_def ex_ark_def)
  have okR_bindR: "okR (bindR r (\<lambda>y. Inr (f y))) \<longleftrightarrow> okR r" for r :: "ark_error + compiledPolicy" and f :: "compiledPolicy \<Rightarrow> vhtlcPolicy"
    by (cases r) simp_all
  show ?thesis
    by (auto simp: NewVHTLCPolicy_def vhtlc_validate_def ex_vhtlc_def okR_bindR sha256Condition_def AbsoluteLockTimeCondition_def s
        Compile_ok LeafTemplate_Script_def scriptChecksig_def validateCSVLock_def SequenceLockTimeMask_def
        validateConditionPredicate_def Let_def)
qed

theorem vhtlc_recognized_and_valid_witness:
  "\<exists>pol. NewVHTLCPolicy ex_script_lib ex_vhtlc = Inr pol \<and>
     DecodeVHTLCTiming ex_script_lib (Some (vh_template pol)) = Inr (Timing ex_vhtlc)"
proof -
  obtain pol where pol: "NewVHTLCPolicy ex_script_lib ex_vhtlc = Inr pol" using ex_vhtlc_built by (auto simp: okR_iff)
  have "vo_server ex_vhtlc = Some [6]" by (simp add: ex_vhtlc_def)
  moreover have "\<forall>k. vo_sender ex_vhtlc = Some k \<or> vo_receiver ex_vhtlc = Some k \<longrightarrow>
      al_xOnly ex_script_lib k \<noteq> al_xOnly ex_script_lib [6]"
    by (auto simp: ex_vhtlc_def ex_script_lib_def ex_ark_def)
  ultimately show ?thesis using vhtlc_recognized_and_valid [OF ex_script pol] pol by blast
qed

end
