(* ===== verification/Vtxo_Policy.thy ===== *)
theory Vtxo_Policy
  imports Vtxo_Expiry Ark_Policy_Facts
begin

text \<open>
  The policy of a VTXO descriptor (\<open>vtxo/policy.go\<close>): the stored template, the output script it
  gives with or without a Taproot Asset root beside it, the standard parameters in it and the
  template of the output a refresh mints after the operator has changed its key.
\<close>

definition EffectivePolicyTemplate :: "descriptor option \<Rightarrow> ark_error + byte list" where
  "EffectivePolicyTemplate d =
     (case d of
        None \<Rightarrow> Inl (ArkError ''descriptor must be provided'')
      | Some d \<Rightarrow>
          if length (d_policyTemplate d) = 0 then Inl (ArkError ''descriptor policy template must be provided'')
          else Inr (d_policyTemplate d))"

definition Descriptor_DecodePolicyTemplate :: "arkLib \<Rightarrow> descriptor option \<Rightarrow> ark_error + policyTemplate" where
  "Descriptor_DecodePolicyTemplate lib d = bindR (EffectivePolicyTemplate d) (DecodePolicyTemplate lib)"

definition EffectivePkScript :: "arkLib \<Rightarrow> descriptor option \<Rightarrow> ark_error + byte list" where
  "EffectivePkScript lib d =
     bindR (Descriptor_DecodePolicyTemplate lib d) (\<lambda>template.
       case d_taprootAssetRoot (the d) of
         None \<Rightarrow> PkScript lib (Some template)
       | Some root \<Rightarrow>
           bindR (Compile lib (Some template)) (\<lambda>compiled.
           bindR (ComposeWithSiblingRoot lib (Some compiled) root) (\<lambda>composed.
             arkR (al_payToTaproot lib (ComposedOutputKey lib composed)))))"

definition DecodeStandardPolicyTemplate :: "arkLib \<Rightarrow> descriptor option \<Rightarrow> ark_error + standardVTXOParams" where
  "DecodeStandardPolicyTemplate lib d =
     bindR (Descriptor_DecodePolicyTemplate lib d) (\<lambda>template. DecodeStandardVTXOParams lib (Some template))"

definition RefreshOutputTemplate :: "arkLib \<Rightarrow> descriptor option \<Rightarrow> pubKey option \<Rightarrow> ark_error + byte list" where
  "RefreshOutputTemplate lib d currentOperatorKey =
     (if d = None then Inl (ArkError ''descriptor must be provided'')
      else if currentOperatorKey = None then Inl (ArkError ''current operator key must be provided'')
      else case DecodeStandardPolicyTemplate lib d of
        Inl _ \<Rightarrow> Inl (ArkError ''refresh-time operator key rewrite only supported for standard VTXO policies'')
      | Inr params \<Rightarrow>
          EncodeStandardVTXOTemplate lib (Some (sv_ownerKey params)) currentOperatorKey (sv_exitDelay params))"

section \<open>Encoding a standard template\<close>

text \<open>
  What the sizes rest on: a Bitcoin variable-length integer has at most nine bytes. And
  \<open>LockTimeToSequence\<close> leaves a block count as it is.
\<close>

definition size_laws :: "arkLib \<Rightarrow> bool" where
  "size_laws lib \<longleftrightarrow> (\<forall>n. length (al_writeVarInt lib n) \<le> 9) \<and> (\<forall>x. al_lockTimeToSequence lib x = x)"

lemma size_varBytes:
  assumes "size_laws lib"
  shows "length (writeVarBytes lib v) \<le> 9 + length v" and "length (al_writeVarInt lib n) \<le> 9"
  using assms by (auto simp: size_laws_def writeVarBytes_def)

lemma standard_node_sizes:
  assumes "size_laws lib" and "key_laws lib"
  obtains b1 b2 where "EncodeNode lib (Multisig [Some own, Some srv]) = Inr b1" "length b1 \<le> 74"
    "EncodeNode lib (CSV d (Some (Multisig [Some own]))) = Inr b2" "length b2 \<le> 61"
proof -
  have len: "length (al_xOnly lib x) = 32" for x using assms(2) by (simp add: key_laws_def)
  obtain b0 where b0: "EncodeNode lib (Multisig [Some own]) = Inr b0" "length b0 \<le> 42"
    using size_varBytes(2) [OF assms(1), of 1] by (simp add: len)
  obtain b1 where b1: "EncodeNode lib (Multisig [Some own, Some srv]) = Inr b1" "length b1 \<le> 74"
    using size_varBytes(2) [OF assms(1), of 2] by (simp add: len)
  obtain b2 where "EncodeNode lib (CSV d (Some (Multisig [Some own]))) = Inr b2" "length b2 \<le> 61"
    using b0 size_varBytes(1) [OF assms(1), of b0] size_varBytes(2) [OF assms(1), of "ucast d"]
    by (simp del: EncodeNode.simps(1))
  with b1 that show ?thesis by blast
qed

lemma standard_encodes:
  assumes "size_laws lib" and "key_laws lib" and "StandardVTXOTemplate lib (Some own) (Some srv) d = Inr t"
  obtains raw where "PolicyTemplate_Encode lib (Some t) = Inr raw" "raw \<noteq> []" "template_within lib t"
proof -
  have t: "pt_leaves t = [\<lparr>lt_node = Some (Multisig [Some own, Some srv])\<rparr>, \<lparr>lt_node = Some (CSV d (Some (Multisig [Some own])))\<rparr>]"
    using assms(1,3) by (simp add: standard_template size_laws_def)
  obtain b1 b2 where b: "EncodeNode lib (Multisig [Some own, Some srv]) = Inr b1" "length b1 \<le> 74"
    "EncodeNode lib (CSV d (Some (Multisig [Some own]))) = Inr b2" "length b2 \<le> 61"
    by (rule standard_node_sizes [OF assms(1,2)])
  define c1 c2 where "c1 = leafTemplateVersion # writeVarBytes lib b1" and "c2 = leafTemplateVersion # writeVarBytes lib b2"
  have c: "length c1 \<le> 84" "length c2 \<le> 71"
    using size_varBytes(1) [OF assms(1), of b1] size_varBytes(1) [OF assms(1), of b2] b(2,4) by (simp_all add: c1_def c2_def)
  define raw where "raw = policyTemplateVersion # al_writeVarInt lib 2 @ writeVarBytes lib c1 @ writeVarBytes lib c2"
  have leaf: "LeafTemplate_Encode lib \<lparr>lt_node = Some (Multisig [Some own, Some srv])\<rparr> = Inr c1"
    "LeafTemplate_Encode lib \<lparr>lt_node = Some (CSV d (Some (Multisig [Some own])))\<rparr> = Inr c2"
    by (simp_all add: LeafTemplate_Encode_def b c1_def c2_def del: EncodeNode.simps)
  then have raw: "PolicyTemplate_Encode lib (Some t) = Inr raw"
    by (simp add: PolicyTemplate_Encode_Inr t raw_def)
  have "length raw \<le> 183"
    using c size_varBytes(1) [OF assms(1), of c1] size_varBytes(1) [OF assms(1), of c2] size_varBytes(2) [OF assms(1), of 2]
    by (simp add: raw_def)
  then have "template_within lib t"
    using raw c leaf
    by (simp add: template_within_def t leaf_within_def leaf_depth_def MaxPolicyLeaves_def MaxPolicyDepth_def MaxPolicyNodes_def
        MaxMultisigKeys_def MaxLeafTemplateBytes_def MaxPolicyTemplateBytes_def)
  with raw that show ?thesis by (simp add: raw_def)
qed

lemma standard_stored:
  assumes "wire_laws lib" "key_laws lib" "size_laws lib"
    and "StandardVTXOTemplate lib (Some own) (Some srv) d = Inr t" "al_xOnly lib srv \<noteq> al_xOnly lib own"
  obtains raw where "PolicyTemplate_Encode lib (Some t) = Inr raw" "raw \<noteq> []"
    "bindR (DecodePolicyTemplate lib raw) (\<lambda>t. DecodeStandardVTXOParams lib (Some t)) =
       Inr \<lparr>sv_ownerKey = lift_key lib own, sv_operatorKey = lift_key lib srv, sv_exitDelay = d\<rparr>"
proof -
  obtain raw where raw: "PolicyTemplate_Encode lib (Some t) = Inr raw" "raw \<noteq> []" "template_within lib t"
    by (rule standard_encodes [OF assms(3,2,4)])
  have seq: "al_lockTimeToSequence lib x = x" for x using assms(3) by (simp add: size_laws_def)
  have lift: "al_xOnly lib (lift_key lib x) = al_xOnly lib x" for x
    using assms(2) by (auto simp: key_laws_def lift_key_def) (metis sum.sel(2))
  have t: "0 < d" "d \<le> SequenceLockTimeMask" "t = \<lparr>pt_leaves = [\<lparr>lt_node = Some (Multisig [Some own, Some srv])\<rparr>,
       \<lparr>lt_node = Some (CSV d (Some (Multisig [Some own])))\<rparr>]\<rparr>"
    using assms(4) by (simp_all add: standard_template seq)
  have "StandardVTXOTemplate lib (Some (lift_key lib own)) (Some (lift_key lib srv)) d = Inr (canon_template lib t)"
    using t by (simp add: standard_template seq canon_template_def canon_leaf_def)
  from standard_decodes [OF t(1,2) seq _ this] assms(5)
  have "DecodeStandardVTXOParams lib (Some (canon_template lib t)) =
     Inr \<lparr>sv_ownerKey = lift_key lib own, sv_operatorKey = lift_key lib srv, sv_exitDelay = d\<rparr>"
    by (simp add: lift)
  with that raw decodePolicy_encoded [OF assms(1,2) raw(1,3)] show ?thesis by simp
qed

lemma lift_key_xOnly: "key_laws lib \<Longrightarrow> al_xOnly lib (lift_key lib x) = al_xOnly lib x"
  by (auto simp: key_laws_def lift_key_def) (metis sum.sel(2))

lemma canon_member:
  assumes "Some n \<in> set (map lt_node (pt_leaves t))" and "canon_template lib t = t"
  shows "canon_node lib n = n"
proof -
  obtain l where l: "l \<in> set (pt_leaves t)" "lt_node l = Some n" using assms(1) by auto
  have "map (canon_leaf lib) (pt_leaves t) = map (\<lambda>l. l) (pt_leaves t)"
    using arg_cong [OF assms(2), of pt_leaves] by (simp add: canon_template_def)
  then have "canon_leaf lib l = l" using l(1) by (simp only: map_eq_conv)
  from arg_cong [OF this, of lt_node] l(2) show ?thesis by (simp add: canon_leaf_def)
qed

section \<open>Properties\<close>

text \<open>
  A refresh after an operator key change replaces the operator key and nothing else: for every descriptor
  with a standard policy and every other key than the owner's, \<open>RefreshOutputTemplate\<close> succeeds, and the template it
  returns decodes as a standard policy of the same owner with the same exit delay under the new
  operator key.
\<close>

lemma refresh_replaces_operator:
  assumes "wire_laws lib" "key_laws lib" "size_laws lib"
    and "DecodeStandardPolicyTemplate lib (Some d) = Inr p" and "al_xOnly lib k \<noteq> al_xOnly lib (sv_ownerKey p)"
  shows "\<exists>raw q. RefreshOutputTemplate lib (Some d) (Some k) = Inr raw \<and>
     DecodeStandardPolicyTemplate lib (Some (d\<lparr>d_policyTemplate := raw\<rparr>)) = Inr q \<and>
     sv_ownerKey q = sv_ownerKey p \<and> al_xOnly lib (sv_operatorKey q) = al_xOnly lib k \<and> sv_exitDelay q = sv_exitDelay p"
proof -
  obtain own srv dl where p: "p = \<lparr>sv_ownerKey = own, sv_operatorKey = srv, sv_exitDelay = dl\<rparr>"
    by (cases p) simp
  obtain t where t: "DecodePolicyTemplate lib (d_policyTemplate d) = Inr t" "DecodeStandardVTXOParams lib (Some t) = Inr p"
    using assms(4)
    by (auto simp: DecodeStandardPolicyTemplate_def Descriptor_DecodePolicyTemplate_def EffectivePolicyTemplate_def split: if_splits)
  have leaf: "Some (CSV dl (Some (Multisig [Some own]))) \<in> set (map lt_node (pt_leaves t))" and dl: "0 < dl" "dl \<le> SequenceLockTimeMask"
    using DecodeStandard_sound [OF t(2) [unfolded p]] by auto
  have "canon_node lib (CSV dl (Some (Multisig [Some own]))) = CSV dl (Some (Multisig [Some own]))"
    using leaf decodePolicy_decoded(3) [OF assms(1,2) t(1)] by (rule canon_member)
  then have own: "lift_key lib own = own" by simp
  obtain t' where t': "StandardVTXOTemplate lib (Some own) (Some k) dl = Inr t'" using dl by (simp add: standard_template)
  obtain raw where raw: "PolicyTemplate_Encode lib (Some t') = Inr raw" "raw \<noteq> []"
    "bindR (DecodePolicyTemplate lib raw) (\<lambda>t. DecodeStandardVTXOParams lib (Some t)) =
       Inr \<lparr>sv_ownerKey = lift_key lib own, sv_operatorKey = lift_key lib k, sv_exitDelay = dl\<rparr>"
    using standard_stored [OF assms(1-3) t'] assms(5) p by auto
  have "RefreshOutputTemplate lib (Some d) (Some k) = Inr raw"
    using assms(4) raw(1) t' by (simp add: RefreshOutputTemplate_def p EncodeStandardVTXOTemplate_def)
  moreover have "DecodeStandardPolicyTemplate lib (Some (d\<lparr>d_policyTemplate := raw\<rparr>)) =
      Inr \<lparr>sv_ownerKey = own, sv_operatorKey = lift_key lib k, sv_exitDelay = dl\<rparr>"
    using raw(2,3) own by (simp add: DecodeStandardPolicyTemplate_def Descriptor_DecodePolicyTemplate_def EffectivePolicyTemplate_def)
  ultimately show ?thesis using lift_key_xOnly [OF assms(2), of k] p by simp
qed

section \<open>Witnesses\<close>

definition ex_policy :: "byte list" where
  "ex_policy = projr (PolicyTemplate_Encode ex_ark (Some ex_template))"

lemma ex_policy_decodes: "DecodePolicyTemplate ex_ark ex_policy = Inr ex_template" "ex_policy \<noteq> []"
  using decodePolicy_encoded [OF ex_wire ex_keys ex_template_encoded(1,2)] ex_template_encoded(3)
  by (auto simp: ex_policy_def DecodePolicyTemplate_def)

lemma ex_standard:
  "StandardVTXOTemplate ex_ark (Some ex_owner) (Some ex_operator) 5 = Inr ex_template"
  "al_lockTimeToSequence ex_ark x = x"
  by (simp_all add: standard_template ex_template_def SequenceLockTimeMask_def ex_ark_def)

end
