(* ===== verification/Forfeit_Tx.thy ===== *)
theory Forfeit_Tx
  imports Recovery_Proof
begin

text \<open>
  Forfeit transactions of \<open>lib/tx/forfeit.go\<close>: the builder that spends a VTXO together
  with a connector of a new round, and the validator the round runs before a forfeit
  signature is handed out. Amounts are int64 and add with wrap-around.
\<close>

section \<open>Data\<close>

record txIn =
  in_prevout :: outPoint
  in_signatureScript :: "byte list"
  in_witness :: "byte list list"
  in_sequence :: u32

record wireTx =
  wt_version :: i32
  wt_lockTime :: u32
  wt_ins :: "txIn list"
  wt_outs :: "txOut list"

record forfeitTxContext =
  fc_vtxoSequence :: u32
  fc_lockTime :: u32

record forfeitTxParams =
  fp_vtxoOutpoint :: outPoint
  fp_connectorOutpoint :: outPoint
  fp_serverForfeitScript :: "byte list"
  fp_expectedAmount :: i64
  fp_expectedSequence :: u32
  fp_expectedLockTime :: u32

datatype forfeit_error =
    NilVTXOOutpoint
  | NilConnectorOutpoint
  | EmptyForfeitScript
  | VTXOAmountNotPositive i64
  | NegativeConnectorAmount i64
  | NilForfeitTx
  | BadInputCount nat
  | BadVersion i32
  | BadVTXOSequence u32 u32
  | BadConnectorSequence u32
  | BadLockTime u32 u32
  | WrongVTXOInput outPoint
  | WrongConnectorInput outPoint
  | BadOutputCount nat
  | WrongPenaltyScript
  | WrongPenaltyAmount i64 i64
  | NotAnAnchor
  | AnchorHasValue i64

definition MaxTxInSequenceNum :: u32 where
  "MaxTxInSequenceNum = 0xffffffff"

definition forfeitTxVersion :: i32 where
  "forfeitTxVersion = 3"

definition forfeitConnectorSequence :: u32 where
  "forfeitConnectorSequence = MaxTxInSequenceNum"

definition ForfeitVTXOInputIndex :: nat where
  "ForfeitVTXOInputIndex = 0"

definition ForfeitConnectorInputIndex :: nat where
  "ForfeitConnectorInputIndex = 1"

definition ForfeitPenaltyOutputIndex :: nat where
  "ForfeitPenaltyOutputIndex = 0"

definition ForfeitAnchorOutputIndex :: nat where
  "ForfeitAnchorOutputIndex = 1"

section \<open>Building\<close>

text \<open>\<open>AnchorOutput\<close> without options, as every forfeit uses it.\<close>

definition AnchorOutput :: txOut where
  "AnchorOutput = \<lparr>out_value = 0, out_pkScript = AnchorPkScript\<rparr>"

definition BuildForfeitTxWithContext :: "outPoint option \<Rightarrow> i64 \<Rightarrow> outPoint option \<Rightarrow> i64 \<Rightarrow> byte list
    \<Rightarrow> forfeitTxContext \<Rightarrow> forfeit_error + wireTx" where
  "BuildForfeitTxWithContext vtxoOutpoint vtxoAmount connectorOutpoint connectorAmount serverForfeitScript ctx =
     (case vtxoOutpoint of
        None \<Rightarrow> Inl NilVTXOOutpoint
      | Some vtxo \<Rightarrow>
          (case connectorOutpoint of
             None \<Rightarrow> Inl NilConnectorOutpoint
           | Some connector \<Rightarrow>
               if length serverForfeitScript = 0 then Inl EmptyForfeitScript
               else if sint vtxoAmount \<le> 0 then Inl (VTXOAmountNotPositive vtxoAmount)
               else if sint connectorAmount < 0 then Inl (NegativeConnectorAmount connectorAmount)
               else
                 let vtxoSequence = (if fc_vtxoSequence ctx = 0 then MaxTxInSequenceNum else fc_vtxoSequence ctx) in
                 Inr \<lparr>wt_version = forfeitTxVersion, wt_lockTime = fc_lockTime ctx,
                      wt_ins = [\<lparr>in_prevout = vtxo, in_signatureScript = [], in_witness = [], in_sequence = vtxoSequence\<rparr>,
                                \<lparr>in_prevout = connector, in_signatureScript = [], in_witness = [],
                                 in_sequence = forfeitConnectorSequence\<rparr>],
                      wt_outs = [\<lparr>out_value = vtxoAmount + connectorAmount, out_pkScript = serverForfeitScript\<rparr>,
                                 AnchorOutput]\<rparr>))"

definition BuildForfeitTx :: "outPoint option \<Rightarrow> i64 \<Rightarrow> outPoint option \<Rightarrow> i64 \<Rightarrow> byte list \<Rightarrow> forfeit_error + wireTx" where
  "BuildForfeitTx vtxoOutpoint vtxoAmount connectorOutpoint connectorAmount serverForfeitScript =
     BuildForfeitTxWithContext vtxoOutpoint vtxoAmount connectorOutpoint connectorAmount serverForfeitScript
       \<lparr>fc_vtxoSequence = MaxTxInSequenceNum, fc_lockTime = 0\<rparr>"

section \<open>Validation\<close>

definition validateForfeitTxContext :: "wireTx \<Rightarrow> forfeitTxParams \<Rightarrow> forfeit_error option" where
  "validateForfeitTxContext tx params =
     (if wt_version tx \<noteq> forfeitTxVersion then Some (BadVersion (wt_version tx))
      else
        let expectedSequence = (if fp_expectedSequence params = 0 then MaxTxInSequenceNum else fp_expectedSequence params);
            vtxoIn = wt_ins tx ! ForfeitVTXOInputIndex;
            connectorIn = wt_ins tx ! ForfeitConnectorInputIndex in
        if in_sequence vtxoIn \<noteq> expectedSequence then Some (BadVTXOSequence (in_sequence vtxoIn) expectedSequence)
        else if in_sequence connectorIn \<noteq> forfeitConnectorSequence
        then Some (BadConnectorSequence (in_sequence connectorIn))
        else if wt_lockTime tx \<noteq> fp_expectedLockTime params
        then Some (BadLockTime (wt_lockTime tx) (fp_expectedLockTime params))
        else None)"

definition check_forfeit_outputs :: "wireTx \<Rightarrow> forfeitTxParams \<Rightarrow> forfeit_error option" where
  "check_forfeit_outputs tx params =
     (if length (wt_outs tx) \<noteq> 2 then Some (BadOutputCount (length (wt_outs tx)))
      else
        let penaltyOut = wt_outs tx ! ForfeitPenaltyOutputIndex;
            anchorOut = wt_outs tx ! ForfeitAnchorOutputIndex in
        if out_pkScript penaltyOut \<noteq> fp_serverForfeitScript params then Some WrongPenaltyScript
        else if sint (fp_expectedAmount params) > 0 \<and> out_value penaltyOut \<noteq> fp_expectedAmount params
        then Some (WrongPenaltyAmount (out_value penaltyOut) (fp_expectedAmount params))
        else if out_pkScript anchorOut \<noteq> AnchorPkScript then Some NotAnAnchor
        else if out_value anchorOut \<noteq> 0 then Some (AnchorHasValue (out_value anchorOut))
        else None)"

definition ValidateForfeitTx :: "wireTx option \<Rightarrow> forfeitTxParams \<Rightarrow> forfeit_error option" where
  "ValidateForfeitTx forfeitTx params =
     (case forfeitTx of
        None \<Rightarrow> Some NilForfeitTx
      | Some tx \<Rightarrow>
          if length (wt_ins tx) \<noteq> 2 then Some (BadInputCount (length (wt_ins tx)))
          else thenErr (validateForfeitTxContext tx params)
            (let vtxoIn = wt_ins tx ! ForfeitVTXOInputIndex;
                 connectorIn = wt_ins tx ! ForfeitConnectorInputIndex in
             if in_prevout vtxoIn \<noteq> fp_vtxoOutpoint params then Some (WrongVTXOInput (in_prevout vtxoIn))
             else if in_prevout connectorIn \<noteq> fp_connectorOutpoint params
             then Some (WrongConnectorInput (in_prevout connectorIn))
             else check_forfeit_outputs tx params))"

lemmas forfeit_indices = ForfeitVTXOInputIndex_def ForfeitConnectorInputIndex_def
  ForfeitPenaltyOutputIndex_def ForfeitAnchorOutputIndex_def

section \<open>Properties\<close>

text \<open>The transaction without the data that signing adds to its inputs.\<close>

definition unsigned :: "wireTx \<Rightarrow> wireTx" where
  "unsigned tx = tx\<lparr>wt_ins := map (\<lambda>i. i\<lparr>in_signatureScript := [], in_witness := []\<rparr>) (wt_ins tx)\<rparr>"

text \<open>
  C21: The validator accepts exactly the canonical forfeit: when a positive amount is expected and the
  server's script is not empty, a transaction passes if and only if, up to the signature scripts and
  witnesses of its inputs, which the validator does not read, it is the one the builder makes for
  the same outpoints, script and spend path and for that amount.
\<close>

theorem ValidateForfeitTx_iff_built:
  assumes "fp_serverForfeitScript params \<noteq> []" and "0 < sint (fp_expectedAmount params)"
  shows "ValidateForfeitTx (Some tx) params = None \<longleftrightarrow>
     BuildForfeitTxWithContext (Some (fp_vtxoOutpoint params)) (fp_expectedAmount params)
       (Some (fp_connectorOutpoint params)) 0 (fp_serverForfeitScript params)
       \<lparr>fc_vtxoSequence = fp_expectedSequence params, fc_lockTime = fp_expectedLockTime params\<rparr> = Inr (unsigned tx)"
    (is "?V \<longleftrightarrow> ?B")
proof -
  have "?B \<longleftrightarrow> unsigned tx = \<lparr>wt_version = forfeitTxVersion, wt_lockTime = fp_expectedLockTime params,
      wt_ins = [\<lparr>in_prevout = fp_vtxoOutpoint params, in_signatureScript = [], in_witness = [],
                 in_sequence = (if fp_expectedSequence params = 0 then MaxTxInSequenceNum else fp_expectedSequence params)\<rparr>,
                \<lparr>in_prevout = fp_connectorOutpoint params, in_signatureScript = [], in_witness = [],
                 in_sequence = forfeitConnectorSequence\<rparr>],
      wt_outs = [\<lparr>out_value = fp_expectedAmount params, out_pkScript = fp_serverForfeitScript params\<rparr>, AnchorOutput]\<rparr>"
    using assms by (auto simp: BuildForfeitTxWithContext_def)
  also have "\<dots> \<longleftrightarrow> ?V"
  proof (cases tx)
    case (fields v l ins outs)
    show ?thesis
    proof (cases "length ins = 2 \<and> length outs = 2")
      case True
      then obtain a b c d where [simp]: "ins = [a, b]" "outs = [c, d]"
        by (auto simp: length_Suc_conv numeral_2_eq_2)
      show ?thesis
        using assms(2)
        by (cases a; cases b; cases c; cases d)
          (auto simp: fields unsigned_def ValidateForfeitTx_def validateForfeitTxContext_def check_forfeit_outputs_def
            forfeit_indices AnchorOutput_def Let_def thenErr_def)
    next
      case False
      then have "length (wt_ins (unsigned tx)) \<noteq> 2 \<or> length (wt_outs (unsigned tx)) \<noteq> 2"
        by (auto simp: fields unsigned_def)
      then have "unsigned tx \<noteq> \<lparr>wt_version = x, wt_lockTime = y, wt_ins = [i, j], wt_outs = [k, m]\<rparr>" for x y i j k m
        by auto
      with False show ?thesis
        by (auto simp: fields ValidateForfeitTx_def check_forfeit_outputs_def Let_def thenErr_def
            split: if_splits option.splits)
    qed
  qed
  finally show ?thesis by blast
qed

theorem ValidateForfeitTx_iff_built_witness:
  "ValidateForfeitTx (Some \<lparr>wt_version = 3, wt_lockTime = 0,
      wt_ins = [\<lparr>in_prevout = \<lparr>op_hash = 6, op_index = 0\<rparr>, in_signatureScript = [], in_witness = [[1, 2]],
                 in_sequence = 0xffffffff\<rparr>,
                \<lparr>in_prevout = \<lparr>op_hash = 9, op_index = 1\<rparr>, in_signatureScript = [], in_witness = [],
                 in_sequence = 0xffffffff\<rparr>],
      wt_outs = [\<lparr>out_value = 1330, out_pkScript = [0x51]\<rparr>, AnchorOutput]\<rparr>)
    \<lparr>fp_vtxoOutpoint = \<lparr>op_hash = 6, op_index = 0\<rparr>, fp_connectorOutpoint = \<lparr>op_hash = 9, op_index = 1\<rparr>,
     fp_serverForfeitScript = [0x51], fp_expectedAmount = 1330, fp_expectedSequence = 0, fp_expectedLockTime = 0\<rparr> = None"
  by (subst ValidateForfeitTx_iff_built)
    (simp_all add: unsigned_def BuildForfeitTxWithContext_def MaxTxInSequenceNum_def forfeitTxVersion_def
      forfeitConnectorSequence_def)

end
