(* ===== verification/Vtxo_Forfeit.thy ===== *)
theory Vtxo_Forfeit
  imports Vtxo_Policy Forfeit_Tx
begin

text \<open>
  The forfeit signing flow of \<open>vtxo/transitions.go\<close>: choosing the path the VTXO input is
  spent by, building the forfeit transaction, the local signature, the signatures of other
  participants and their verification. What belongs to btcd, lnd and the wallet (signature
  hashes, signing and verification, transaction hashes) are fields of \<open>cryptoLib\<close> and
  \<open>vtxoEnv\<close>.
\<close>

section \<open>Data\<close>

type_synonym signature = "byte list"

record participantSig =
  pg_pubKey :: "pubKey option"
  pg_signature :: "signature option"

record forfeitRequest =
  fr_roundID :: string
  fr_connectorOutpoint :: outPoint
  fr_connectorPkScript :: "byte list"
  fr_connectorAmount :: i64
  fr_serverForfeitPkScript :: "byte list"
  fr_forfeitSpend :: "spendPath option"

record participantSignRequest =
  rq_vtxo :: "descriptor option"
  rq_spendPath :: "spendPath option"
  rq_forfeitTx :: "wireTx option"
  rq_connectorOutpoint :: outPoint
  rq_connectorPkScript :: "byte list"
  rq_connectorAmount :: i64
  rq_serverForfeitPkScript :: "byte list"

record forfeitSubmission =
  fs_outpoint :: outPoint
  fs_roundID :: string
  fs_forfeitTx :: wireTx
  fs_signature :: signature
  fs_participantSigs :: "participantSig option list"
  fs_spendPath :: spendPath

text \<open>The prevouts a signature hash commits to.\<close>

type_synonym prevouts = "(outPoint \<times> txOut) list"

record cryptoLib =
  cl_ark :: arkLib
  cl_txHash :: "wireTx \<Rightarrow> hash"
  cl_sigHash :: "wireTx \<Rightarrow> nat \<Rightarrow> prevouts \<Rightarrow> byte list \<Rightarrow> string + byte list"
  cl_parseSignature :: "byte list \<Rightarrow> string + signature"
  cl_verify :: "signature \<Rightarrow> byte list \<Rightarrow> pubKey \<Rightarrow> bool"

record vtxoEnv =
  ve_lib :: cryptoLib
  ve_expiryConfig :: expiryConfig
  ve_wallet :: "(wireTx \<Rightarrow> pubKey option \<Rightarrow> spendInfo \<Rightarrow> nat \<Rightarrow> prevouts \<Rightarrow> string + byte list) option"
  ve_participantSigner :: "(participantSignRequest \<Rightarrow> string + participantSig option list) option"

datatype vtxo_error =
    LibError string
  | AssetVTXORequiresTransition
  | VTXODescriptorRequired
  | ArkPolicyError ark_error
  | PkScriptNotPolicy
  | ForfeitTxError forfeit_error
  | WalletRequired
  | ParticipantSignatureRequired
  | ParticipantPubKeyRequired
  | ParticipantSchnorrRequired
  | InvalidParticipantSignature nat
  | ParticipantRequestRequired
  | ParticipantSpendPathRequired
  | ParticipantTxRequired
  | LocalPubKeyRequired
  | LocalSignatureRequired
  | DuplicateParticipant
  | ExternalUsesLocalKey
  | DuplicateLocalParticipant
  | ForfeitInFlight outPoint VTXOStatus string
  | CohortNotOwned
  | CannotReserveForSpend
  | CannotAcceptPendingForfeit
  | AlreadyReservedForSpend
  | ForfeitReleaseRoundMismatch outPoint string string
  | UnexpectedEvent string

fun libR :: "string + 'a \<Rightarrow> vtxo_error + 'a" where
  "libR (Inl e) = Inl (LibError e)"
| "libR (Inr x) = Inr x"

fun policyR :: "ark_error + 'a \<Rightarrow> vtxo_error + 'a" where
  "policyR (Inl e) = Inl (ArkPolicyError e)"
| "policyR (Inr x) = Inr x"

lemma policyR_Inr [simp]: "policyR r = Inr x \<longleftrightarrow> r = Inr x"
  by (cases r) simp_all

section \<open>The spend path of a forfeit\<close>

definition resolveForfeitSpendPath :: "vtxoEnv \<Rightarrow> descriptor option \<Rightarrow> forfeitRequest option \<Rightarrow> vtxo_error + spendPath" where
  "resolveForfeitSpendPath env vtxo evt =
     (case vtxo of
        None \<Rightarrow> Inl VTXODescriptorRequired
      | Some d \<Rightarrow>
          if d_taprootAssetRoot d \<noteq> None then Inl AssetVTXORequiresTransition
          else
            let ark = cl_ark (ve_lib env) in
            case Option.bind evt fr_forfeitSpend of
              Some path \<Rightarrow>
                (case SpendPath_Validate (Some path) of
                   Some e \<Rightarrow> Inl (ArkPolicyError e)
                 | None \<Rightarrow>
                     bindR (policyR (EffectivePkScript ark vtxo)) (\<lambda>pkScript.
                       if pkScript \<noteq> d_pkScript d then Inl PkScriptNotPolicy
                       else (case VerifyBindsToPkScript ark (Some path) pkScript of
                           Some e \<Rightarrow> Inl (ArkPolicyError e)
                         | None \<Rightarrow> Inr path)))
            | None \<Rightarrow>
                bindR (policyR (NewVTXOPolicy ark (d_clientKey d) (d_operatorKey d) (d_relativeExpiry d))) (\<lambda>policy.
                bindR (policyR (CollabSpendInfo ark policy)) (\<lambda>i.
                  Inr \<lparr>sp_spendInfo = Some i, sp_requiredSequence = 0, sp_requiredLockTime = 0, sp_conditions = []\<rparr>)))"

section \<open>Signatures\<close>

definition NewForfeitPrevOutFetcher :: "outPoint \<Rightarrow> txOut \<Rightarrow> outPoint \<Rightarrow> txOut \<Rightarrow> prevouts" where
  "NewForfeitPrevOutFetcher vtxo vtxoOutput connector connectorOutput =
     [(vtxo, vtxoOutput), (connector, connectorOutput)]"

definition signForfeitVTXOInput :: "descriptor \<Rightarrow> spendPath \<Rightarrow> forfeitRequest \<Rightarrow> wireTx \<Rightarrow> vtxoEnv
    \<Rightarrow> vtxo_error + signature" where
  "signForfeitVTXOInput vtxo path evt forfeitTx env =
     (case ve_wallet env of
        None \<Rightarrow> Inl WalletRequired
      | Some signOutputRaw \<Rightarrow>
          let vtxoOutput = \<lparr>out_value = d_amount vtxo, out_pkScript = d_pkScript vtxo\<rparr>;
              connectorOutput = \<lparr>out_value = fr_connectorAmount evt, out_pkScript = fr_connectorPkScript evt\<rparr>;
              prevFetcher = NewForfeitPrevOutFetcher (d_outpoint vtxo) vtxoOutput
                              (fr_connectorOutpoint evt) connectorOutput in
          bindR (libR (signOutputRaw forfeitTx (d_clientKey vtxo) (the (sp_spendInfo path))
                         ForfeitVTXOInputIndex prevFetcher)) (\<lambda>sig.
            libR (cl_parseSignature (ve_lib env) sig)))"

definition forfeitParticipantSigHash :: "cryptoLib \<Rightarrow> participantSignRequest option \<Rightarrow> vtxo_error + byte list" where
  "forfeitParticipantSigHash lib req =
     (case req of
        None \<Rightarrow> Inl ParticipantRequestRequired
      | Some r \<Rightarrow>
          (case rq_vtxo r of
             None \<Rightarrow> Inl ParticipantRequestRequired
           | Some vtxo \<Rightarrow>
               (case rq_spendPath r of
                  None \<Rightarrow> Inl ParticipantSpendPathRequired
                | Some path \<Rightarrow>
                    (case rq_forfeitTx r of
                       None \<Rightarrow> Inl ParticipantTxRequired
                     | Some forfeitTx \<Rightarrow>
                         let prevFetcher = NewForfeitPrevOutFetcher
                               (d_outpoint vtxo) \<lparr>out_value = d_amount vtxo, out_pkScript = d_pkScript vtxo\<rparr>
                               (rq_connectorOutpoint r)
                               \<lparr>out_value = rq_connectorAmount r, out_pkScript = rq_connectorPkScript r\<rparr> in
                         libR (cl_sigHash lib forfeitTx ForfeitVTXOInputIndex prevFetcher
                                 (si_witnessScript (the (sp_spendInfo path))))))))"

fun verify_sigs :: "cryptoLib \<Rightarrow> byte list \<Rightarrow> nat \<Rightarrow> participantSig option list \<Rightarrow> vtxo_error option" where
  "verify_sigs lib sighash idx [] = None"
| "verify_sigs lib sighash idx (sig # sigs) =
     (case sig of
        None \<Rightarrow> Some ParticipantSignatureRequired
      | Some s \<Rightarrow>
          (case pg_pubKey s of
             None \<Rightarrow> Some ParticipantPubKeyRequired
           | Some key \<Rightarrow>
               (case pg_signature s of
                  None \<Rightarrow> Some ParticipantSchnorrRequired
                | Some schnorr \<Rightarrow>
                    if \<not> cl_verify lib schnorr sighash key then Some (InvalidParticipantSignature idx)
                    else verify_sigs lib sighash (Suc idx) sigs)))"

definition verifyForfeitParticipantSignatures :: "cryptoLib \<Rightarrow> participantSignRequest option
    \<Rightarrow> participantSig option list \<Rightarrow> vtxo_error option" where
  "verifyForfeitParticipantSignatures lib req sigs =
     (if length sigs = 0 then None
      else case forfeitParticipantSigHash lib req of
        Inl e \<Rightarrow> Some e
      | Inr sighash \<Rightarrow> verify_sigs lib sighash 0 sigs)"

definition externalForfeitParticipantSigs :: "descriptor \<Rightarrow> spendPath \<Rightarrow> forfeitRequest \<Rightarrow> wireTx \<Rightarrow> vtxoEnv
    \<Rightarrow> vtxo_error + participantSig option list" where
  "externalForfeitParticipantSigs vtxo path evt forfeitTx env =
     (case ve_participantSigner env of
        None \<Rightarrow> Inr []
      | Some signer \<Rightarrow>
          if fr_forfeitSpend evt = None then Inr []
          else
            let req = \<lparr>rq_vtxo = Some vtxo, rq_spendPath = Some path, rq_forfeitTx = Some forfeitTx,
                       rq_connectorOutpoint = fr_connectorOutpoint evt,
                       rq_connectorPkScript = fr_connectorPkScript evt,
                       rq_connectorAmount = fr_connectorAmount evt,
                       rq_serverForfeitPkScript = fr_serverForfeitPkScript evt\<rparr> in
            bindR (libR (signer req)) (\<lambda>sigs.
              case verifyForfeitParticipantSignatures (ve_lib env) (Some req) sigs of
                Some e \<Rightarrow> Inl e
              | None \<Rightarrow> Inr sigs))"

definition participantForfeitKeyID :: "cryptoLib \<Rightarrow> pubKey option \<Rightarrow> byte list" where
  "participantForfeitKeyID lib key = (case key of None \<Rightarrow> [] | Some k \<Rightarrow> al_xOnly (cl_ark lib) k)"

definition sameParticipantForfeitKey :: "cryptoLib \<Rightarrow> pubKey option \<Rightarrow> pubKey option \<Rightarrow> bool" where
  "sameParticipantForfeitKey lib a b \<longleftrightarrow> participantForfeitKeyID lib a = participantForfeitKeyID lib b"

fun collect_sigs :: "cryptoLib \<Rightarrow> pubKey \<Rightarrow> participantSig option list \<Rightarrow> byte list set \<Rightarrow> participantSig option list
    \<Rightarrow> vtxo_error + byte list set \<times> participantSig option list" where
  "collect_sigs lib localKey [] seen acc = Inr (seen, acc)"
| "collect_sigs lib localKey (sig # sigs) seen acc =
     (case sig of
        None \<Rightarrow> Inl ParticipantSignatureRequired
      | Some s \<Rightarrow>
          if pg_pubKey s = None then Inl ParticipantPubKeyRequired
          else if pg_signature s = None then Inl ParticipantSchnorrRequired
          else
            let keyID = participantForfeitKeyID lib (pg_pubKey s) in
            if keyID \<in> seen then Inl DuplicateParticipant
            else if sameParticipantForfeitKey lib (pg_pubKey s) (Some localKey) then Inl ExternalUsesLocalKey
            else collect_sigs lib localKey sigs (insert keyID seen) (acc @ [sig]))"

definition participantForfeitSigs :: "cryptoLib \<Rightarrow> pubKey option \<Rightarrow> signature option \<Rightarrow> bool
    \<Rightarrow> participantSig option list \<Rightarrow> vtxo_error + participantSig option list" where
  "participantForfeitSigs lib localPubKey localSig customSpend externalSigs =
     (if \<not> (customSpend \<or> length externalSigs > 0) then Inr []
      else case localPubKey of
        None \<Rightarrow> Inl LocalPubKeyRequired
      | Some localKey \<Rightarrow>
          if localSig = None then Inl LocalSignatureRequired
          else bindR (collect_sigs lib localKey externalSigs {} []) (\<lambda>(seen, participantSigs).
            if participantForfeitKeyID lib (Some localKey) \<in> seen then Inl DuplicateLocalParticipant
            else Inr (participantSigs @ [Some \<lparr>pg_pubKey = Some localKey, pg_signature = localSig\<rparr>])))"

section \<open>The forfeit of one VTXO\<close>

text \<open>
  The sequence both the live and the pending-forfeit handler run: resolve the path, build the
  transaction, sign it, gather the other signatures and assemble the submission.
\<close>

definition sign_forfeit :: "descriptor \<Rightarrow> forfeitRequest \<Rightarrow> vtxoEnv \<Rightarrow> vtxo_error + forfeitSubmission" where
  "sign_forfeit vtxo evt env =
     bindR (resolveForfeitSpendPath env (Some vtxo) (Some evt)) (\<lambda>path.
       case BuildForfeitTxWithContext (Some (d_outpoint vtxo)) (d_amount vtxo) (Some (fr_connectorOutpoint evt))
              (fr_connectorAmount evt) (fr_serverForfeitPkScript evt)
              \<lparr>fc_vtxoSequence = sp_requiredSequence path, fc_lockTime = sp_requiredLockTime path\<rparr> of
         Inl e \<Rightarrow> Inl (ForfeitTxError e)
       | Inr forfeitTx \<Rightarrow>
           bindR (signForfeitVTXOInput vtxo path evt forfeitTx env) (\<lambda>sig.
           bindR (externalForfeitParticipantSigs vtxo path evt forfeitTx env) (\<lambda>externalSigs.
           bindR (participantForfeitSigs (ve_lib env) (d_clientKey vtxo) (Some sig)
                    (fr_forfeitSpend evt \<noteq> None) externalSigs) (\<lambda>participantSigs.
             Inr \<lparr>fs_outpoint = d_outpoint vtxo, fs_roundID = fr_roundID evt, fs_forfeitTx = forfeitTx,
                  fs_signature = sig, fs_participantSigs = participantSigs, fs_spendPath = path\<rparr>))))"

end
