(* ===== verification/Vtxo_FSM.thy ===== *)
theory Vtxo_FSM
  imports Vtxo_Forfeit
begin

text \<open>
  The VTXO lifecycle of \<open>vtxo/states.go\<close> and \<open>vtxo/transitions.go\<close>: the states, the events
  that drive them, the messages they emit, and \<open>ProcessEvent\<close> of every state. A transition is
  the next state and the outbox; an error leaves the state as it was. A height stored in the
  receiver before a transition is built is stored in the returned state: no handler that does
  so can fail afterwards. Logging is not modelled.
\<close>

section \<open>Data\<close>

fun dec_nat :: "nat \<Rightarrow> string" where
  "dec_nat n = (if n < 10 then [char_of (48 + n)] else dec_nat (n div 10) @ [char_of (48 + n mod 10)])"

declare dec_nat.simps [simp del]

definition dec_int :: "int \<Rightarrow> string" where
  "dec_int i = (if i < 0 then ''-'' @ dec_nat (nat (- i)) else dec_nat (nat i))"

record exitPolicy =
  ep_kind :: string
  ep_ref :: string

definition UnrollTriggerCriticalExpiry :: string where
  "UnrollTriggerCriticalExpiry = ''''"

record forfeiting =
  ff_vtxo :: descriptor
  ff_lastCheckedHeight :: i32
  ff_newRoundID :: string
  ff_connectorOutpoint :: outPoint
  ff_forfeitTxID :: hash
  ff_forfeitTx :: "wireTx option"

datatype vtxoState =
    LiveState descriptor i32
  | PendingForfeitState descriptor i32
  | SpendingState descriptor i32
  | SpentState descriptor
  | ForfeitingState forfeiting
  | ForfeitedState descriptor string hash
  | UnilateralExitState descriptor string i32
  | FailedState descriptor string "string option" bool
  | ExpiredState descriptor i32

datatype vtxoEvent =
    BlockEpochEvent i32
  | CriticalRefreshEvent i32
  | CohortRefreshEvent i32 i32
  | CohortRefreshReleaseEvent
  | SpendReserveEvent
  | SpendReleasedEvent
  | SpendCompletedEvent
  | PendingForfeitEvent
  | ForfeitRequestEvent forfeitRequest
  | ForfeitSignedEvent hash
  | ForfeitConfirmedEvent hash i32
  | ForfeitReleasedEvent string
  | ResumeVTXOEvent
  | ForceUnrollEvent string string "exitPolicy option"
  | ExitFailedEvent string
  | ExitConfirmedEvent
  | ExitConflictedEvent string
  | VTXOFailedEvent string "string option" bool

record statusUpdate =
  su_outpoint :: outPoint
  su_newStatus :: VTXOStatus
  su_roundID :: string
  su_forfeitTx :: "wireTx option"
  su_releaseSpendReservation :: bool

record expiringNotification =
  xn_vtxo :: descriptor
  xn_blocksRemaining :: i32
  xn_reason :: string
  xn_trigger :: string
  xn_exitPolicy :: "exitPolicy option"

datatype vtxoOutMsg =
    ForfeitRequestMsg outPoint i32 bool bool
  | ExpiringMsg expiringNotification
  | ForfeitSignatureMsg forfeitSubmission
  | StatusUpdateMsg statusUpdate
  | TerminatedMsg outPoint string string

type_synonym transition = "vtxoState \<times> vtxoOutMsg list"

fun IsTerminal :: "vtxoState \<Rightarrow> bool" where
  "IsTerminal (LiveState _ _) = False"
| "IsTerminal (PendingForfeitState _ _) = False"
| "IsTerminal (SpendingState _ _) = False"
| "IsTerminal (SpentState _) = True"
| "IsTerminal (ForfeitingState _) = False"
| "IsTerminal (ForfeitedState _ _ _) = True"
| "IsTerminal (UnilateralExitState _ _ _) = False"
| "IsTerminal (FailedState _ _ _ _) = True"
| "IsTerminal (ExpiredState _ _) = False"

text \<open>A status update that sets only the outpoint and the status.\<close>

definition set_status :: "descriptor \<Rightarrow> VTXOStatus \<Rightarrow> statusUpdate" where
  "set_status vtxo status = \<lparr>su_outpoint = d_outpoint vtxo, su_newStatus = status, su_roundID = [],
     su_forfeitTx = None, su_releaseSpendReservation = False\<rparr>"

definition expiring :: "descriptor \<Rightarrow> i32 \<Rightarrow> string \<Rightarrow> expiringNotification" where
  "expiring vtxo blocksRemaining reason = \<lparr>xn_vtxo = vtxo, xn_blocksRemaining = blocksRemaining,
     xn_reason = reason, xn_trigger = [], xn_exitPolicy = None\<rparr>"

section \<open>Releasing a reservation\<close>

definition stateAfterForfeitRelease :: "expiryConfig \<Rightarrow> descriptor \<Rightarrow> i32 \<Rightarrow> vtxoState" where
  "stateAfterForfeitRelease cfg vtxo lastHeight =
     (let expired = (sint lastHeight > 0 \<and> CheckExpiry cfg (Some vtxo) lastHeight = ExpiryStatusExpired) in
      if \<not> expired then LiveState vtxo lastHeight else ExpiredState vtxo lastHeight)"

fun release_status :: "vtxoState \<Rightarrow> VTXOStatus" where
  "release_status (ExpiredState _ _) = VTXOStatusExpired"
| "release_status _ = VTXOStatusLive"

definition forfeitReleaseTransition :: "vtxoState \<Rightarrow> descriptor \<Rightarrow> transition" where
  "forfeitReleaseTransition nextState vtxo =
     (nextState, [StatusUpdateMsg (set_status vtxo (release_status nextState))])"

section \<open>LiveState\<close>

definition autoRefreshTransition :: "descriptor \<Rightarrow> i32 \<Rightarrow> i32 \<Rightarrow> bool \<Rightarrow> vtxoEnv \<Rightarrow> transition" where
  "autoRefreshTransition vtxo lastChecked height cohortMember env =
     (if \<not> canAutoRefresh (ve_expiryConfig env) vtxo height then (LiveState vtxo lastChecked, [])
      else (PendingForfeitState vtxo height,
            [ForfeitRequestMsg (d_outpoint vtxo) height (\<not> cohortMember) cohortMember,
             StatusUpdateMsg (set_status vtxo VTXOStatusPendingForfeit)]))"

definition handleCohortRefresh :: "descriptor \<Rightarrow> i32 \<Rightarrow> i32 \<Rightarrow> i32 \<Rightarrow> vtxoEnv \<Rightarrow> transition" where
  "handleCohortRefresh vtxo lastChecked height batchExpiry env =
     (if sint batchExpiry \<le> 0 \<or> d_batchExpiry vtxo \<noteq> batchExpiry then (LiveState vtxo lastChecked, [])
      else
        let status = CheckExpiry (ve_expiryConfig env) (Some vtxo) height in
        if status \<noteq> ExpiryStatusSafe \<and> status \<noteq> ExpiryStatusNeedsRefresh then (LiveState vtxo lastChecked, [])
        else autoRefreshTransition vtxo height height True env)"

definition handlePendingForfeit :: "descriptor \<Rightarrow> vtxo_error + transition" where
  "handlePendingForfeit vtxo =
     (if d_taprootAssetRoot vtxo \<noteq> None then Inl AssetVTXORequiresTransition
      else Inr (PendingForfeitState vtxo 0, [StatusUpdateMsg (set_status vtxo VTXOStatusPendingForfeit)]))"

definition handleSpendReserve :: "descriptor \<Rightarrow> i32 \<Rightarrow> vtxo_error + transition" where
  "handleSpendReserve vtxo lastChecked =
     (if d_taprootAssetRoot vtxo \<noteq> None then Inl AssetVTXORequiresTransition
      else Inr (SpendingState vtxo lastChecked, [StatusUpdateMsg (set_status vtxo VTXOStatusSpending)]))"

definition or_default :: "string \<Rightarrow> string \<Rightarrow> string" where
  "or_default reason dflt = (if reason = [] then dflt else reason)"

definition handleForceUnroll :: "descriptor \<Rightarrow> i32 \<Rightarrow> string \<Rightarrow> string \<Rightarrow> exitPolicy option \<Rightarrow> transition" where
  "handleForceUnroll vtxo lastChecked evtReason trigger policy =
     (let reason = or_default evtReason ''manual unroll'' in
      (UnilateralExitState vtxo reason lastChecked,
       [ExpiringMsg (expiring vtxo 0 reason\<lparr>xn_trigger := trigger, xn_exitPolicy := policy\<rparr>),
        StatusUpdateMsg (set_status vtxo VTXOStatusUnilateralExit)]))"

definition handleBlockEpoch :: "descriptor \<Rightarrow> i32 \<Rightarrow> vtxoEnv \<Rightarrow> transition" where
  "handleBlockEpoch vtxo height env =
     (case CheckExpiry (ve_expiryConfig env) (Some vtxo) height of
        ExpiryStatusSafe \<Rightarrow> (LiveState vtxo height, [])
      | ExpiryStatusUnknown \<Rightarrow> (LiveState vtxo height, [])
      | ExpiryStatusNeedsRefresh \<Rightarrow> autoRefreshTransition vtxo height height False env
      | ExpiryStatusCritical \<Rightarrow>
          let blocksRemaining = BlocksUntilExpiry vtxo height;
              reason = ''critical expiry: '' @ dec_int (sint blocksRemaining) @ '' blocks remaining'' in
          (UnilateralExitState vtxo reason height,
           [ExpiringMsg (expiring vtxo blocksRemaining ''batch expiry imminent''),
            StatusUpdateMsg (set_status vtxo VTXOStatusUnilateralExit)])
      | ExpiryStatusExpired \<Rightarrow>
          (ExpiredState vtxo height, [StatusUpdateMsg (set_status vtxo VTXOStatusExpired)]))"

definition forfeiting_transition :: "descriptor \<Rightarrow> i32 \<Rightarrow> forfeitRequest \<Rightarrow> vtxoEnv \<Rightarrow> forfeitSubmission \<Rightarrow> transition" where
  "forfeiting_transition vtxo lastChecked evt env submission =
     (ForfeitingState \<lparr>ff_vtxo = vtxo, ff_lastCheckedHeight = lastChecked, ff_newRoundID = fr_roundID evt,
        ff_connectorOutpoint = fr_connectorOutpoint evt,
        ff_forfeitTxID = cl_txHash (ve_lib env) (fs_forfeitTx submission),
        ff_forfeitTx = Some (fs_forfeitTx submission)\<rparr>,
      [ForfeitSignatureMsg submission,
       StatusUpdateMsg (set_status vtxo VTXOStatusForfeiting\<lparr>su_roundID := fr_roundID evt,
         su_forfeitTx := Some (fs_forfeitTx submission)\<rparr>)])"

definition handleForfeitRequest :: "descriptor \<Rightarrow> i32 \<Rightarrow> forfeitRequest \<Rightarrow> vtxoEnv \<Rightarrow> vtxo_error + transition" where
  "handleForfeitRequest vtxo lastChecked evt env =
     (if d_taprootAssetRoot vtxo \<noteq> None then Inl AssetVTXORequiresTransition
      else bindR (sign_forfeit vtxo evt env) (\<lambda>submission.
        Inr (forfeiting_transition vtxo lastChecked evt env submission)))"

definition LiveState_ProcessEvent :: "descriptor \<Rightarrow> i32 \<Rightarrow> vtxoEvent \<Rightarrow> vtxoEnv \<Rightarrow> vtxo_error + transition" where
  "LiveState_ProcessEvent vtxo lastChecked event env =
     (let s = LiveState vtxo lastChecked in
      case event of
        BlockEpochEvent height \<Rightarrow> Inr (handleBlockEpoch vtxo height env)
      | CriticalRefreshEvent height \<Rightarrow> Inr (autoRefreshTransition vtxo height height False env)
      | CohortRefreshEvent height batchExpiry \<Rightarrow> Inr (handleCohortRefresh vtxo lastChecked height batchExpiry env)
      | SpendReserveEvent \<Rightarrow> handleSpendReserve vtxo lastChecked
      | PendingForfeitEvent \<Rightarrow> handlePendingForfeit vtxo
      | ForfeitRequestEvent evt \<Rightarrow> handleForfeitRequest vtxo lastChecked evt env
      | ResumeVTXOEvent \<Rightarrow> Inr (s, [])
      | ForceUnrollEvent reason trigger policy \<Rightarrow> Inr (handleForceUnroll vtxo lastChecked reason trigger policy)
      | ExitFailedEvent _ \<Rightarrow> Inr (s, [])
      | ExitConfirmedEvent \<Rightarrow> Inr (s, [])
      | ExitConflictedEvent _ \<Rightarrow> Inr (s, [])
      | VTXOFailedEvent reason err recoverable \<Rightarrow> Inr (FailedState vtxo reason err recoverable, [])
      | _ \<Rightarrow> Inl (UnexpectedEvent ''live''))"

section \<open>PendingForfeitState\<close>

definition pending_handleBlockEpoch :: "descriptor \<Rightarrow> i32 \<Rightarrow> i32 \<Rightarrow> vtxoEnv \<Rightarrow> transition" where
  "pending_handleBlockEpoch vtxo requestedAt height env =
     (if CheckExpiry (ve_expiryConfig env) (Some vtxo) height \<noteq> ExpiryStatusCritical
      then (PendingForfeitState vtxo requestedAt, [])
      else (UnilateralExitState vtxo ''critical expiry pending forfeit'' height,
            [ExpiringMsg (expiring vtxo (BlocksUntilExpiry vtxo height) ''forfeit timeout''),
             StatusUpdateMsg (set_status vtxo VTXOStatusUnilateralExit)]))"

definition pending_forceUnroll :: "descriptor \<Rightarrow> i32 \<Rightarrow> string \<Rightarrow> string \<Rightarrow> exitPolicy option \<Rightarrow> transition" where
  "pending_forceUnroll vtxo requestedAt evtReason trigger policy =
     (let reason = or_default evtReason ''manual unroll (pending forfeit)'' in
      (UnilateralExitState vtxo reason requestedAt,
       [ExpiringMsg (expiring vtxo 0 reason\<lparr>xn_trigger := trigger, xn_exitPolicy := policy\<rparr>),
        StatusUpdateMsg (set_status vtxo VTXOStatusUnilateralExit)]))"

definition pending_cohortRefresh :: "descriptor \<Rightarrow> i32 \<Rightarrow> i32 \<Rightarrow> i32 \<Rightarrow> vtxo_error + transition" where
  "pending_cohortRefresh vtxo requestedAt height batchExpiry =
     (if sint requestedAt \<le> 0 \<or> requestedAt \<noteq> height \<or> sint batchExpiry \<le> 0 \<or> d_batchExpiry vtxo \<noteq> batchExpiry
      then Inl CohortNotOwned
      else Inr (PendingForfeitState vtxo requestedAt,
                [ForfeitRequestMsg (d_outpoint vtxo) requestedAt False True]))"

definition pending_forfeitRequest :: "descriptor \<Rightarrow> i32 \<Rightarrow> forfeitRequest \<Rightarrow> vtxoEnv \<Rightarrow> vtxo_error + transition" where
  "pending_forfeitRequest vtxo requestedAt evt env =
     bindR (sign_forfeit vtxo evt env) (\<lambda>submission.
       Inr (forfeiting_transition vtxo requestedAt evt env submission))"

definition PendingForfeitState_ProcessEvent :: "descriptor \<Rightarrow> i32 \<Rightarrow> vtxoEvent \<Rightarrow> vtxoEnv \<Rightarrow> vtxo_error + transition" where
  "PendingForfeitState_ProcessEvent vtxo requestedAt event env =
     (let s = PendingForfeitState vtxo requestedAt in
      case event of
        CohortRefreshEvent height batchExpiry \<Rightarrow> pending_cohortRefresh vtxo requestedAt height batchExpiry
      | BlockEpochEvent height \<Rightarrow> Inr (pending_handleBlockEpoch vtxo requestedAt height env)
      | CriticalRefreshEvent _ \<Rightarrow> Inr (s, [])
      | ForceUnrollEvent reason trigger policy \<Rightarrow> Inr (pending_forceUnroll vtxo requestedAt reason trigger policy)
      | ForfeitRequestEvent evt \<Rightarrow> pending_forfeitRequest vtxo requestedAt evt env
      | PendingForfeitEvent \<Rightarrow> Inl (ForfeitInFlight (d_outpoint vtxo) VTXOStatusPendingForfeit [])
      | ForfeitReleasedEvent _ \<Rightarrow>
          Inr (forfeitReleaseTransition (stateAfterForfeitRelease (ve_expiryConfig env) vtxo requestedAt) vtxo)
      | SpendReserveEvent \<Rightarrow> Inl CannotReserveForSpend
      | ResumeVTXOEvent \<Rightarrow> Inr (s, [])
      | VTXOFailedEvent reason err recoverable \<Rightarrow> Inr (FailedState vtxo reason err recoverable, [])
      | _ \<Rightarrow> Inl (UnexpectedEvent ''pending_forfeit''))"

section \<open>ForfeitingState\<close>

definition forfeitSignatureIssued :: "forfeiting \<Rightarrow> bool" where
  "forfeitSignatureIssued s \<longleftrightarrow> ff_forfeitTxID s \<noteq> 0 \<or> ff_forfeitTx s \<noteq> None"

definition forfeiting_confirmed :: "forfeiting \<Rightarrow> hash \<Rightarrow> transition" where
  "forfeiting_confirmed s commitmentTxID =
     (ForfeitedState (ff_vtxo s) (ff_newRoundID s) commitmentTxID,
      [StatusUpdateMsg (set_status (ff_vtxo s) VTXOStatusForfeited\<lparr>su_forfeitTx := ff_forfeitTx s\<rparr>),
       TerminatedMsg (d_outpoint (ff_vtxo s)) ''Forfeited'' (''forfeited in round '' @ ff_newRoundID s)])"

definition forfeiting_handleBlockEpoch :: "forfeiting \<Rightarrow> i32 \<Rightarrow> vtxoEnv \<Rightarrow> transition" where
  "forfeiting_handleBlockEpoch s height env =
     (let vtxo = ff_vtxo s in
      if CheckExpiry (ve_expiryConfig env) (Some vtxo) height = ExpiryStatusCritical \<and> \<not> forfeitSignatureIssued s
      then (UnilateralExitState vtxo ''critical expiry'' height,
            [ExpiringMsg (expiring vtxo (BlocksUntilExpiry vtxo height) ''round stalled''),
             StatusUpdateMsg (set_status vtxo VTXOStatusUnilateralExit)])
      else (ForfeitingState s, []))"

definition forfeiting_forceUnroll :: "forfeiting \<Rightarrow> string \<Rightarrow> string \<Rightarrow> exitPolicy option \<Rightarrow> transition" where
  "forfeiting_forceUnroll s evtReason trigger policy =
     (if trigger = UnrollTriggerCriticalExpiry \<and> forfeitSignatureIssued s then (ForfeitingState s, [])
      else
        let reason = or_default evtReason ''manual unroll (forfeiting)'' in
        (UnilateralExitState (ff_vtxo s) reason 0,
         [ExpiringMsg (expiring (ff_vtxo s) 0 reason\<lparr>xn_trigger := trigger, xn_exitPolicy := policy\<rparr>),
          StatusUpdateMsg (set_status (ff_vtxo s) VTXOStatusUnilateralExit)]))"

definition forfeiting_released :: "forfeiting \<Rightarrow> string \<Rightarrow> vtxoEnv \<Rightarrow> vtxo_error + transition" where
  "forfeiting_released s roundID env =
     (if roundID = [] \<or> roundID \<noteq> ff_newRoundID s
      then Inl (ForfeitReleaseRoundMismatch (d_outpoint (ff_vtxo s)) (ff_newRoundID s) roundID)
      else Inr (forfeitReleaseTransition
                  (stateAfterForfeitRelease (ve_expiryConfig env) (ff_vtxo s) (ff_lastCheckedHeight s)) (ff_vtxo s)))"

definition ForfeitingState_ProcessEvent :: "forfeiting \<Rightarrow> vtxoEvent \<Rightarrow> vtxoEnv \<Rightarrow> vtxo_error + transition" where
  "ForfeitingState_ProcessEvent s event env =
     (case event of
        ForfeitSignedEvent txid \<Rightarrow> Inr (ForfeitingState (s\<lparr>ff_forfeitTxID := txid\<rparr>), [])
      | ForfeitConfirmedEvent commitmentTxID _ \<Rightarrow> Inr (forfeiting_confirmed s commitmentTxID)
      | BlockEpochEvent height \<Rightarrow> Inr (forfeiting_handleBlockEpoch s height env)
      | ResumeVTXOEvent \<Rightarrow> Inr (ForfeitingState s, [])
      | ForceUnrollEvent reason trigger policy \<Rightarrow> Inr (forfeiting_forceUnroll s reason trigger policy)
      | ForfeitReleasedEvent roundID \<Rightarrow> forfeiting_released s roundID env
      | VTXOFailedEvent reason err recoverable \<Rightarrow> Inr (FailedState (ff_vtxo s) reason err recoverable, [])
      | PendingForfeitEvent \<Rightarrow>
          Inl (ForfeitInFlight (d_outpoint (ff_vtxo s)) VTXOStatusForfeiting (ff_newRoundID s))
      | _ \<Rightarrow> Inl (UnexpectedEvent ''forfeiting''))"

section \<open>SpendingState\<close>

definition spending_completed :: "descriptor \<Rightarrow> transition" where
  "spending_completed vtxo =
     (SpentState vtxo,
      [StatusUpdateMsg (set_status vtxo VTXOStatusSpent\<lparr>su_releaseSpendReservation := True\<rparr>),
       TerminatedMsg (d_outpoint vtxo) ''Spent'' ''OOR spend completed''])"

definition spending_released :: "descriptor \<Rightarrow> i32 \<Rightarrow> vtxoEnv \<Rightarrow> transition" where
  "spending_released vtxo lastChecked env =
     (let nextState = stateAfterForfeitRelease (ve_expiryConfig env) vtxo lastChecked in
      (nextState, [StatusUpdateMsg (set_status vtxo (release_status nextState)\<lparr>su_releaseSpendReservation := True\<rparr>)]))"

definition spending_handleBlockEpoch :: "descriptor \<Rightarrow> i32 \<Rightarrow> vtxoEnv \<Rightarrow> transition" where
  "spending_handleBlockEpoch vtxo height env =
     (if CheckExpiry (ve_expiryConfig env) (Some vtxo) height = ExpiryStatusCritical
      then (UnilateralExitState vtxo ''critical expiry while spending'' height,
            [ExpiringMsg (expiring vtxo (BlocksUntilExpiry vtxo height) ''spend timeout''),
             StatusUpdateMsg (set_status vtxo VTXOStatusUnilateralExit\<lparr>su_releaseSpendReservation := True\<rparr>)])
      else (SpendingState vtxo height, []))"

definition spending_forceUnroll :: "descriptor \<Rightarrow> i32 \<Rightarrow> string \<Rightarrow> string \<Rightarrow> exitPolicy option \<Rightarrow> transition" where
  "spending_forceUnroll vtxo lastChecked evtReason trigger policy =
     (let reason = or_default evtReason ''manual unroll (spending)'' in
      (UnilateralExitState vtxo reason lastChecked,
       [ExpiringMsg (expiring vtxo 0 reason\<lparr>xn_trigger := trigger, xn_exitPolicy := policy\<rparr>),
        StatusUpdateMsg (set_status vtxo VTXOStatusUnilateralExit\<lparr>su_releaseSpendReservation := True\<rparr>)]))"

definition SpendingState_ProcessEvent :: "descriptor \<Rightarrow> i32 \<Rightarrow> vtxoEvent \<Rightarrow> vtxoEnv \<Rightarrow> vtxo_error + transition" where
  "SpendingState_ProcessEvent vtxo lastChecked event env =
     (case event of
        SpendCompletedEvent \<Rightarrow> Inr (spending_completed vtxo)
      | SpendReleasedEvent \<Rightarrow> Inr (spending_released vtxo lastChecked env)
      | BlockEpochEvent height \<Rightarrow> Inr (spending_handleBlockEpoch vtxo height env)
      | PendingForfeitEvent \<Rightarrow> Inl CannotAcceptPendingForfeit
      | SpendReserveEvent \<Rightarrow> Inl AlreadyReservedForSpend
      | ResumeVTXOEvent \<Rightarrow> Inr (SpendingState vtxo lastChecked, [])
      | ForceUnrollEvent reason trigger policy \<Rightarrow> Inr (spending_forceUnroll vtxo lastChecked reason trigger policy)
      | VTXOFailedEvent reason err recoverable \<Rightarrow> Inr (FailedState vtxo reason err recoverable, [])
      | _ \<Rightarrow> Inl (UnexpectedEvent ''spending''))"

section \<open>UnilateralExitState\<close>

definition exit_forceUnroll :: "descriptor \<Rightarrow> string \<Rightarrow> i32 \<Rightarrow> string \<Rightarrow> string \<Rightarrow> exitPolicy option \<Rightarrow> transition" where
  "exit_forceUnroll vtxo oldReason lastChecked evtReason trigger policy =
     (UnilateralExitState vtxo oldReason lastChecked,
      [ExpiringMsg (expiring vtxo 0 (or_default evtReason oldReason)\<lparr>xn_trigger := trigger, xn_exitPolicy := policy\<rparr>)])"

definition UnilateralExitState_ProcessEvent :: "descriptor \<Rightarrow> string \<Rightarrow> i32 \<Rightarrow> vtxoEvent \<Rightarrow> vtxo_error + transition" where
  "UnilateralExitState_ProcessEvent vtxo reason lastChecked event =
     (case event of
        ForceUnrollEvent evtReason trigger policy \<Rightarrow>
          Inr (exit_forceUnroll vtxo reason lastChecked evtReason trigger policy)
      | ExitFailedEvent _ \<Rightarrow>
          Inr (LiveState vtxo lastChecked, [StatusUpdateMsg (set_status vtxo VTXOStatusLive)])
      | ExitConfirmedEvent \<Rightarrow>
          Inr (SpentState vtxo,
               [StatusUpdateMsg (set_status vtxo VTXOStatusSpent),
                TerminatedMsg (d_outpoint vtxo) ''Spent'' ''exit confirmed''])
      | ExitConflictedEvent _ \<Rightarrow>
          Inr (ExpiredState vtxo 0, [StatusUpdateMsg (set_status vtxo VTXOStatusExpired)])
      | _ \<Rightarrow> Inr (UnilateralExitState vtxo reason lastChecked, []))"

section \<open>ExpiredState\<close>

definition expired_handleBlockEpoch :: "descriptor \<Rightarrow> i32 \<Rightarrow> vtxoEnv \<Rightarrow> transition" where
  "expired_handleBlockEpoch vtxo height env =
     (if CheckExpiry (ve_expiryConfig env) (Some vtxo) height \<noteq> ExpiryStatusExpired
      then forfeitReleaseTransition (LiveState vtxo height) vtxo
      else if \<not> canAutoRefresh (ve_expiryConfig env) vtxo height then (ExpiredState vtxo height, [])
      else (PendingForfeitState vtxo height,
            [ForfeitRequestMsg (d_outpoint vtxo) height False False,
             StatusUpdateMsg (set_status vtxo VTXOStatusPendingForfeit)]))"

definition expired_pendingForfeit :: "descriptor \<Rightarrow> i32 \<Rightarrow> vtxo_error + transition" where
  "expired_pendingForfeit vtxo observedHeight =
     (if d_taprootAssetRoot vtxo \<noteq> None then Inl AssetVTXORequiresTransition
      else Inr (PendingForfeitState vtxo observedHeight,
                [StatusUpdateMsg (set_status vtxo VTXOStatusPendingForfeit)]))"

definition ExpiredState_ProcessEvent :: "descriptor \<Rightarrow> i32 \<Rightarrow> vtxoEvent \<Rightarrow> vtxoEnv \<Rightarrow> vtxo_error + transition" where
  "ExpiredState_ProcessEvent vtxo observedHeight event env =
     (let s = ExpiredState vtxo observedHeight in
      case event of
        BlockEpochEvent height \<Rightarrow> Inr (expired_handleBlockEpoch vtxo height env)
      | PendingForfeitEvent \<Rightarrow> expired_pendingForfeit vtxo observedHeight
      | ForfeitRequestEvent evt \<Rightarrow> handleForfeitRequest vtxo observedHeight evt env
      | SpendReserveEvent \<Rightarrow> Inr (s, [])
      | ResumeVTXOEvent \<Rightarrow> Inr (s, [])
      | ForceUnrollEvent _ _ _ \<Rightarrow> Inr (s, [])
      | VTXOFailedEvent reason err recoverable \<Rightarrow> Inr (FailedState vtxo reason err recoverable, [])
      | SpendReleasedEvent \<Rightarrow> Inr (s, [])
      | SpendCompletedEvent \<Rightarrow> Inr (s, [])
      | ForfeitReleasedEvent _ \<Rightarrow> Inr (s, [])
      | ExitFailedEvent _ \<Rightarrow> Inr (s, [])
      | ExitConfirmedEvent \<Rightarrow> Inr (s, [])
      | ExitConflictedEvent _ \<Rightarrow> Inr (s, [])
      | _ \<Rightarrow> Inl (UnexpectedEvent ''expired''))"

section \<open>The machine\<close>

fun ProcessEvent :: "vtxoState \<Rightarrow> vtxoEvent \<Rightarrow> vtxoEnv \<Rightarrow> vtxo_error + transition" where
  "ProcessEvent (LiveState vtxo h) event env = LiveState_ProcessEvent vtxo h event env"
| "ProcessEvent (PendingForfeitState vtxo h) event env = PendingForfeitState_ProcessEvent vtxo h event env"
| "ProcessEvent (SpendingState vtxo h) event env = SpendingState_ProcessEvent vtxo h event env"
| "ProcessEvent (SpentState vtxo) event env = Inr (SpentState vtxo, [])"
| "ProcessEvent (ForfeitingState s) event env = ForfeitingState_ProcessEvent s event env"
| "ProcessEvent (ForfeitedState vtxo r c) event env = Inr (ForfeitedState vtxo r c, [])"
| "ProcessEvent (UnilateralExitState vtxo reason h) event env = UnilateralExitState_ProcessEvent vtxo reason h event"
| "ProcessEvent (FailedState vtxo reason err rec) event env = Inr (FailedState vtxo reason err rec, [])"
| "ProcessEvent (ExpiredState vtxo h) event env = ExpiredState_ProcessEvent vtxo h event env"

section \<open>The choice between an exit and a cooperative refresh\<close>

text \<open>
  \<open>preflightCriticalExit\<close> of \<open>vtxo/actor.go\<close> runs before every event of the actor. The assessor of
  the exit's funding (\<open>CriticalExitAssessor\<close>, \<open>None\<close> when the actor has none) is outside the package: for a
  descriptor it fails or tells whether the exit is feasible.
\<close>

type_synonym exitAssessor = "descriptor \<Rightarrow> string + bool"

definition preflightCriticalExit :: "exitAssessor option \<Rightarrow> vtxoEnv \<Rightarrow> vtxoState \<Rightarrow> vtxoEvent \<Rightarrow> vtxoEvent" where
  "preflightCriticalExit criticalExitAssessor env state event =
     (case (event, criticalExitAssessor) of
        (BlockEpochEvent height, Some assess) \<Rightarrow>
          (let diverted = (\<lambda>desc.
             if d_taprootAssetRoot desc \<noteq> None then event
             else if CheckExpiry (ve_expiryConfig env) (Some desc) height \<noteq> ExpiryStatusCritical then event
             else case assess desc of
                 Inl _ \<Rightarrow> event
               | Inr feasible \<Rightarrow> if feasible then event else CriticalRefreshEvent height) in
           case state of
             LiveState desc _ \<Rightarrow> diverted desc
           | PendingForfeitState desc _ \<Rightarrow> diverted desc
           | _ \<Rightarrow> event)
      | _ \<Rightarrow> event)"

section \<open>Admission and recovery\<close>

text \<open>\<open>CheckForfeitAdmission\<close> of \<open>vtxo/forfeit_admission.go\<close>: the advisory check before a claim.\<close>

datatype admission_error =
    ErrVTXOTerminal
  | ErrForfeitInFlight string
  | ErrVTXOLiquidityLocked
  | ErrExitInFlight

definition CheckForfeitAdmission :: "descriptor option \<Rightarrow> admission_error option" where
  "CheckForfeitAdmission desc =
     (case desc of
        None \<Rightarrow> Some ErrVTXOTerminal
      | Some d \<Rightarrow>
          (case d_status d of
             VTXOStatusLive \<Rightarrow> None
           | VTXOStatusExpired \<Rightarrow> None
           | VTXOStatusPendingForfeit \<Rightarrow> Some (ErrForfeitInFlight (d_forfeitRoundID d))
           | VTXOStatusForfeiting \<Rightarrow> Some (ErrForfeitInFlight (d_forfeitRoundID d))
           | VTXOStatusSpending \<Rightarrow> Some ErrVTXOLiquidityLocked
           | VTXOStatusUnilateralExit \<Rightarrow> Some ErrExitInFlight
           | _ \<Rightarrow> Some ErrVTXOTerminal))"

text \<open>
  \<open>statusToState\<close> of \<open>vtxo/actor.go\<close>: the state an actor restarts in. \<open>getForfeitTx\<close> is the
  store's lookup of the persisted forfeit transaction, \<open>None\<close> when it has none or fails.
\<close>

definition statusToState :: "(outPoint \<Rightarrow> wireTx option) \<Rightarrow> descriptor \<Rightarrow> vtxoState" where
  "statusToState getForfeitTx vtxo =
     (case d_status vtxo of
        VTXOStatusLive \<Rightarrow> LiveState vtxo (d_createdHeight vtxo)
      | VTXOStatusSpending \<Rightarrow> SpendingState vtxo (d_createdHeight vtxo)
      | VTXOStatusExpired \<Rightarrow> ExpiredState vtxo 0
      | VTXOStatusPendingForfeit \<Rightarrow> PendingForfeitState vtxo 0
      | VTXOStatusForfeiting \<Rightarrow>
          ForfeitingState \<lparr>ff_vtxo = vtxo, ff_lastCheckedHeight = 0, ff_newRoundID = d_forfeitRoundID vtxo,
            ff_connectorOutpoint = \<lparr>op_hash = 0, op_index = 0\<rparr>, ff_forfeitTxID = 0,
            ff_forfeitTx = getForfeitTx (d_outpoint vtxo)\<rparr>
      | VTXOStatusForfeited \<Rightarrow> ForfeitedState vtxo (d_forfeitRoundID vtxo) 0
      | VTXOStatusSpent \<Rightarrow> SpentState vtxo
      | VTXOStatusUnilateralExit \<Rightarrow> UnilateralExitState vtxo ''recovered from storage'' 0
      | VTXOStatusFailed \<Rightarrow> FailedState vtxo ''recovered from storage'' None False
      | VTXOStatusOther _ \<Rightarrow> LiveState vtxo (d_createdHeight vtxo))"

end
