(* ===== verification/Vtxo_Facts.thy ===== *)
theory Vtxo_Facts
  imports Vtxo_FSM
begin

text \<open>
  Correctness of the VTXO lifecycle: the agreement of the persisted status with the state, what
  is never taken back (interpretation \<open>vm\<close> of \<open>latching_machine\<close>), the escalation to an exit,
  the quarantine of expired VTXOs and its gaps, the admission check, and the forfeits that
  are signed.
\<close>

section \<open>The machine with its persisted row\<close>

fun vtxo_of :: "vtxoState \<Rightarrow> descriptor" where
  "vtxo_of (LiveState d _) = d"
| "vtxo_of (PendingForfeitState d _) = d"
| "vtxo_of (SpendingState d _) = d"
| "vtxo_of (SpentState d) = d"
| "vtxo_of (ForfeitingState f) = ff_vtxo f"
| "vtxo_of (ForfeitedState d _ _) = d"
| "vtxo_of (UnilateralExitState d _ _) = d"
| "vtxo_of (FailedState d _ _ _) = d"
| "vtxo_of (ExpiredState d _) = d"

fun status_of :: "vtxoState \<Rightarrow> VTXOStatus" where
  "status_of (LiveState _ _) = VTXOStatusLive"
| "status_of (PendingForfeitState _ _) = VTXOStatusPendingForfeit"
| "status_of (SpendingState _ _) = VTXOStatusSpending"
| "status_of (SpentState _) = VTXOStatusSpent"
| "status_of (ForfeitingState _) = VTXOStatusForfeiting"
| "status_of (ForfeitedState _ _ _) = VTXOStatusForfeited"
| "status_of (UnilateralExitState _ _ _) = VTXOStatusUnilateralExit"
| "status_of (FailedState _ _ _ _) = VTXOStatusFailed"
| "status_of (ExpiredState _ _) = VTXOStatusExpired"

text \<open>The status the persistence layer holds after the status updates of an outbox.\<close>

fun persist :: "VTXOStatus \<Rightarrow> vtxoOutMsg list \<Rightarrow> VTXOStatus" where
  "persist st [] = st"
| "persist st (StatusUpdateMsg u # ms) = persist (su_newStatus u) ms"
| "persist st (_ # ms) = persist st ms"

type_synonym vtxoRow = "vtxoState \<times> VTXOStatus"

fun vtxo_step :: "vtxoRow \<Rightarrow> vtxoEnv \<times> vtxoEvent \<Rightarrow> vtxo_error + vtxoRow" where
  "vtxo_step (s, st) (env, ev) = bindR (ProcessEvent s ev env) (\<lambda>(s', out). Inr (s', persist st out))"

lemmas live_defs = LiveState_ProcessEvent_def handleBlockEpoch_def autoRefreshTransition_def handleCohortRefresh_def
  handlePendingForfeit_def handleSpendReserve_def handleForceUnroll_def handleForfeitRequest_def
lemmas pending_defs = PendingForfeitState_ProcessEvent_def pending_handleBlockEpoch_def pending_forceUnroll_def
  pending_cohortRefresh_def pending_forfeitRequest_def forfeitReleaseTransition_def stateAfterForfeitRelease_def
lemmas forfeiting_defs = ForfeitingState_ProcessEvent_def forfeiting_confirmed_def forfeiting_handleBlockEpoch_def
  forfeiting_forceUnroll_def forfeiting_released_def forfeitReleaseTransition_def stateAfterForfeitRelease_def
lemmas spending_defs = SpendingState_ProcessEvent_def spending_completed_def spending_released_def
  spending_handleBlockEpoch_def spending_forceUnroll_def stateAfterForfeitRelease_def
lemmas exit_defs = UnilateralExitState_ProcessEvent_def exit_forceUnroll_def
lemmas expired_defs = ExpiredState_ProcessEvent_def expired_handleBlockEpoch_def expired_pendingForfeit_def
  handleForfeitRequest_def forfeitReleaseTransition_def

lemma set_status_sel [simp]: "su_newStatus (set_status d st) = st" "su_outpoint (set_status d st) = d_outpoint d"
  by (simp_all add: set_status_def)

lemma forfeiting_transition_sel [simp]:
  "vtxo_of (fst (forfeiting_transition d h evt env sub)) = d"
  "status_of (fst (forfeiting_transition d h evt env sub)) = VTXOStatusForfeiting"
  "persist st (snd (forfeiting_transition d h evt env sub)) = VTXOStatusForfeiting"
  by (simp_all add: forfeiting_transition_def)

text \<open>
  One step of each state: the descriptor stays, and the outbox persists the status of the next
  state unless that state is the failed state.
\<close>

definition good_transition :: "descriptor \<Rightarrow> VTXOStatus \<Rightarrow> transition \<Rightarrow> bool" where
  "good_transition d st t \<longleftrightarrow> vtxo_of (fst t) = d \<and>
     (status_of (fst t) \<noteq> VTXOStatusFailed \<longrightarrow> persist st (snd t) = status_of (fst t))"

lemma live_good: "LiveState_ProcessEvent d h ev env = Inr t \<Longrightarrow> good_transition d VTXOStatusLive t"
  by (cases ev) (auto simp: live_defs good_transition_def Let_def split: expiryStatus.splits if_splits)

lemma pending_good: "PendingForfeitState_ProcessEvent d h ev env = Inr t \<Longrightarrow> good_transition d VTXOStatusPendingForfeit t"
  by (cases ev) (auto simp: pending_defs good_transition_def Let_def split: if_splits)

lemma forfeiting_good: "ForfeitingState_ProcessEvent f ev env = Inr t \<Longrightarrow> good_transition (ff_vtxo f) VTXOStatusForfeiting t"
  by (cases ev) (auto simp: forfeiting_defs good_transition_def Let_def split: if_splits)

lemma spending_good: "SpendingState_ProcessEvent d h ev env = Inr t \<Longrightarrow> good_transition d VTXOStatusSpending t"
  by (cases ev) (auto simp: spending_defs good_transition_def Let_def split: if_splits)

lemma exit_good: "UnilateralExitState_ProcessEvent d r h ev = Inr t \<Longrightarrow> good_transition d VTXOStatusUnilateralExit t"
  by (cases ev) (auto simp: exit_defs good_transition_def)

lemma expired_good: "ExpiredState_ProcessEvent d h ev env = Inr t \<Longrightarrow> good_transition d VTXOStatusExpired t"
  by (cases ev) (auto simp: expired_defs good_transition_def Let_def split: if_splits)

lemma ProcessEvent_good:
  assumes "ProcessEvent s ev env = Inr t" and "status_of s \<noteq> VTXOStatusFailed"
  shows "good_transition (vtxo_of s) (status_of s) t"
  using assms
  by (cases s) (auto dest: live_good pending_good forfeiting_good spending_good exit_good expired_good
      simp: good_transition_def)

lemma ProcessEvent_terminal: "IsTerminal s \<Longrightarrow> ProcessEvent s ev env = Inr (s, [])"
  by (cases s) auto

definition row_inv :: "vtxoRow \<Rightarrow> bool" where
  "row_inv r \<longleftrightarrow> (status_of (fst r) \<noteq> VTXOStatusFailed \<longrightarrow> snd r = status_of (fst r))"

datatype vtxo_latch = OfVTXO descriptor | FinalState vtxoState

fun vtxo_latched :: "vtxo_latch \<Rightarrow> vtxoRow \<Rightarrow> bool" where
  "vtxo_latched (OfVTXO d) r \<longleftrightarrow> vtxo_of (fst r) = d"
| "vtxo_latched (FinalState s) r \<longleftrightarrow> IsTerminal s \<and> fst r = s"

lemma vtxo_step_Inr:
  "vtxo_step r c = Inr r' \<longleftrightarrow>
     (\<exists>out. ProcessEvent (fst r) (snd c) (fst c) = Inr (fst r', out) \<and> snd r' = persist (snd r) out)"
  by (cases r; cases c; cases r') auto

lemma failed_stays: "status_of s = VTXOStatusFailed \<Longrightarrow> ProcessEvent s ev env = Inr (s, [])"
  by (cases s) auto

interpretation vm: latching_machine vtxo_step row_inv vtxo_latched
proof (standard, goal_cases)
  case (1 r c r')
  then obtain out where t: "ProcessEvent (fst r) (snd c) (fst c) = Inr (fst r', out)" "snd r' = persist (snd r) out"
    by (auto simp: vtxo_step_Inr)
  show ?case
  proof (cases "status_of (fst r) = VTXOStatusFailed")
    case True
    then show ?thesis using t by (simp add: failed_stays row_inv_def)
  next
    case False
    then show ?thesis
      using ProcessEvent_good [OF t(1)] 1(1) t(2) by (simp add: good_transition_def row_inv_def)
  qed
next
  case (2 r x c r')
  then obtain out where t: "ProcessEvent (fst r) (snd c) (fst c) = Inr (fst r', out)"
    by (auto simp: vtxo_step_Inr)
  show ?case
  proof (cases x)
    case (OfVTXO d)
    then show ?thesis
      using 2(2) t ProcessEvent_good [OF t] failed_stays [of "fst r" "snd c" "fst c"]
      by (cases "status_of (fst r) = VTXOStatusFailed") (auto simp: good_transition_def)
  next
    case (FinalState s)
    then show ?thesis using 2(2) t ProcessEvent_terminal [of s "snd c" "fst c"] by auto
  qed
qed

section \<open>Quarantine of expired VTXOs\<close>

fun observed :: "vtxoState \<Rightarrow> i32" where
  "observed (ExpiredState _ h) = h"
| "observed (PendingForfeitState _ h) = h"
| "observed (ForfeitingState f) = ff_lastCheckedHeight f"
| "observed _ = 0"

definition recovering :: "VTXOStatus set" where
  "recovering = {VTXOStatusExpired, VTXOStatusPendingForfeit, VTXOStatusForfeiting}"

definition quarantined :: "expiryConfig \<Rightarrow> i32 \<Rightarrow> vtxoRow \<Rightarrow> bool" where
  "quarantined cfg h0 r \<longleftrightarrow> 0 < sint h0 \<and> CheckExpiry cfg (Some (vtxo_of (fst r))) h0 = ExpiryStatusExpired \<and>
     (status_of (fst r) \<in> recovering \<and> sint h0 \<le> sint (observed (fst r)) \<or>
      status_of (fst r) \<in> {VTXOStatusForfeited, VTXOStatusFailed}) \<and>
     snd r \<in> recovering \<union> {VTXOStatusForfeited}"

text \<open>Calls in any environment that bring no older block and no unroll request.\<close>

definition quiet :: "i32 \<Rightarrow> vtxoEnv \<times> vtxoEvent \<Rightarrow> bool" where
  "quiet h0 c \<longleftrightarrow>
     (case snd c of
        BlockEpochEvent h \<Rightarrow> sint h0 \<le> sint h
      | ForceUnrollEvent _ _ _ \<Rightarrow> False
      | _ \<Rightarrow> True)"

lemma released_expired:
  assumes "CheckExpiry cfg (Some d) h0 = ExpiryStatusExpired" and "0 < sint h0" and "sint h0 \<le> sint h"
  shows "stateAfterForfeitRelease cfg' d h = ExpiredState d h"
  using expired_later [OF assms(1), of h cfg'] assms by (simp add: stateAfterForfeitRelease_def)

lemma quarantine_step:
  assumes q: "quarantined cfg h0 (s, st)" and ok: "quiet h0 (env, ev)"
    and step: "ProcessEvent s ev env = Inr (s', out)"
  shows "quarantined cfg h0 (s', persist st out)"
proof -
  have h0: "0 < sint h0" "CheckExpiry cfg (Some (vtxo_of s)) h0 = ExpiryStatusExpired"
    using q by (auto simp: quarantined_def)
  note later = expired_later [OF h0(2)] and rel = released_expired [OF h0(2,1)]
  show ?thesis
  proof (cases s)
    case (PendingForfeitState d h)
    with q ok step later rel show ?thesis
      by (cases ev) (auto simp: quarantined_def recovering_def quiet_def PendingForfeitState_ProcessEvent_def
          pending_handleBlockEpoch_def pending_cohortRefresh_def pending_forfeitRequest_def forfeitReleaseTransition_def
          forfeiting_transition_def split: if_splits)
  next
    case (ForfeitingState f)
    with q ok step later rel show ?thesis
      by (cases ev) (auto simp: quarantined_def recovering_def quiet_def ForfeitingState_ProcessEvent_def
          forfeiting_confirmed_def forfeiting_handleBlockEpoch_def forfeiting_released_def forfeitReleaseTransition_def
          Let_def split: if_splits)
  next
    case (ExpiredState d h)
    with q ok step later show ?thesis
      by (cases ev) (auto simp: quarantined_def recovering_def quiet_def expired_defs forfeiting_transition_def
          Let_def split: if_splits)
  qed (use q step in \<open>auto simp: quarantined_def recovering_def\<close>)
qed

interpretation qm: scoped_machine vtxo_step "quarantined cfg h0" "quiet h0" for cfg h0
proof
  fix r c r'
  assume "quarantined cfg h0 r" "quiet h0 c" "vtxo_step r c = Inr r'"
  then show "quarantined cfg h0 r'"
    using quarantine_step [of cfg h0 "fst r" "snd r" "fst c" "snd c" "fst r'"]
    by (auto simp: vtxo_step_Inr) (metis prod.collapse)
qed

section \<open>Signatures that were handed out\<close>

definition handed_out :: "descriptor \<Rightarrow> string \<Rightarrow> wireTx \<Rightarrow> vtxoRow \<Rightarrow> bool" where
  "handed_out d rnd tx r \<longleftrightarrow>
     (\<exists>f. fst r = ForfeitingState f \<and> ff_vtxo f = d \<and> ff_newRoundID f = rnd \<and> ff_forfeitTx f = Some tx \<and>
        snd r = VTXOStatusForfeiting) \<or>
     (\<exists>c. fst r = ForfeitedState d rnd c \<and> snd r = VTXOStatusForfeited) \<or>
     status_of (fst r) = VTXOStatusFailed \<and> snd r = VTXOStatusForfeiting"

definition unprovoked :: "string \<Rightarrow> vtxoEnv \<times> vtxoEvent \<Rightarrow> bool" where
  "unprovoked rnd c \<longleftrightarrow>
     (case snd c of
        ForceUnrollEvent _ trigger _ \<Rightarrow> trigger = UnrollTriggerCriticalExpiry
      | ForfeitReleasedEvent r \<Rightarrow> r \<noteq> rnd
      | _ \<Rightarrow> True)"

lemma handed_out_step:
  assumes "handed_out d rnd tx (s, st)" and "unprovoked rnd (env, ev)" and "ProcessEvent s ev env = Inr (s', out)"
  shows "handed_out d rnd tx (s', persist st out)"
proof (cases s)
  case (ForfeitingState f)
  then have f: "ff_vtxo f = d" "ff_newRoundID f = rnd" "ff_forfeitTx f = Some tx" "st = VTXOStatusForfeiting"
    and "forfeitSignatureIssued f"
    using assms(1) by (auto simp: handed_out_def forfeitSignatureIssued_def)
  with assms(2,3) ForfeitingState show ?thesis
    by (cases ev) (auto simp: handed_out_def unprovoked_def forfeiting_defs Let_def split: if_splits)
qed (use assms in \<open>auto simp: handed_out_def\<close>)

interpretation sm: scoped_machine vtxo_step "handed_out d rnd tx" "unprovoked rnd" for d rnd tx
proof
  fix r c r'
  assume "handed_out d rnd tx r" "unprovoked rnd c" "vtxo_step r c = Inr r'"
  then show "handed_out d rnd tx r'"
    using handed_out_step [of d rnd tx "fst r" "snd r" "fst c" "snd c" "fst r'"]
    by (auto simp: vtxo_step_Inr) (metis prod.collapse)
qed

section \<open>Forfeits\<close>

text \<open>The parameters under which the round validates the forfeit of a request.\<close>

definition forfeit_params :: "descriptor \<Rightarrow> forfeitRequest \<Rightarrow> spendPath \<Rightarrow> forfeitTxParams" where
  "forfeit_params d evt path = \<lparr>fp_vtxoOutpoint = d_outpoint d, fp_connectorOutpoint = fr_connectorOutpoint evt,
     fp_serverForfeitScript = fr_serverForfeitPkScript evt, fp_expectedAmount = d_amount d + fr_connectorAmount evt,
     fp_expectedSequence = sp_requiredSequence path, fp_expectedLockTime = sp_requiredLockTime path\<rparr>"

lemma built_validates:
  assumes "BuildForfeitTxWithContext (Some op) a (Some c) b script
     \<lparr>fc_vtxoSequence = seq, fc_lockTime = lt\<rparr> = Inr tx"
  shows "ValidateForfeitTx (Some tx) \<lparr>fp_vtxoOutpoint = op, fp_connectorOutpoint = c, fp_serverForfeitScript = script,
     fp_expectedAmount = a + b, fp_expectedSequence = seq, fp_expectedLockTime = lt\<rparr> = None"
  using assms
  by (auto simp: BuildForfeitTxWithContext_def ValidateForfeitTx_def validateForfeitTxContext_def
      check_forfeit_outputs_def forfeit_indices AnchorOutput_def Let_def split: if_splits)

lemma sign_forfeit_Inr:
  assumes "sign_forfeit d evt env = Inr sub"
  shows "ValidateForfeitTx (Some (fs_forfeitTx sub)) (forfeit_params d evt (fs_spendPath sub)) = None"
    and "resolveForfeitSpendPath env (Some d) (Some evt) = Inr (fs_spendPath sub)"
proof -
  obtain path where p: "resolveForfeitSpendPath env (Some d) (Some evt) = Inr path"
    using assms by (auto simp: sign_forfeit_def)
  show "ValidateForfeitTx (Some (fs_forfeitTx sub)) (forfeit_params d evt (fs_spendPath sub)) = None"
    "resolveForfeitSpendPath env (Some d) (Some evt) = Inr (fs_spendPath sub)"
    using assms unfolding sign_forfeit_def p
    by (auto simp: forfeit_params_def built_validates p split: sum.split_asm)
qed

lemma resolved_path:
  assumes "resolveForfeitSpendPath env (Some d) (Some evt) = Inr path"
  shows "d_taprootAssetRoot d = None"
    and "fr_forfeitSpend evt = Some p \<Longrightarrow> path = p \<and> VerifyBindsToPkScript (cl_ark (ve_lib env)) (Some p) (d_pkScript d) = None"
  using assms
  by (auto simp: resolveForfeitSpendPath_def Let_def split: if_splits option.splits)

lemma standard_path_binds:
  assumes "taproot_laws ark" and "NewVTXOPolicy ark own srv delay = Inr v" "CollabSpendInfo ark v = Inr i"
    and "StandardVTXOTemplate ark own srv delay = Inr t" "PkScript ark (Some t) = Inr pk" "pk \<noteq> []"
    and "Script ark (Multisig [own, srv]) \<noteq> Inr []"
  shows "VerifyBindsToPkScript ark (Some \<lparr>sp_spendInfo = Some i, sp_requiredSequence = sq, sp_requiredLockTime = lt,
     sp_conditions = cs\<rparr>) pk = None"
proof -
  have t: "\<lparr>lt_node = Some (Multisig [own, srv])\<rparr> \<in> set (pt_leaves t)" "the (lt_node (pt_leaves t ! 0)) = Multisig [own, srv]"
    "length (pt_leaves t) = 2"
    using assms(4) by (auto simp: StandardVTXOTemplate_def Let_def split: if_splits option.splits)
  have v: "Compile ark (Some t) = Inr (vp_compiled v)" "vp_collabNode v = Multisig [own, srv]"
    using assms(2,4) t(2) by (auto simp: NewVTXOPolicy_def)
  obtain script where s: "Script ark (Multisig [own, srv]) = Inr script"
    using assms(3) v(2) by (auto simp: CollabSpendInfo_def SpendInfoForNode_def)
  obtain j where j: "j < length (cp_leaves (vp_compiled v))" "ScriptIndex (vp_compiled v) script = int j"
    "pl_script (cp_leaves (vp_compiled v) ! j) = script"
    by (rule leaf_found [OF v(1) t(1) s])
  obtain cb where "buildControlBlock ark (vp_compiled v) j = Inr cb" "i = \<lparr>si_witnessScript = script, si_controlBlock = cb\<rparr>"
    using assms(3) v(2) s j by (auto simp: CollabSpendInfo_def SpendInfoForNode_def SpendInfo_def Let_def split: if_splits)
  moreover have "script \<noteq> []" using assms(7) s by auto
  moreover have "length (pt_leaves t) \<le> 2 ^ controlBlockMaxNodeCount" by (simp add: t(3) controlBlockMaxNodeCount_def)
  ultimately show ?thesis
    using spend_info_binds [OF assms(1) v(1) assms(5,6) j(1,3)] by simp
qed

lemma forfeiting_from:
  assumes "ProcessEvent s (ForfeitRequestEvent evt) env = Inr (ForfeitingState f, out)"
    and "status_of s \<noteq> VTXOStatusForfeiting"
  shows "\<exists>h sub. sign_forfeit (vtxo_of s) evt env = Inr sub \<and>
     (ForfeitingState f, out) = forfeiting_transition (vtxo_of s) h evt env sub"
  using assms
  by (cases s) (auto simp: LiveState_ProcessEvent_def handleForfeitRequest_def PendingForfeitState_ProcessEvent_def
      pending_forfeitRequest_def SpendingState_ProcessEvent_def exit_defs expired_defs split: if_splits, metis+)

definition sig_key :: "cryptoLib \<Rightarrow> participantSig option \<Rightarrow> byte list" where
  "sig_key lib x = participantForfeitKeyID lib (pg_pubKey (the x))"

lemma collect_sigs_Inr:
  assumes "collect_sigs lib k sigs seen acc = Inr (seen', acc')"
    and "seen = set (map (sig_key lib) acc)" and "distinct (map (sig_key lib) acc)"
  shows "acc' = acc @ sigs \<and> seen' = set (map (sig_key lib) acc') \<and> distinct (map (sig_key lib) acc')"
  using assms
proof (induction lib k sigs seen acc rule: collect_sigs.induct)
  case (2 lib k sig sigs seen acc)
  then obtain g where g: "sig = Some g" "pg_pubKey g \<noteq> None" "pg_signature g \<noteq> None"
    "sig_key lib sig \<notin> seen" "\<not> sameParticipantForfeitKey lib (pg_pubKey g) (Some k)"
    and rec: "collect_sigs lib k sigs (insert (sig_key lib sig) seen) (acc @ [sig]) = Inr (seen', acc')"
    by (auto simp: sig_key_def Let_def split: option.splits if_splits)
  have key: "participantForfeitKeyID lib (pg_pubKey g) = sig_key lib sig"
    by (simp add: sig_key_def g(1))
  have "acc' = (acc @ [sig]) @ sigs \<and> seen' = set (map (sig_key lib) acc') \<and> distinct (map (sig_key lib) acc')"
    by (rule "2.IH" [OF g(1-3) refl, unfolded key, OF g(4,5) rec]) (use "2.prems"(2,3) g(4) in auto)
  then show ?case unfolding append_assoc append_Cons append_Nil .
qed auto

lemma verify_sigs_None:
  "verify_sigs lib sh i sigs = None \<longleftrightarrow>
     (\<forall>x \<in> set sigs. \<exists>g k y. x = Some g \<and> pg_pubKey g = Some k \<and> pg_signature g = Some y \<and> cl_verify lib y sh k)"
  by (induction lib sh i sigs rule: verify_sigs.induct) (auto split: option.splits)

section \<open>Properties\<close>

text \<open>
  C16: The persisted status follows the state: after any sequence of events in any environments,
  starting from a row that agrees with the state, the descriptor is unchanged, the row agrees with
  the state unless the state is the failed state, a terminal state is never left, and an actor
  restarted from the row is in the same lifecycle stage.
\<close>

theorem vtxo_row_agrees:
  assumes "st = status_of s" and "run_machine vtxo_step (s, st) cs = (s', st')"
  shows "vtxo_of s' = vtxo_of s
       \<and> (status_of s' \<noteq> VTXOStatusFailed \<longrightarrow>
            st' = status_of s' \<and> status_of (statusToState g ((vtxo_of s')\<lparr>d_status := st'\<rparr>)) = status_of s')
       \<and> (IsTerminal s \<longrightarrow> s' = s)"
proof -
  have inv: "row_inv (s, st)" using assms(1) by (simp add: row_inv_def)
  have "row_inv (s', st')" using vm.run_inv [OF inv, of cs] assms(2) by simp
  moreover have "vtxo_of s' = vtxo_of s"
    using vm.run_latched [OF inv, of "OfVTXO (vtxo_of s)" cs] assms(2) by simp
  moreover have "s' = s" if "IsTerminal s"
    using vm.run_latched [OF inv, of "FinalState s" cs] assms(2) that by simp
  moreover have "status_of (statusToState g (d\<lparr>d_status := status_of s'\<rparr>)) = status_of s'" for d
    by (cases s') (simp_all add: statusToState_def)
  ultimately show ?thesis by (auto simp: row_inv_def)
qed

text \<open>
  C18: A block in the critical window starts the exit. Let a block that reaches the actor's choice
  (\<open>preflightCriticalExit\<close>) find a live, pending or spending VTXO, or a forfeiting VTXO whose signature
  was not issued, in its critical window. Unless the VTXO is live or pending, carries no asset and the
  wallet assessed its exit as infeasible, the event moves it to the exit state in the same step,
  notifies the chain resolver with the exact number of blocks left, persists the exit status and
  drops the spend reservation exactly when it was spending. In the infeasible case a pending VTXO
  stays as it is and a live one is claimed for a cooperative refresh, or stays live when it may not
  be refreshed automatically; a missing or failed assessment does not prevent the exit.
\<close>

theorem critical_block_starts_exit:
  assumes "CheckExpiry (ve_expiryConfig env) (Some (vtxo_of s)) h = ExpiryStatusCritical"
    and "status_of s \<in> {VTXOStatusLive, VTXOStatusPendingForfeit, VTXOStatusSpending, VTXOStatusForfeiting}"
    and "\<forall>f. s = ForfeitingState f \<longrightarrow> \<not> forfeitSignatureIssued f"
    and "d = vtxo_of s" and "ev = preflightCriticalExit assessor env s (BlockEpochEvent h)"
  shows "if status_of s \<in> {VTXOStatusLive, VTXOStatusPendingForfeit} \<and> d_taprootAssetRoot d = None \<and>
            (\<exists>assess. assessor = Some assess \<and> assess d = Inr False)
     then ProcessEvent s ev env = Inr
       (if status_of s = VTXOStatusPendingForfeit then (s, [])
        else if canAutoRefresh (ve_expiryConfig env) d h
        then (PendingForfeitState d h, [ForfeitRequestMsg (d_outpoint d) h True False,
                StatusUpdateMsg (set_status d VTXOStatusPendingForfeit)])
        else (LiveState d h, []))
     else \<exists>reason x u. ProcessEvent s ev env =
         Inr (UnilateralExitState d reason h, [ExpiringMsg x, StatusUpdateMsg u]) \<and>
       xn_vtxo x = d \<and> xn_blocksRemaining x = BlocksUntilExpiry d h \<and>
       su_outpoint u = d_outpoint d \<and> su_newStatus u = VTXOStatusUnilateralExit \<and>
       (su_releaseSpendReservation u \<longleftrightarrow> status_of s = VTXOStatusSpending)"
proof (cases "ev = CriticalRefreshEvent h")
  case True
  then have "status_of s \<in> {VTXOStatusLive, VTXOStatusPendingForfeit} \<and> d_taprootAssetRoot d = None \<and>
      (\<exists>assess. assessor = Some assess \<and> assess d = Inr False)"
    using assms by (cases s) (auto simp: preflightCriticalExit_def split: option.splits if_splits sum.splits)
  with True assms(4) show ?thesis
    by (cases s) (auto simp: LiveState_ProcessEvent_def autoRefreshTransition_def PendingForfeitState_ProcessEvent_def)
next
  case False
  have kept: "ev = BlockEpochEvent h"
    "\<not> (status_of s \<in> {VTXOStatusLive, VTXOStatusPendingForfeit} \<and> d_taprootAssetRoot d = None \<and>
        (\<exists>assess. assessor = Some assess \<and> assess d = Inr False))"
    using assms False
    by (cases s; auto simp: preflightCriticalExit_def split: option.splits if_splits sum.splits)+
  show ?thesis
    unfolding if_not_P [OF kept(2)] kept(1)
    using assms(1-4)
    by (cases s) (auto simp: LiveState_ProcessEvent_def handleBlockEpoch_def PendingForfeitState_ProcessEvent_def
        pending_handleBlockEpoch_def SpendingState_ProcessEvent_def spending_handleBlockEpoch_def
        ForfeitingState_ProcessEvent_def forfeiting_handleBlockEpoch_def expiring_def set_status_def Let_def)
qed

text \<open>
  C20: A signature that was handed out is never raced automatically: once a VTXO has signed its forfeit
  for a round, then through every sequence of events that holds no unroll request with a trigger
  other than critical expiry and no release of that round, in any environments, it stays forfeiting in
  that round with the signed transaction on record, or is forfeited in that round, or has failed.
  It never enters the exit state and is never live, spending or claimable again.
\<close>

theorem signed_forfeit_no_automatic_exit:
  assumes "ProcessEvent s (ForfeitRequestEvent evt) env = Inr (ForfeitingState f, out)"
    and "status_of s \<noteq> VTXOStatusForfeiting"
    and "list_all (unprovoked (fr_roundID evt)) cs"
    and "run_machine vtxo_step (ForfeitingState f, VTXOStatusForfeiting) cs = (s', st')"
  shows "\<exists>sub. ForfeitSignatureMsg sub \<in> set out \<and>
     ((\<exists>f'. s' = ForfeitingState f' \<and> ff_vtxo f' = vtxo_of s \<and> ff_newRoundID f' = fr_roundID evt \<and>
          ff_forfeitTx f' = Some (fs_forfeitTx sub) \<and> st' = VTXOStatusForfeiting)
      \<or> (\<exists>c. s' = ForfeitedState (vtxo_of s) (fr_roundID evt) c \<and> st' = VTXOStatusForfeited)
      \<or> status_of s' = VTXOStatusFailed \<and> st' = VTXOStatusForfeiting)"
proof -
  obtain h sub where t: "(ForfeitingState f, out) = forfeiting_transition (vtxo_of s) h evt env sub"
    using forfeiting_from [OF assms(1,2)] by blast
  then have out: "ForfeitSignatureMsg sub \<in> set out"
    and "handed_out (vtxo_of s) (fr_roundID evt) (fs_forfeitTx sub) (ForfeitingState f, VTXOStatusForfeiting)"
    by (auto simp: forfeiting_transition_def handed_out_def)
  from sm.run_scoped [OF this(2) assms(3)] assms(4) out show ?thesis
    by (intro exI [of _ sub]) (simp add: handed_out_def)
qed

text \<open>
  C19: An expired VTXO stays out of the spendable set: once its expiry was observed at a known positive
  height and the state records a height at or above it, no sequence of blocks at or above that height,
  reservations, releases, forfeit requests or stale events, in any environments and so under
  any expiry configurations, makes it live, spending or exiting again, neither in memory nor in
  the persisted row. Only older blocks and unroll requests are excluded.
\<close>

theorem expired_stays_quarantined:
  assumes "0 < sint h0" and "CheckExpiry cfg (Some d) h0 = ExpiryStatusExpired" and "sint h0 \<le> sint h"
    and "list_all (quiet h0) cs"
    and "run_machine vtxo_step (ExpiredState d h, VTXOStatusExpired) cs = (s', st')"
  shows "status_of s' \<in> {VTXOStatusExpired, VTXOStatusPendingForfeit, VTXOStatusForfeiting, VTXOStatusForfeited,
           VTXOStatusFailed}
       \<and> st' \<in> {VTXOStatusExpired, VTXOStatusPendingForfeit, VTXOStatusForfeiting, VTXOStatusForfeited}"
proof -
  have "quarantined cfg h0 (ExpiredState d h, VTXOStatusExpired)"
    using assms by (simp add: quarantined_def recovering_def)
  from qm.run_scoped [OF this assms(4)] assms(5) show ?thesis
    by (auto simp: quarantined_def recovering_def)
qed

text \<open>
  C25: The quarantine has two gaps. A VTXO whose exit was found conflicted is live again, in memory
  and in the row, after a claim and its release that arrive before the next block. And a pending
  claim does not record the blocks it sees: when the VTXO expires while the claim is pending,
  its release makes the VTXO live although the last block showed it expired.
\<close>

theorem quarantine_gaps:
  assumes "d_taprootAssetRoot d = None" and "CheckExpiry (ve_expiryConfig env) (Some d) h = ExpiryStatusExpired"
    and "CheckExpiry (ve_expiryConfig env) (Some d) h0 = ExpiryStatusSafe"
  shows "run_machine vtxo_step (UnilateralExitState d reason c, VTXOStatusUnilateralExit)
           [(env, ExitConflictedEvent r), (env, PendingForfeitEvent), (env, ForfeitReleasedEvent rnd)]
         = (LiveState d 0, VTXOStatusLive)
       \<and> run_machine vtxo_step (PendingForfeitState d h0, VTXOStatusPendingForfeit)
           [(env, BlockEpochEvent h), (env, ForfeitReleasedEvent rnd)]
         = (LiveState d h0, VTXOStatusLive)"
  using assms by (simp add: exit_defs expired_defs pending_defs)

text \<open>
  C24: The advisory admission check and the machine agree on every state, for a row that holds the status
  of the state: the machine takes the claim exactly when the check admits it and the VTXO carries no
  asset (which the check does not look at); it refuses a claim as already in flight, also a duplicate
  claim of a pending VTXO, exactly when the check does; it refuses the claim of a spending VTXO
  exactly when the check reports a reservation; and in the exiting and the terminal states,
  which the check refuses, it ignores the claim without an error.
\<close>

theorem admission_agrees:
  "(CheckForfeitAdmission (Some ((vtxo_of s)\<lparr>d_status := status_of s\<rparr>)) = None \<and> d_taprootAssetRoot (vtxo_of s) = None \<longleftrightarrow>
     (\<exists>h out. ProcessEvent s PendingForfeitEvent env = Inr (PendingForfeitState (vtxo_of s) h, out)))
   \<and> ((\<exists>r. CheckForfeitAdmission (Some ((vtxo_of s)\<lparr>d_status := status_of s\<rparr>)) = Some (ErrForfeitInFlight r)) \<longleftrightarrow>
     (\<exists>r. ProcessEvent s PendingForfeitEvent env = Inl (ForfeitInFlight (d_outpoint (vtxo_of s)) (status_of s) r)))
   \<and> (CheckForfeitAdmission (Some ((vtxo_of s)\<lparr>d_status := status_of s\<rparr>)) = Some ErrVTXOLiquidityLocked \<longleftrightarrow>
     ProcessEvent s PendingForfeitEvent env = Inl CannotAcceptPendingForfeit)
   \<and> (CheckForfeitAdmission (Some ((vtxo_of s)\<lparr>d_status := status_of s\<rparr>)) \<in> {Some ErrExitInFlight, Some ErrVTXOTerminal} \<longleftrightarrow>
     ProcessEvent s PendingForfeitEvent env = Inr (s, []))"
  by (cases s) (auto simp: CheckForfeitAdmission_def LiveState_ProcessEvent_def handlePendingForfeit_def
      PendingForfeitState_ProcessEvent_def SpendingState_ProcessEvent_def ForfeitingState_ProcessEvent_def
      exit_defs expired_defs)

text \<open>
  C17: What a VTXO signs is what the round checks: a forfeit request that is accepted moves the
  VTXO to the forfeiting state with the transaction it submits and persists, that transaction
  passes the round's validation for this VTXO, the requested connector and server script and the
  full amount, no asset VTXO is forfeited this way, and a custom spend path was verified to
  commit to the VTXO's own script.
\<close>

theorem accepted_forfeit_validates:
  assumes "ProcessEvent s (ForfeitRequestEvent evt) env = Inr (ForfeitingState f, out)"
    and "status_of s \<noteq> VTXOStatusForfeiting"
  shows "\<exists>tx sub u. ff_forfeitTx f = Some tx \<and> ff_newRoundID f = fr_roundID evt \<and>
     out = [ForfeitSignatureMsg sub, StatusUpdateMsg u] \<and> fs_forfeitTx sub = tx \<and> su_forfeitTx u = Some tx \<and>
     su_roundID u = fr_roundID evt \<and>
     ValidateForfeitTx (Some tx) (forfeit_params (vtxo_of s) evt (fs_spendPath sub)) = None \<and>
     d_taprootAssetRoot (vtxo_of s) = None \<and>
     (\<forall>p. fr_forfeitSpend evt = Some p \<longrightarrow>
        fs_spendPath sub = p \<and> VerifyBindsToPkScript (cl_ark (ve_lib env)) (Some p) (d_pkScript (vtxo_of s)) = None)"
proof -
  obtain h sub where sub: "sign_forfeit (vtxo_of s) evt env = Inr sub"
    and t: "(ForfeitingState f, out) = forfeiting_transition (vtxo_of s) h evt env sub"
    using forfeiting_from [OF assms] by blast
  note facts = sign_forfeit_Inr [OF sub]
  show ?thesis
    using t facts resolved_path [OF facts(2)] by (auto simp: forfeiting_transition_def set_status_def)
qed

text \<open>
  C22: The participant signatures submitted for a custom spend path are complete and unambiguous:
  they are the external signatures in the order the signer returned them followed by the local one,
  under pairwise different keys, and every external signature was verified for the forfeit.
\<close>

theorem participant_sigs_verified:
  assumes "externalForfeitParticipantSigs d path evt tx env = Inr ext"
    and "participantForfeitSigs (ve_lib env) (d_clientKey d) (Some sig) True ext = Inr sigs"
  shows "\<exists>k. d_clientKey d = Some k \<and> sigs = ext @ [Some \<lparr>pg_pubKey = Some k, pg_signature = Some sig\<rparr>] \<and>
     distinct (map (sig_key (ve_lib env)) sigs) \<and>
     (ext \<noteq> [] \<longrightarrow> (\<exists>sh. forfeitParticipantSigHash (ve_lib env) (Some
          \<lparr>rq_vtxo = Some d, rq_spendPath = Some path, rq_forfeitTx = Some tx,
           rq_connectorOutpoint = fr_connectorOutpoint evt, rq_connectorPkScript = fr_connectorPkScript evt,
           rq_connectorAmount = fr_connectorAmount evt, rq_serverForfeitPkScript = fr_serverForfeitPkScript evt\<rparr>) = Inr sh \<and>
        (\<forall>x \<in> set ext. \<exists>g key y. x = Some g \<and> pg_pubKey g = Some key \<and> pg_signature g = Some y \<and>
           cl_verify (ve_lib env) y sh key)))"
proof -
  obtain k seen acc where k: "d_clientKey d = Some k"
    and c: "collect_sigs (ve_lib env) k ext {} [] = Inr (seen, acc)"
    and l: "participantForfeitKeyID (ve_lib env) (Some k) \<notin> seen"
    and sigs: "sigs = acc @ [Some \<lparr>pg_pubKey = Some k, pg_signature = Some sig\<rparr>]"
    using assms(2) by (auto simp: participantForfeitSigs_def split: option.splits if_splits)
  have "\<exists>sh. forfeitParticipantSigHash (ve_lib env) (Some
          \<lparr>rq_vtxo = Some d, rq_spendPath = Some path, rq_forfeitTx = Some tx,
           rq_connectorOutpoint = fr_connectorOutpoint evt, rq_connectorPkScript = fr_connectorPkScript evt,
           rq_connectorAmount = fr_connectorAmount evt, rq_serverForfeitPkScript = fr_serverForfeitPkScript evt\<rparr>) = Inr sh \<and>
        verify_sigs (ve_lib env) sh 0 ext = None" if "ext \<noteq> []"
    using assms(1) that
    by (auto simp: externalForfeitParticipantSigs_def verifyForfeitParticipantSignatures_def Let_def
        split: option.splits if_splits sum.splits)
  then have "ext \<noteq> [] \<longrightarrow> (\<exists>sh. forfeitParticipantSigHash (ve_lib env) (Some
          \<lparr>rq_vtxo = Some d, rq_spendPath = Some path, rq_forfeitTx = Some tx,
           rq_connectorOutpoint = fr_connectorOutpoint evt, rq_connectorPkScript = fr_connectorPkScript evt,
           rq_connectorAmount = fr_connectorAmount evt, rq_serverForfeitPkScript = fr_serverForfeitPkScript evt\<rparr>) = Inr sh \<and>
        (\<forall>x \<in> set ext. \<exists>g key y. x = Some g \<and> pg_pubKey g = Some key \<and> pg_signature g = Some y \<and>
           cl_verify (ve_lib env) y sh key))"
    unfolding verify_sigs_None by blast
  moreover have "acc = ext" "seen = set (map (sig_key (ve_lib env)) ext)" "distinct (map (sig_key (ve_lib env)) ext)"
    using collect_sigs_Inr [OF c] by auto
  moreover have "sig_key (ve_lib env) (Some \<lparr>pg_pubKey = Some k, pg_signature = Some sig\<rparr>)
      = participantForfeitKeyID (ve_lib env) (Some k)"
    by (simp add: sig_key_def)
  ultimately show ?thesis using k l sigs by auto
qed

text \<open>
  C30: The script the client signs under is one the coin commits to: for a VTXO whose output script is not
  empty and is that of the standard policy over its keys and delay, with a collaborative script that
  is not empty, every spend path the forfeit flow settles on, requested or the collaborative default,
  passes the check that it binds to the VTXO's output script.
\<close>

theorem forfeit_path_binds:
  assumes "taproot_laws (cl_ark (ve_lib env))" and "resolveForfeitSpendPath env (Some d) evt = Inr path"
    and "StandardVTXOTemplate (cl_ark (ve_lib env)) (d_clientKey d) (d_operatorKey d) (d_relativeExpiry d) = Inr t"
    and "PkScript (cl_ark (ve_lib env)) (Some t) = Inr (d_pkScript d)" "d_pkScript d \<noteq> []"
    and "Script (cl_ark (ve_lib env)) (Multisig [d_clientKey d, d_operatorKey d]) \<noteq> Inr []"
  shows "VerifyBindsToPkScript (cl_ark (ve_lib env)) (Some path) (d_pkScript d) = None"
proof (cases "Option.bind evt fr_forfeitSpend")
  case None
  with assms(2) standard_path_binds [OF assms(1) _ _ assms(3-6)] show ?thesis
    by (auto simp: resolveForfeitSpendPath_def Let_def split: if_splits)
next
  case (Some p)
  with assms(2) show ?thesis
    by (auto simp: resolveForfeitSpendPath_def Let_def split: if_splits option.splits)
qed

section \<open>Witnesses\<close>

definition ex_lib :: cryptoLib where
  "ex_lib = \<lparr>cl_ark = ex_ark, cl_txHash = \<lambda>_. 9, cl_sigHash = \<lambda>_ _ _ _. Inr [7],
     cl_parseSignature = Inr, cl_verify = \<lambda>sig sighash key. sig = sighash @ key\<rparr>"

definition ex_request :: forfeitRequest where
  "ex_request = \<lparr>fr_roundID = ''r1'', fr_connectorOutpoint = \<lparr>op_hash = 8, op_index = 1\<rparr>,
     fr_connectorPkScript = [0x52], fr_connectorAmount = 330, fr_serverForfeitPkScript = [0x53],
     fr_forfeitSpend = Some \<lparr>sp_spendInfo = Some \<lparr>si_witnessScript = [4], si_controlBlock = [5]\<rparr>,
       sp_requiredSequence = 0, sp_requiredLockTime = 0, sp_conditions = []\<rparr>\<rparr>"

definition ex_env :: vtxoEnv where
  "ex_env = \<lparr>ve_lib = ex_lib, ve_expiryConfig = DefaultExpiryConfig, ve_wallet = Some (\<lambda>_ _ _ _ _. Inr [7, 2]),
     ve_participantSigner = Some (\<lambda>_. Inr [Some \<lparr>pg_pubKey = Some [3], pg_signature = Some [7, 3]\<rparr>])\<rparr>"

definition ex_coin :: descriptor where
  "ex_coin = ex_vtxo\<lparr>d_policyTemplate := ex_policy, d_pkScript := [0x51, 1]\<rparr>"

lemmas ex_env_defs = ex_env_def ex_lib_def ex_request_def ex_coin_def ex_vtxo_def

lemma ex_expiry:
  "CheckExpiry DefaultExpiryConfig (Some ex_coin) 0 = ExpiryStatusSafe"
  "CheckExpiry DefaultExpiryConfig (Some ex_coin) 980 = ExpiryStatusCritical"
  "CheckExpiry DefaultExpiryConfig (Some ex_coin) 1000 = ExpiryStatusExpired"
  by (simp_all add: CheckExpiry_def HasUsableBatchExpiry_def ex_coin_def ex_vtxo_def CalculateCriticalThreshold_def
        exitTxDepth_def MaxTreeDepth_def DefaultExpiryConfig_def max_i32_def CalculateRefreshThreshold_def
        effectiveRefreshSafetyFloor_def canReserveMaxPaymentCLTV_def refreshSafetyFloor_def)

definition ex_path :: spendPath where
  "ex_path = the (fr_forfeitSpend ex_request)"

definition ex_tx :: wireTx where
  "ex_tx = projr (BuildForfeitTxWithContext (Some (d_outpoint ex_coin)) 1000 (Some (fr_connectorOutpoint ex_request))
     330 [0x53] \<lparr>fc_vtxoSequence = 0, fc_lockTime = 0\<rparr>)"

definition ex_sigs :: "participantSig option list" where
  "ex_sigs = [Some \<lparr>pg_pubKey = Some [3], pg_signature = Some [7, 3]\<rparr>]"

definition ex_submission :: forfeitSubmission where
  "ex_submission = \<lparr>fs_outpoint = d_outpoint ex_coin, fs_roundID = ''r1'', fs_forfeitTx = ex_tx, fs_signature = [7, 2],
     fs_participantSigs = ex_sigs @ [Some \<lparr>pg_pubKey = Some [2], pg_signature = Some [7, 2]\<rparr>], fs_spendPath = ex_path\<rparr>"

lemma ex_built:
  "BuildForfeitTxWithContext (Some (d_outpoint ex_coin)) 1000 (Some (fr_connectorOutpoint ex_request))
     330 [0x53] \<lparr>fc_vtxoSequence = 0, fc_lockTime = 0\<rparr> = Inr ex_tx"
  by (simp add: ex_tx_def BuildForfeitTxWithContext_def ex_env_defs Let_def)

lemma ex_external:
  "externalForfeitParticipantSigs ex_coin ex_path ex_request ex_tx ex_env = Inr ex_sigs"
  by (simp add: externalForfeitParticipantSigs_def ex_env_defs verifyForfeitParticipantSignatures_def
      forfeitParticipantSigHash_def ex_sigs_def Let_def ex_path_def)

lemma ex_collected:
  "participantForfeitSigs ex_lib (Some [2]) (Some [7, 2]) True ex_sigs =
     Inr (ex_sigs @ [Some \<lparr>pg_pubKey = Some [2], pg_signature = Some [7, 2]\<rparr>])"
proof -
  have "al_xOnly ex_ark [3] \<noteq> al_xOnly ex_ark [2]"
  proof
    assume "al_xOnly ex_ark [3] = al_xOnly ex_ark [2]"
    then have "hd (al_xOnly ex_ark [3]) = hd (al_xOnly ex_ark [2])" by (rule arg_cong)
    then show False by (simp add: ex_ark_def)
  qed
  then show ?thesis
    by (simp add: participantForfeitSigs_def ex_sigs_def ex_lib_def participantForfeitKeyID_def
        sameParticipantForfeitKey_def Let_def)
qed

lemma ex_pkScript: "PkScript ex_ark (Some ex_template) = Inr [0x51, 1]"
  by (simp add: Compile_def PkScript_def ex_template_def LeafTemplate_Script_def scriptChecksig_def ex_ark_def
      validateCSVLock_def SequenceLockTimeMask_def BuildTree_def Let_def OutputKey_def split: prod.split)

lemma ex_signed: "sign_forfeit ex_coin ex_request ex_env = Inr ex_submission"
proof -
  have pk: "EffectivePkScript ex_ark (Some ex_coin) = Inr [0x51, 1]"
    using ex_policy_decodes ex_pkScript
    by (simp add: EffectivePkScript_def Descriptor_DecodePolicyTemplate_def EffectivePolicyTemplate_def ex_coin_def ex_vtxo_def)
  have bind: "VerifyBindsToPkScript ex_ark (Some ex_path) [0x51, 1] = None"
    by (simp add: VerifyBindsToPkScript_def SpendPath_Validate_def ex_path_def ex_request_def Let_def ex_ark_def)
  have "cl_ark (ve_lib ex_env) = ex_ark" "d_taprootAssetRoot ex_coin = None" "fr_forfeitSpend ex_request = Some ex_path"
    "SpendPath_Validate (Some ex_path) = None" "d_pkScript ex_coin = [0x51, 1]"
    by (simp_all add: ex_env_defs ex_path_def SpendPath_Validate_def)
  then have path: "resolveForfeitSpendPath ex_env (Some ex_coin) (Some ex_request) = Inr ex_path"
    by (simp add: resolveForfeitSpendPath_def pk bind Let_def)
  have sig: "signForfeitVTXOInput ex_coin ex_path ex_request ex_tx ex_env = Inr [7, 2]"
    by (simp add: signForfeitVTXOInput_def ex_env_def ex_lib_def Let_def)
  have sel: "d_amount ex_coin = 1000" "fr_connectorAmount ex_request = 330" "fr_serverForfeitPkScript ex_request = [0x53]"
    "sp_requiredSequence ex_path = 0" "sp_requiredLockTime ex_path = 0" "ve_lib ex_env = ex_lib"
    "d_clientKey ex_coin = Some [2]" "\<exists>p. fr_forfeitSpend ex_request = Some p" "fr_roundID ex_request = ''r1''"
    by (simp_all add: ex_env_defs ex_path_def)
  show ?thesis
    using ex_collected by (simp add: sign_forfeit_def path ex_built sig sel ex_external ex_submission_def)
qed

definition ex_forfeiting :: forfeiting where
  "ex_forfeiting = (case fst (forfeiting_transition ex_coin 0 ex_request ex_env ex_submission) of ForfeitingState f \<Rightarrow> f)"

lemma ex_forfeited:
  "ProcessEvent (LiveState ex_coin 0) (ForfeitRequestEvent ex_request) ex_env =
     Inr (ForfeitingState ex_forfeiting, snd (forfeiting_transition ex_coin 0 ex_request ex_env ex_submission))"
proof -
  have "d_taprootAssetRoot ex_coin = None" by (simp add: ex_coin_def ex_vtxo_def)
  then show ?thesis
    by (simp add: LiveState_ProcessEvent_def handleForfeitRequest_def ex_signed ex_forfeiting_def forfeiting_transition_def)
qed

theorem vtxo_row_agrees_witness:
  "run_machine vtxo_step (LiveState ex_coin 0, VTXOStatusLive) [(ex_env, PendingForfeitEvent)]
     = (PendingForfeitState ex_coin 0, VTXOStatusPendingForfeit) \<and>
   status_of (statusToState (\<lambda>_. None) (ex_coin\<lparr>d_status := VTXOStatusPendingForfeit\<rparr>)) = VTXOStatusPendingForfeit"
proof -
  have run: "run_machine vtxo_step (LiveState ex_coin 0, VTXOStatusLive) [(ex_env, PendingForfeitEvent)]
     = (PendingForfeitState ex_coin 0, VTXOStatusPendingForfeit)"
    by (simp add: LiveState_ProcessEvent_def handlePendingForfeit_def ex_coin_def ex_vtxo_def)
  from vtxo_row_agrees [OF _ run, of "\<lambda>_. None"] run show ?thesis by simp
qed

theorem critical_block_starts_exit_witness:
  "(\<exists>reason x u. ProcessEvent (SpendingState ex_coin 0)
       (preflightCriticalExit (Some (\<lambda>_. Inr False)) ex_env (SpendingState ex_coin 0) (BlockEpochEvent 980)) ex_env =
     Inr (UnilateralExitState ex_coin reason 980, [ExpiringMsg x, StatusUpdateMsg u]) \<and> su_releaseSpendReservation u) \<and>
   ProcessEvent (PendingForfeitState ex_coin 900)
       (preflightCriticalExit (Some (\<lambda>_. Inr False)) ex_env (PendingForfeitState ex_coin 900) (BlockEpochEvent 980)) ex_env =
     Inr (PendingForfeitState ex_coin 900, [])"
proof -
  have crit: "CheckExpiry (ve_expiryConfig ex_env) (Some ex_coin) 980 = ExpiryStatusCritical" "d_taprootAssetRoot ex_coin = None"
    using ex_expiry(2) by (simp_all add: ex_env_defs)
  then show ?thesis
    using critical_block_starts_exit [of ex_env "SpendingState ex_coin 0" 980 ex_coin _ "Some (\<lambda>_. Inr False)", OF _ _ _ _ refl]
      critical_block_starts_exit [of ex_env "PendingForfeitState ex_coin 900" 980 ex_coin _ "Some (\<lambda>_. Inr False)", OF _ _ _ _ refl]
    by auto
qed

theorem signed_forfeit_no_automatic_exit_witness:
  "\<exists>f'. run_machine vtxo_step (ForfeitingState ex_forfeiting, VTXOStatusForfeiting)
       [(ex_env, ForfeitSignedEvent 0), (ex_env, BlockEpochEvent 980),
        (ex_env, ForceUnrollEvent [] UnrollTriggerCriticalExpiry None), (ex_env, ForfeitReleasedEvent ''r0'')]
     = (ForfeitingState f', VTXOStatusForfeiting) \<and> ff_forfeitTx f' = Some ex_tx"
proof -
  let ?cs = "[(ex_env, ForfeitSignedEvent 0), (ex_env, BlockEpochEvent 980),
        (ex_env, ForceUnrollEvent [] UnrollTriggerCriticalExpiry None), (ex_env, ForfeitReleasedEvent ''r0'')]"
  obtain s' st' where run: "run_machine vtxo_step (ForfeitingState ex_forfeiting, VTXOStatusForfeiting) ?cs = (s', st')"
    by (metis prod.exhaust)
  have "forfeitSignatureIssued (ex_forfeiting\<lparr>ff_forfeitTxID := 0\<rparr>)" "ff_newRoundID ex_forfeiting = ''r1''"
    by (simp_all add: forfeitSignatureIssued_def ex_request_def ex_forfeiting_def forfeiting_transition_def)
  then have "status_of s' = VTXOStatusForfeiting"
    using run by (auto simp: forfeiting_defs Let_def split: if_splits)
  then show ?thesis
    using signed_forfeit_no_automatic_exit [OF ex_forfeited _ _ run] run
    by (auto simp: unprovoked_def ex_request_def forfeiting_transition_def ex_submission_def)
qed

theorem expired_stays_quarantined_witness:
  "status_of (fst (run_machine vtxo_step (ExpiredState ex_coin 1000, VTXOStatusExpired)
      [(ex_env, PendingForfeitEvent), (ex_env, BlockEpochEvent 1001), (ex_env, ForfeitReleasedEvent ''r1'')]))
     \<in> {VTXOStatusExpired, VTXOStatusPendingForfeit, VTXOStatusForfeiting, VTXOStatusForfeited, VTXOStatusFailed}"
proof (rule expired_stays_quarantined [THEN conjunct1])
  show "CheckExpiry DefaultExpiryConfig (Some ex_coin) 1000 = ExpiryStatusExpired" by (rule ex_expiry)
  show "list_all (quiet 1000)
      [(ex_env, PendingForfeitEvent), (ex_env, BlockEpochEvent 1001), (ex_env, ForfeitReleasedEvent ''r1'')]"
    by (simp add: quiet_def ex_env_def)
  show "sint (1000 :: i32) \<le> sint (1000 :: i32)" ..
qed (simp, rule prod.collapse [symmetric])

theorem quarantine_gaps_witness:
  "run_machine vtxo_step (PendingForfeitState ex_coin 0, VTXOStatusPendingForfeit)
     [(ex_env, BlockEpochEvent 1000), (ex_env, ForfeitReleasedEvent [])] = (LiveState ex_coin 0, VTXOStatusLive)"
proof (rule quarantine_gaps [THEN conjunct2])
  show "d_taprootAssetRoot ex_coin = None" by (simp add: ex_coin_def ex_vtxo_def)
  show "CheckExpiry (ve_expiryConfig ex_env) (Some ex_coin) 1000 = ExpiryStatusExpired"
    "CheckExpiry (ve_expiryConfig ex_env) (Some ex_coin) 0 = ExpiryStatusSafe"
    using ex_expiry by (simp_all add: ex_env_def)
qed

theorem accepted_forfeit_validates_witness:
  "\<exists>tx (sub :: forfeitSubmission). ff_forfeitTx ex_forfeiting = Some tx \<and>
     ValidateForfeitTx (Some tx) (forfeit_params ex_coin ex_request (fs_spendPath sub)) = None"
  using accepted_forfeit_validates [OF ex_forfeited, simplified] by blast

theorem participant_sigs_verified_witness:
  "distinct (map (sig_key ex_lib) (ex_sigs @ [Some \<lparr>pg_pubKey = Some [2], pg_signature = Some [7, 2]\<rparr>]))"
proof -
  have "ve_lib ex_env = ex_lib" "d_clientKey ex_coin = Some [2]" by (simp_all add: ex_env_defs)
  with participant_sigs_verified [OF ex_external, of "[7, 2]"] ex_collected show ?thesis by auto
qed

definition ex_tree_env :: vtxoEnv where
  "ex_tree_env = ex_env\<lparr>ve_lib := ex_lib\<lparr>cl_ark := ex_tree_lib\<rparr>\<rparr>"

definition ex_standard :: policyTemplate where
  "ex_standard = \<lparr>pt_leaves = [\<lparr>lt_node = Some (Multisig [Some [2], Some [3]])\<rparr>,
     \<lparr>lt_node = Some (CSV 144 (Some (Multisig [Some [2]])))\<rparr>]\<rparr>"

text \<open>The coin with the output of its standard policy.\<close>

definition ex_standard_coin :: descriptor where
  "ex_standard_coin = ex_coin\<lparr>d_pkScript := projr (PkScript ex_tree_lib (Some ex_standard))\<rparr>"

theorem forfeit_path_binds_witness:
  "\<exists>path. resolveForfeitSpendPath ex_tree_env (Some ex_standard_coin) None = Inr path \<and>
     VerifyBindsToPkScript ex_tree_lib (Some path) (d_pkScript ex_standard_coin) = None"
proof -
  have ark: "cl_ark (ve_lib ex_tree_env) = ex_tree_lib" by (simp add: ex_tree_env_def)
  have d: "d_clientKey ex_standard_coin = Some [2]" "d_operatorKey ex_standard_coin = Some [3]"
    "d_relativeExpiry ex_standard_coin = 144" "d_taprootAssetRoot ex_standard_coin = None"
    by (simp_all add: ex_standard_coin_def ex_coin_def ex_vtxo_def)
  have t: "StandardVTXOTemplate ex_tree_lib (Some [2]) (Some [3]) 144 = Inr ex_standard"
    by (simp add: standard_template SequenceLockTimeMask_def ex_tree_lib_def ex_ark_def ex_standard_def)
  have "okR (Compile ex_tree_lib (Some ex_standard))"
    by (simp add: Compile_ok LeafTemplate_Script_def scriptChecksig_def ex_tree_lib_def ex_ark_def validateCSVLock_def
        SequenceLockTimeMask_def ex_standard_def)
  then obtain p where comp: "Compile ex_tree_lib (Some ex_standard) = Inr p" by (auto simp: okR_iff)
  have pk: "PkScript ex_tree_lib (Some ex_standard) = Inr (d_pkScript ex_standard_coin)" "d_pkScript ex_standard_coin \<noteq> []"
    by (simp_all add: ex_standard_coin_def PkScript_def comp) (simp_all add: ex_tree_lib_def ex_ark_def)
  have ne: "Script ex_tree_lib (Multisig [Some [2], Some [3]]) \<noteq> Inr []"
    by (simp add: scriptChecksig_def ex_tree_lib_def ex_ark_def op_bytes_def)
  obtain script where s: "Script ex_tree_lib (Multisig [Some [2], Some [3]]) = Inr script"
    by (simp add: scriptChecksig_def ex_tree_lib_def ex_ark_def)
  obtain i where i: "i < length (cp_leaves p)" "ScriptIndex p script = int i"
    by (rule leaf_found [OF comp _ s]) (simp_all add: ex_standard_def)
  have "okR (buildControlBlock ex_tree_lib p i)" by (simp add: buildControlBlock_def ex_tree_lib_def Let_def)
  then obtain info where "SpendInfoForNode ex_tree_lib p (Multisig [Some [2], Some [3]]) = Inr info"
    using i s by (auto simp: SpendInfoForNode_def SpendInfo_def Let_def okR_iff)
  then obtain path where path: "resolveForfeitSpendPath ex_tree_env (Some ex_standard_coin) None = Inr path"
    using comp by (simp add: resolveForfeitSpendPath_def d ark NewVTXOPolicy_def t CollabSpendInfo_def Let_def ex_standard_def)
  have "VerifyBindsToPkScript ex_tree_lib (Some path) (d_pkScript ex_standard_coin) = None"
    using forfeit_path_binds [OF _ path, of ex_standard] ex_taproot t pk ne by (simp add: ark d)
  with path show ?thesis by simp
qed

end
