(* ===== verification/Tree_Node.thy ===== *)
theory Tree_Node
  imports Tree_Queue Forfeit_Tx Ark_Tree
begin

text \<open>
  Virtual transaction trees of \<open>lib/tree\<close>: nodes (\<open>node.go\<close>), the tree with the
  commitment output it spends (\<open>tree.go\<close>), value conservation (\<open>value.go\<close>) and the
  output scripts of the children (\<open>scripts.go\<close>). Trees are Bitcoin-only: the asset context
  is nil. What belongs to btcd (transaction and signature hashes, MuSig2 key aggregation,
  the taproot tweak, Schnorr signatures) are fields of \<open>treeLib\<close>.
\<close>

section \<open>Data\<close>

text \<open>
  The map from output index to child is the list of its entries in the order a \<open>range\<close>
  loop meets them; the theorems hold for every list, so for every iteration order. Nodes
  are values: a node has one parent, as in every tree the builder makes and the decoder
  admits. An output pointer may be nil; children are never nil.
\<close>

datatype treeNode = TreeNode
  (tn_input: outPoint)
  (tn_outputs: "txOut option list")
  (tn_coSigners: "pubKey list")
  (tn_children: "(u32 \<times> treeNode) list")
  (tn_amount: i64)
  (tn_signature: "byte list option")
  (tn_finalKey: "pubKey option")

record txTree =
  tr_root :: "treeNode option"
  tr_batchOutpoint :: outPoint
  tr_batchOutput :: "txOut option"
  tr_sweepTapscriptRoot :: "byte list"
  tr_sweepKey :: "pubKey option"
  tr_sweepDelay :: u32

record leafDescriptor =
  lf_pkScript :: "byte list"
  lf_amount :: i64
  lf_coSignerKey :: "pubKey option"

text \<open>
  \<open>NilPointer\<close> is the panic of a nil dereference, \<open>InNode\<close> and \<open>InChild\<close> the wrapping of
  an error of a callee.
\<close>

datatype tree_error =
    TreeError string
  | TreeLibError string
  | AtOutput string nat
  | NilPointer
  | InNode string tree_error
  | InChild u32 tree_error

type_synonym prevOutFetcher = "outPoint \<Rightarrow> txOut option"

text \<open>
  \<open>tl_aggregate\<close> is \<open>musig2.AggregateKeys\<close> with sorting and a taproot tweak; it returns the
  key before and after the tweak. \<open>tl_tapOutputKey\<close> is \<open>txscript.ComputeTaprootOutputKey\<close>.
\<close>

record treeLib =
  tl_ark :: arkLib
  tl_txHash :: "wireTx \<Rightarrow> hash"
  tl_sigHash :: "wireTx \<Rightarrow> nat \<Rightarrow> prevOutFetcher \<Rightarrow> string + byte list"
  tl_parseSignature :: "byte list \<Rightarrow> string + byte list"
  tl_verify :: "byte list \<Rightarrow> byte list \<Rightarrow> pubKey \<Rightarrow> bool"
  tl_aggregate :: "pubKey list \<Rightarrow> byte list \<Rightarrow> string + pubKey \<times> pubKey"
  tl_tapOutputKey :: "pubKey \<Rightarrow> byte list \<Rightarrow> pubKey"
  tl_isPayToTaproot :: "byte list \<Rightarrow> bool"

definition treeLibR :: "string + 'a \<Rightarrow> tree_error + 'a" where
  "treeLibR m = (case m of Inl e \<Rightarrow> Inl (TreeLibError e) | Inr x \<Rightarrow> Inr x)"

lemma treeLibR_Inr [simp]: "treeLibR m = Inr x \<longleftrightarrow> m = Inr x"
  by (cases m) (auto simp: treeLibR_def)

lemma treeLibR_simp [simp]: "treeLibR (Inr x) = Inr x"
  by simp

text \<open>The visit of children: results computed per child, taken by ascending output index.\<close>

definition in_order :: "(u32 \<times> 'a) list \<Rightarrow> 'a list" where
  "in_order rs = map snd (sort_key fst rs)"

lemma set_in_order [simp]: "set (in_order rs) = snd ` set rs"
  by (simp add: in_order_def)

lemma in_order_Nil [simp]: "in_order [] = []"
  by (simp add: in_order_def)

lemma child_size [termination_simp]:
  "(i, c) \<in> set chs \<Longrightarrow> size c < Suc (size_list (size_prod (\<lambda>_. 0) size) chs)"
  by (induction chs) auto

section \<open>Keys\<close>

definition inputIndex :: nat where
  "inputIndex = 0"

definition ContainsCosigner :: "pubKey list \<Rightarrow> pubKey \<Rightarrow> bool" where
  "ContainsCosigner cosigners targetKey \<longleftrightarrow> targetKey \<in> set cosigners"

fun unique_loop :: "treeLib \<Rightarrow> byte list set \<Rightarrow> pubKey list \<Rightarrow> pubKey list" where
  "unique_loop lib seen [] = []"
| "unique_loop lib seen (k # ks) =
     (let x = al_xOnly (tl_ark lib) k in
      if x \<in> seen then unique_loop lib seen ks else k # unique_loop lib (insert x seen) ks)"

definition UniqueCosigners :: "treeLib \<Rightarrow> pubKey list \<Rightarrow> pubKey list" where
  "UniqueCosigners lib cosigners = unique_loop lib {} cosigners"

definition ComputeFinalKey :: "treeLib \<Rightarrow> pubKey list \<Rightarrow> byte list \<Rightarrow> tree_error + pubKey" where
  "ComputeFinalKey lib cosigners sweepTapscriptRoot =
     (case cosigners of
        [] \<Rightarrow> Inl (TreeError ''no cosigners provided'')
      | [k] \<Rightarrow> Inr (tl_tapOutputKey lib k sweepTapscriptRoot)
      | _ \<Rightarrow> bindR (treeLibR (tl_aggregate lib cosigners sweepTapscriptRoot)) (\<lambda>(pre, fin). Inr fin))"

section \<open>Nodes\<close>

text \<open>
  Hashing a transaction dereferences its outputs, so a nil output is reported where the
  transaction is made.
\<close>

definition ToTx :: "treeNode \<Rightarrow> tree_error + wireTx" where
  "ToTx n =
     (if None \<in> set (tn_outputs n) then Inl NilPointer
      else Inr \<lparr>wt_version = 3, wt_lockTime = 0,
                wt_ins = [\<lparr>in_prevout = tn_input n, in_signatureScript = [], in_witness = [], in_sequence = MaxTxInSequenceNum\<rparr>],
                wt_outs = map the (tn_outputs n)\<rparr>)"

definition TXID :: "treeLib \<Rightarrow> treeNode \<Rightarrow> tree_error + hash" where
  "TXID lib n = bindR (ToTx n) (\<lambda>tx. Inr (tl_txHash lib tx))"

definition IsLeaf :: "treeNode \<Rightarrow> bool" where
  "IsLeaf n \<longleftrightarrow> tn_children n = []"

fun NodesIter :: "treeNode \<Rightarrow> treeNode list" where
  "NodesIter (TreeNode inp outs cos chs amt sg fk) =
     TreeNode inp outs cos chs amt sg fk # concat (in_order (map (\<lambda>(i, c). (i, NodesIter c)) chs))"

fun GetLeafNodes :: "treeNode \<Rightarrow> treeNode list" where
  "GetLeafNodes (TreeNode inp outs cos chs amt sg fk) =
     (if chs = [] then [TreeNode inp outs cos chs amt sg fk]
      else concat (in_order (map (\<lambda>(i, c). (i, GetLeafNodes c)) chs)))"

fun ForEach :: "(treeNode \<Rightarrow> tree_error option) \<Rightarrow> treeNode \<Rightarrow> tree_error option" where
  "ForEach callback (TreeNode inp outs cos chs amt sg fk) =
     thenErr (callback (TreeNode inp outs cos chs amt sg fk))
       (firstErr (\<lambda>e. e) (in_order (map (\<lambda>(i, c). (i, ForEach callback c)) chs)))"

fun Depth :: "treeNode \<Rightarrow> nat" where
  "Depth (TreeNode inp outs cos chs amt sg fk) =
     (if chs = [] then 1 else 1 + fold max (map (\<lambda>(i, c). Depth c) chs) 0)"

fun NumTx :: "treeNode \<Rightarrow> nat" where
  "NumTx (TreeNode inp outs cos chs amt sg fk) = 1 + sum_list (map (\<lambda>(i, c). NumTx c) chs)"

fun countLeaves :: "treeNode \<Rightarrow> nat" where
  "countLeaves (TreeNode inp outs cos chs amt sg fk) =
     (if chs = [] then 1 else sum_list (map (\<lambda>(i, c). countLeaves c) chs))"

text \<open>The extracted nodes are new ones, whose \<open>Amount\<close> stays zero.\<close>

definition some_children :: "(u32 \<times> treeNode option) list \<Rightarrow> (u32 \<times> treeNode) list" where
  "some_children rs = map (\<lambda>(i, r). (i, the r)) (filter (\<lambda>(i, r). r \<noteq> None) rs)"

fun ExtractPathForCoSigners :: "pubKey list \<Rightarrow> treeNode \<Rightarrow> treeNode option" where
  "ExtractPathForCoSigners targetKeys (TreeNode inp outs cos chs amt sg fk) =
     (if \<exists>k \<in> set targetKeys. ContainsCosigner cos k
      then Some (TreeNode inp outs cos
             (some_children (map (\<lambda>(i, c). (i, ExtractPathForCoSigners targetKeys c)) chs)) 0 sg fk)
      else None)"

text \<open>
  The loop over the output indices below \<open>len(Outputs) - 1\<close> that have a child, in ascending
  order; \<open>uint32(len(Outputs) - 1)\<close> wraps when there is no output.
\<close>

fun index_walk :: "(u32 \<times> (nat \<Rightarrow> treeNode option \<times> nat)) list \<Rightarrow> nat \<Rightarrow> (u32 \<times> treeNode) list \<times> nat" where
  "index_walk [] k = ([], k)"
| "index_walk ((i, f) # rs) k =
     (case f k of
        (None, k') \<Rightarrow> index_walk rs k'
      | (Some c, k') \<Rightarrow> (let (l, k'') = index_walk rs k' in ((i, c) # l, k'')))"

fun extractPathForIndicesRecursive :: "int list \<Rightarrow> treeNode \<Rightarrow> nat \<Rightarrow> treeNode option \<times> nat" where
  "extractPathForIndicesRecursive targets (TreeNode inp outs cos chs amt sg fk) currentIndex =
     (if chs = []
      then (if int currentIndex \<in> set targets then Some (TreeNode inp outs cos [] 0 sg fk) else None, currentIndex + 1)
      else
        let limit = of_nat (length outs) - 1 :: u32;
            rs = map (\<lambda>(i, c). (i, \<lambda>k. extractPathForIndicesRecursive targets c k)) chs;
            (kids, leafIndex) = index_walk (sort_key fst (filter (\<lambda>(i, _). i < limit) rs)) currentIndex in
        (if kids = [] then None else Some (TreeNode inp outs cos kids 0 sg fk), leafIndex))"

definition ExtractPathForIndices :: "int list \<Rightarrow> treeNode \<Rightarrow> tree_error + treeNode" where
  "ExtractPathForIndices targetIndices n =
     (if targetIndices = [] then Inl (TreeError ''no target indices provided'')
      else
        let totalLeaves = countLeaves n in
        case firstErr (\<lambda>idx. if idx < 0 then Some (TreeError ''leaf index must be non-negative'')
                             else if idx \<ge> int totalLeaves then Some (TreeError ''leaf index out of bounds'')
                             else None) targetIndices of
          Some e \<Rightarrow> Inl e
        | None \<Rightarrow>
            (case extractPathForIndicesRecursive targetIndices n 0 of
               (None, _) \<Rightarrow> Inl (TreeError ''no paths found for target indices'')
             | (Some extracted, _) \<Rightarrow> Inr extracted))"

definition add_outputs :: "hash \<Rightarrow> txOut option list \<Rightarrow> prevOutFetcher \<Rightarrow> prevOutFetcher" where
  "add_outputs txHash outs m =
     fold (\<lambda>(i, output) m. m(\<lparr>op_hash = txHash, op_index = of_nat i\<rparr> := output)) (enumerate 0 outs) m"

fun fetcher_loop :: "treeLib \<Rightarrow> treeNode list \<Rightarrow> prevOutFetcher \<Rightarrow> tree_error + prevOutFetcher" where
  "fetcher_loop lib [] m = Inr m"
| "fetcher_loop lib (n # ns) m =
     bindR (TXID lib n) (\<lambda>txHash. fetcher_loop lib ns (add_outputs txHash (tn_outputs n) m))"

definition PrevOutputFetcher :: "treeLib \<Rightarrow> treeNode \<Rightarrow> txOut option \<Rightarrow> tree_error + prevOutFetcher" where
  "PrevOutputFetcher lib n initialPrevOut =
     fetcher_loop lib (NodesIter n) ((\<lambda>_. None)(tn_input n := initialPrevOut))"

definition GetLeafForCoSigner :: "pubKey \<Rightarrow> treeNode \<Rightarrow> treeNode option" where
  "GetLeafForCoSigner targetKey n = find (\<lambda>leaf. ContainsCosigner (tn_coSigners leaf) targetKey) (GetLeafNodes n)"

definition GetNonAnchorOutpoint :: "treeLib \<Rightarrow> treeNode \<Rightarrow> tree_error + outPoint" where
  "GetNonAnchorOutpoint lib n =
     (if \<not> IsLeaf n then Inl (TreeError ''node is not a leaf'')
      else bindR (ToTx n) (\<lambda>tx.
        case find (\<lambda>(i, output). out_pkScript output \<noteq> out_pkScript AnchorOutput) (enumerate 0 (wt_outs tx)) of
          None \<Rightarrow> Inl (TreeError ''no non-anchor output found in leaf node'')
        | Some (i, _) \<Rightarrow> Inr \<lparr>op_hash = tl_txHash lib tx, op_index = of_nat i\<rparr>))"

text \<open>\<open>Node.Verify\<close>, the topology check.\<close>

fun VerifyNode :: "treeLib \<Rightarrow> treeNode \<Rightarrow> tree_error option" where
  "VerifyNode lib (TreeNode inp outs cos chs amt sg fk) =
     (case TXID lib (TreeNode inp outs cos chs amt sg fk) of
        Inl e \<Rightarrow> Some e
      | Inr txHash \<Rightarrow>
          firstErr (\<lambda>e. e) (map (\<lambda>(i, c).
            if length outs \<le> unat i then Some (TreeError ''child references non-existent output index'')
            else if tn_input c \<noteq> \<lparr>op_hash = txHash, op_index = i\<rparr> then Some (TreeError ''child has incorrect input'')
            else map_option (InChild i) (VerifyNode lib c)) chs))"

definition SigHash :: "treeLib \<Rightarrow> prevOutFetcher \<Rightarrow> treeNode \<Rightarrow> tree_error + byte list" where
  "SigHash lib fetcher n = bindR (ToTx n) (\<lambda>tx. treeLibR (tl_sigHash lib tx inputIndex fetcher))"

text \<open>\<open>VerifySigned\<close> checks that there is a signature before it verifies it.\<close>

definition verifyNodeSignature :: "treeLib \<Rightarrow> prevOutFetcher \<Rightarrow> treeNode \<Rightarrow> byte list \<Rightarrow> tree_error option" where
  "verifyNodeSignature lib fetcher n sig =
     (case tn_finalKey n of
        None \<Rightarrow> Some (TreeError ''node has no FinalKey set'')
      | Some finalKey \<Rightarrow>
          (case SigHash lib fetcher n of
             Inl e \<Rightarrow> Some e
           | Inr sigHash \<Rightarrow>
               if tl_verify lib sig sigHash finalKey then None
               else Some (TreeError ''signature verification failed'')))"

definition VerifySignedNode :: "treeLib \<Rightarrow> prevOutFetcher \<Rightarrow> treeNode \<Rightarrow> tree_error option" where
  "VerifySignedNode lib fetcher n =
     ForEach (\<lambda>node. case tn_signature node of
                       None \<Rightarrow> Some (TreeError ''no signature found for transaction'')
                     | Some sig \<Rightarrow> verifyNodeSignature lib fetcher node sig) n"

section \<open>Values and scripts\<close>

definition MaxSatoshi :: i64 where
  "MaxSatoshi = 2100000000000000"

definition validateSatoshiValue :: "string \<Rightarrow> i64 \<Rightarrow> tree_error option" where
  "validateSatoshiValue name v =
     (if sint v < 0 then Some (InNode name (TreeError ''negative value''))
      else if sint v > sint MaxSatoshi then Some (InNode name (TreeError ''value exceeds maximum''))
      else None)"

fun sum_outputs :: "txOut option list \<Rightarrow> nat \<Rightarrow> i64 \<Rightarrow> tree_error + i64" where
  "sum_outputs [] i sofar = Inr sofar"
| "sum_outputs (None # outs) i sofar = Inl (AtOutput ''output is nil'' i)"
| "sum_outputs (Some output # outs) i sofar =
     (case validateSatoshiValue ''output'' (out_value output) of
        Some e \<Rightarrow> Inl e
      | None \<Rightarrow>
          if sint sofar > sint (MaxSatoshi - out_value output)
          then Inl (TreeError ''total output value exceeds maximum'')
          else sum_outputs outs (Suc i) (sofar + out_value output))"

fun validateNodeValueConservation :: "treeLib \<Rightarrow> treeNode \<Rightarrow> outPoint \<Rightarrow> i64 \<Rightarrow> tree_error option" where
  "validateNodeValueConservation lib (TreeNode inp outs cos chs amt sg fk) expectedInput inputValue =
     (if inp \<noteq> expectedInput then Some (TreeError ''input does not match funding outpoint'')
      else if outs = [] then Some (TreeError ''transaction has no outputs'')
      else case sum_outputs outs 0 0 of
        Inl e \<Rightarrow> Some e
      | Inr totalOutputValue \<Rightarrow>
          if sint totalOutputValue > sint inputValue then Some (TreeError ''output value exceeds input value'')
          else if sint totalOutputValue < sint inputValue
          then Some (TreeError ''output value does not equal input value'')
          else case TXID lib (TreeNode inp outs cos chs amt sg fk) of
            Inl e \<Rightarrow> Some e
          | Inr txid \<Rightarrow>
              firstErr (\<lambda>e. e) (in_order (map (\<lambda>(i, c). (i,
                if length outs \<le> unat i then Some (TreeError ''child references non-existent output index'')
                else case outs ! unat i of
                  None \<Rightarrow> Some NilPointer
                | Some output \<Rightarrow>
                    map_option (InChild i)
                      (validateNodeValueConservation lib c \<lparr>op_hash = txid, op_index = i\<rparr> (out_value output)))) chs)))"

definition childScript :: "treeLib \<Rightarrow> byte list \<Rightarrow> treeNode \<Rightarrow> tree_error + byte list" where
  "childScript lib tweak child =
     bindR (ComputeFinalKey lib (tn_coSigners child) tweak) (\<lambda>finalKey. treeLibR (al_payToTaproot (tl_ark lib) finalKey))"

fun validateNodeChildScripts :: "treeLib \<Rightarrow> byte list \<Rightarrow> treeNode \<Rightarrow> tree_error option" where
  "validateNodeChildScripts lib tweak (TreeNode inp outs cos chs amt sg fk) =
     firstErr (\<lambda>e. e) (in_order (map (\<lambda>(i, c). (i,
       if length outs \<le> unat i then Some (TreeError ''child references non-existent output index'')
       else case childScript lib tweak c of
         Inl e \<Rightarrow> Some e
       | Inr expectedScript \<Rightarrow>
           (case outs ! unat i of
              None \<Rightarrow> Some (AtOutput ''output is nil'' (unat i))
            | Some parentOutput \<Rightarrow>
                if out_pkScript parentOutput \<noteq> expectedScript
                then Some (AtOutput ''output script does not match child cosigners and signing tweak'' (unat i))
                else map_option (InChild i) (validateNodeChildScripts lib tweak c)))) chs))"

section \<open>Trees\<close>

definition ValidateValueConservation :: "treeLib \<Rightarrow> txTree option \<Rightarrow> tree_error option" where
  "ValidateValueConservation lib tree =
     (case tree of
        None \<Rightarrow> Some (TreeError ''tree is nil'')
      | Some t \<Rightarrow>
          (case tr_root t of
             None \<Rightarrow> Some (TreeError ''tree root is nil'')
           | Some root \<Rightarrow>
               (case tr_batchOutput t of
                  None \<Rightarrow> Some (TreeError ''batch output is nil'')
                | Some batchOutput \<Rightarrow>
                    thenErr (validateSatoshiValue ''batch output'' (out_value batchOutput))
                      (map_option (InNode ''root'')
                        (validateNodeValueConservation lib root (tr_batchOutpoint t) (out_value batchOutput))))))"

definition ValidateChildScripts :: "treeLib \<Rightarrow> txTree option \<Rightarrow> tree_error option" where
  "ValidateChildScripts lib tree =
     (case tree of
        None \<Rightarrow> Some (TreeError ''tree is nil'')
      | Some t \<Rightarrow>
          (case tr_root t of
             None \<Rightarrow> Some (TreeError ''tree root is nil'')
           | Some root \<Rightarrow> validateNodeChildScripts lib (tr_sweepTapscriptRoot t) root))"

definition Verify :: "treeLib \<Rightarrow> txTree option \<Rightarrow> tree_error option" where
  "Verify lib tree =
     (case tree of
        None \<Rightarrow> Some (TreeError ''tree is nil'')
      | Some t \<Rightarrow>
          (case tr_root t of
             None \<Rightarrow> Some (TreeError ''tree root is nil'')
           | Some root \<Rightarrow>
               if tn_input root \<noteq> tr_batchOutpoint t
               then Some (TreeError ''root input does not match batch outpoint'')
               else map_option (InNode ''value conservation failed'') (ValidateValueConservation lib tree)))"

text \<open>\<open>Tree.ExtractPathForCoSigners\<close>: \<open>Inr None\<close> is the nil tree with a nil error.\<close>

definition ExtractTreeForCoSigners :: "pubKey option list \<Rightarrow> txTree \<Rightarrow> tree_error + txTree option" where
  "ExtractTreeForCoSigners targetKeys t =
     (if targetKeys = [] then Inl (TreeError ''at least one target key required'')
      else if None \<in> set targetKeys then Inl (TreeError ''target key cannot be nil'')
      else case tr_root t of
        None \<Rightarrow> Inl NilPointer
      | Some root \<Rightarrow>
          Inr (map_option (\<lambda>extractedRoot. t\<lparr>tr_root := Some extractedRoot\<rparr>)
                 (ExtractPathForCoSigners (map the targetKeys) root)))"

definition ExtractTreeForIndices :: "int list \<Rightarrow> txTree \<Rightarrow> tree_error + txTree option" where
  "ExtractTreeForIndices leafIndices t =
     (if leafIndices = [] then Inr None
      else case tr_root t of
        None \<Rightarrow> Inl NilPointer
      | Some root \<Rightarrow>
          bindR (ExtractPathForIndices leafIndices root) (\<lambda>extractedRoot.
            Inr (Some (t\<lparr>tr_root := Some extractedRoot\<rparr>))))"

text \<open>
  The checks on the leaf of an extracted path; \<open>Verify\<close> has already refused nil outputs on
  the path.
\<close>

definition check_vtxo_leaf :: "byte list \<Rightarrow> treeNode \<Rightarrow> tree_error option" where
  "check_vtxo_leaf expectedVTXOScript leaf =
     (case tn_outputs leaf of
        [Some vtxo, Some anchor] \<Rightarrow>
          if out_pkScript vtxo \<noteq> expectedVTXOScript then Some (TreeError ''VTXO script mismatch'')
          else if out_value anchor \<noteq> 0 then Some (TreeError ''anchor output should have value 0'')
          else None
      | [_, _] \<Rightarrow> Some NilPointer
      | _ \<Rightarrow> Some (TreeError ''leaf should have 2 outputs''))"

definition VerifyVTXOPath :: "treeLib \<Rightarrow> pubKey option \<Rightarrow> byte list \<Rightarrow> txTree \<Rightarrow> tree_error option" where
  "VerifyVTXOPath lib coSignerKey expectedVTXOScript t =
     (case coSignerKey of
        None \<Rightarrow> Some (TreeError ''cosigner key cannot be nil'')
      | Some key \<Rightarrow>
          if expectedVTXOScript = [] then Some (TreeError ''expected VTXO script cannot be empty'')
          else case ExtractTreeForCoSigners [Some key] t of
            Inl e \<Rightarrow> Some e
          | Inr None \<Rightarrow> Some (TreeError ''no path found for cosigner'')
          | Inr (Some extracted) \<Rightarrow>
              thenErr (Verify lib (Some extracted)) (thenErr (ValidateChildScripts lib (Some extracted))
                (case tr_root extracted of
                   None \<Rightarrow> Some NilPointer
                 | Some root \<Rightarrow>
                     (case GetLeafNodes root of
                        [leaf] \<Rightarrow>
                          thenErr (check_vtxo_leaf expectedVTXOScript leaf)
                            (firstErr (\<lambda>node. if ContainsCosigner (tn_coSigners node) key then None
                                              else Some (TreeError ''cosigner not found in node'')) (NodesIter root))
                      | _ \<Rightarrow> Some (TreeError ''expected exactly 1 leaf'')))))"

definition ValidatePath ::
  "treeLib \<Rightarrow> pubKey option \<Rightarrow> leafDescriptor \<Rightarrow> pubKey option \<Rightarrow> txTree option \<Rightarrow> tree_error + txTree" where
  "ValidatePath lib signingKey expectedLeaf operatorKey tree =
     (case tree of
        None \<Rightarrow> Inl (TreeError ''tree is nil'')
      | Some t \<Rightarrow>
          (case VerifyVTXOPath lib signingKey (lf_pkScript expectedLeaf) t of
             Some e \<Rightarrow> Inl (InNode ''VTXO path verification failed'' e)
           | None \<Rightarrow>
               (case ExtractTreeForCoSigners [signingKey] t of
                  Inl e \<Rightarrow> Inl e
                | Inr None \<Rightarrow> Inl NilPointer
                | Inr (Some clientTree) \<Rightarrow>
                    (case tr_root clientTree of
                       None \<Rightarrow> Inl NilPointer
                     | Some root \<Rightarrow>
                         (case GetLeafNodes root of
                            leaf # _ \<Rightarrow>
                              (case tn_outputs leaf of
                                 Some vtxoOutput # _ \<Rightarrow>
                                   if out_value vtxoOutput \<noteq> lf_amount expectedLeaf
                                   then Inl (TreeError ''VTXO output value does not match'')
                                   else (case operatorKey of
                                           None \<Rightarrow> Inl NilPointer
                                         | Some operator \<Rightarrow>
                                             if ContainsCosigner (tn_coSigners leaf) operator then Inr clientTree
                                             else Inl (TreeError ''leaf does not include operator key in co-signers''))
                               | _ \<Rightarrow> Inl NilPointer)
                          | [] \<Rightarrow> Inl NilPointer)))))"

text \<open>
  \<open>SubmitTreeSigs\<close> stores a signature in each node of the walk until one is missing: an
  error leaves the nodes visited before it updated.
\<close>

fun submit_children ::
  "(u32 \<times> treeNode \<times> treeNode \<times> tree_error option) list \<Rightarrow> (u32 \<times> treeNode) list \<times> tree_error option" where
  "submit_children [] = ([], None)"
| "submit_children ((i, old, new, e) # rs) =
     (case e of
        None \<Rightarrow> (let (l, e') = submit_children rs in ((i, new) # l, e'))
      | Some err \<Rightarrow> ((i, new) # map (\<lambda>(i, old, _). (i, old)) rs, Some err))"

fun submit_node :: "treeLib \<Rightarrow> (hash \<Rightarrow> byte list option) \<Rightarrow> treeNode \<Rightarrow> treeNode \<times> tree_error option" where
  "submit_node lib sigs (TreeNode inp outs cos chs amt sg fk) =
     (case TXID lib (TreeNode inp outs cos chs amt sg fk) of
        Inl e \<Rightarrow> (TreeNode inp outs cos chs amt sg fk, Some e)
      | Inr txid \<Rightarrow>
          (case sigs txid of
             None \<Rightarrow> (TreeNode inp outs cos chs amt sg fk, Some (TreeError ''signature not found for transaction''))
           | Some sig \<Rightarrow>
               (let (chs', err) = submit_children (sort_key fst (map (\<lambda>(i, c). (i, c, submit_node lib sigs c)) chs)) in
                (TreeNode inp outs cos chs' amt (Some sig) fk, err))))"

definition SubmitTreeSigs ::
  "treeLib \<Rightarrow> (hash \<Rightarrow> byte list option) \<Rightarrow> txTree \<Rightarrow> txTree \<times> tree_error option" where
  "SubmitTreeSigs lib sigs t =
     (case tr_root t of
        None \<Rightarrow> (t, Some NilPointer)
      | Some root \<Rightarrow> (let (root', e) = submit_node lib sigs root in (t\<lparr>tr_root := Some root'\<rparr>, e)))"

definition VerifySigned :: "treeLib \<Rightarrow> txTree \<Rightarrow> tree_error option" where
  "VerifySigned lib t =
     (case tr_root t of
        None \<Rightarrow> Some NilPointer
      | Some root \<Rightarrow>
          (case PrevOutputFetcher lib root (tr_batchOutput t) of
             Inl e \<Rightarrow> Some e
           | Inr fetcher \<Rightarrow> VerifySignedNode lib fetcher root))"

text \<open>The signatures come as a Go map, listed in the order the loop meets its entries.\<close>

fun parse_signatures :: "treeLib \<Rightarrow> (hash \<times> byte list) list \<Rightarrow> tree_error + (hash \<times> byte list) list" where
  "parse_signatures lib [] = Inr []"
| "parse_signatures lib ((txid, sigBytes) # rest) =
     bindR (treeLibR (tl_parseSignature lib sigBytes)) (\<lambda>sig.
       bindR (parse_signatures lib rest) (\<lambda>sigs. Inr ((txid, sig) # sigs)))"

definition ValidateAndSubmitSignatures ::
  "treeLib \<Rightarrow> (hash \<times> byte list) list \<Rightarrow> txTree \<Rightarrow> txTree \<times> tree_error option" where
  "ValidateAndSubmitSignatures lib signatures t =
     (if signatures = [] then (t, Some (TreeError ''no signatures provided''))
      else case parse_signatures lib signatures of
        Inl e \<Rightarrow> (t, Some e)
      | Inr sigMap \<Rightarrow>
          (case SubmitTreeSigs lib (map_of sigMap) t of
             (t', Some e) \<Rightarrow> (t', Some (InNode ''failed to submit tree signatures'' e))
           | (t', None) \<Rightarrow> (t', map_option (InNode ''tree signature verification failed'') (VerifySigned lib t'))))"

definition check_anchor :: "treeNode \<Rightarrow> tree_error option" where
  "check_anchor node =
     (if tn_outputs node = [] then Some (TreeError ''transaction has no outputs'')
      else case last (tn_outputs node) of
        None \<Rightarrow> Some NilPointer
      | Some anchorOutput \<Rightarrow>
          if out_value anchorOutput \<noteq> 0 then Some (TreeError ''anchor output has a value'')
          else if out_pkScript anchorOutput \<noteq> AnchorPkScript then Some (TreeError ''anchor output has invalid script'')
          else None)"

definition ValidateAnchors :: "txTree option \<Rightarrow> tree_error option" where
  "ValidateAnchors tree =
     (case tree of
        None \<Rightarrow> Some (TreeError ''tree is nil'')
      | Some t \<Rightarrow>
          (case tr_root t of
             None \<Rightarrow> Some NilPointer
           | Some root \<Rightarrow> ForEach check_anchor root))"

definition NumLeaves :: "txTree \<Rightarrow> tree_error + nat" where
  "NumLeaves t = (case tr_root t of None \<Rightarrow> Inl NilPointer | Some root \<Rightarrow> Inr (length (GetLeafNodes root)))"

section \<open>The index of transaction ids\<close>

record txidEntry =
  te_txid :: hash
  te_treeLevel :: nat
  te_outputIndex :: u32

lemma children_size: "sum_list (map (\<lambda>(i, c). size c) chs) < size (TreeNode inp outs cos chs amt sg fk)"
  by (induction chs) auto

function extract_loop ::
  "treeLib \<Rightarrow> (treeNode \<times> nat) queue \<Rightarrow> txidEntry list \<Rightarrow> tree_error + txidEntry list" where
  "extract_loop lib q entries =
     (case Dequeue q of
        (None, _) \<Rightarrow> Inr entries
      | (Some (node, level), q') \<Rightarrow>
          (case TXID lib node of
             Inl e \<Rightarrow> Inl e
           | Inr txid \<Rightarrow>
               extract_loop lib (fold (\<lambda>(_, child). Enqueue (child, level + 1)) (tn_children node) q')
                 (entries @ [\<lparr>te_txid = txid, te_treeLevel = level, te_outputIndex = op_index (tn_input node)\<rparr>])))"
  by pat_completeness auto

lemma items_enqueue_children:
  "items (fold (\<lambda>(_, child). Enqueue (child, level)) chs q) = items q @ map (\<lambda>(_, child). (child, level)) chs"
  by (induction chs arbitrary: q) (auto simp: Enqueue_def)

termination extract_loop
proof (relation "measure (\<lambda>(lib, q, entries). sum_list (map (\<lambda>(n, _). size n) (items q)))", simp, goal_cases)
  case (1 lib q entries d q' item node level txid)
  obtain inp outs cos chs amt sg fk where n: "node = TreeNode inp outs cos chs amt sg fk"
    by (cases node)
  have "items q = (node, level) # items q'"
    using 1 by (auto simp: Dequeue_def split: list.splits)
  moreover have "sum_list (map (\<lambda>(n, _). size n) (map (\<lambda>(_, child). (child, level + 1)) chs)) < size node"
    using children_size [of chs inp outs cos amt sg fk] by (simp add: n comp_def case_prod_unfold)
  ultimately show ?case
    by (simp add: items_enqueue_children n)
qed

definition ExtractTxids :: "treeLib \<Rightarrow> txTree option \<Rightarrow> tree_error + txidEntry list" where
  "ExtractTxids lib tree =
     (case tree of
        None \<Rightarrow> Inr []
      | Some t \<Rightarrow>
          (case tr_root t of
             None \<Rightarrow> Inr []
           | Some root \<Rightarrow> extract_loop lib (Enqueue (root, 0) NewQueue) []))"

end
