(* ===== verification/Tree_Build.thy ===== *)
theory Tree_Build
  imports Tree_Node
begin

text \<open>
  Building transaction trees (\<open>lib/tree/build.go\<close>, \<open>tree_structure.go\<close>,
  \<open>tree_materialize.go\<close>, \<open>materializer_btc.go\<close>, \<open>btc_tree_assembler.go\<close>) and the batch and
  connector outputs that fund them (\<open>batch.go\<close>). Pass one partitions the leaves and gives the
  shape with its cosigners and amounts, pass two fills in the transactions from the root down.
\<close>

section \<open>Partitions\<close>

text \<open>\<open>sort.SliceStable\<close>: the ordered permutation that keeps equal elements in their order.\<close>

fun insert_stable :: "('a \<Rightarrow> 'a \<Rightarrow> bool) \<Rightarrow> 'a \<Rightarrow> 'a list \<Rightarrow> 'a list" where
  "insert_stable lt x [] = [x]"
| "insert_stable lt x (y # ys) = (if lt y x then y # insert_stable lt x ys else x # y # ys)"

definition SliceStable :: "('a \<Rightarrow> 'a \<Rightarrow> bool) \<Rightarrow> 'a list \<Rightarrow> 'a list" where
  "SliceStable lt xs = foldr (insert_stable lt) xs []"

definition WeightByBtcAmount :: "leafDescriptor \<Rightarrow> i64" where
  "WeightByBtcAmount l = lf_amount l"

record weightedLeaf =
  wl_leaf :: leafDescriptor
  wl_weight :: i64
  wl_index :: nat

definition weigh_leaf :: "(leafDescriptor \<Rightarrow> i64) \<Rightarrow> nat \<Rightarrow> leafDescriptor \<Rightarrow> weightedLeaf" where
  "weigh_leaf weightFn i leaf =
     \<lparr>wl_leaf = leaf, wl_weight = (let w = weightFn leaf in if sint w < 0 then 0 else w), wl_index = i\<rparr>"

definition heavier :: "weightedLeaf \<Rightarrow> weightedLeaf \<Rightarrow> bool" where
  "heavier a b =
     (if wl_weight a = wl_weight b then wl_index a < wl_index b else sint (wl_weight a) > sint (wl_weight b))"

text \<open>The scan for the lightest group; the first of several lightest wins.\<close>

definition min_group :: "i64 list \<Rightarrow> nat" where
  "min_group groupWeights =
     fold (\<lambda>i minIdx. if sint (groupWeights ! i) < sint (groupWeights ! minIdx) then i else minIdx)
       [1..<length groupWeights] 0"

definition assign_leaf ::
  "weightedLeaf \<Rightarrow> leafDescriptor list list \<times> i64 list \<Rightarrow> leafDescriptor list list \<times> i64 list" where
  "assign_leaf wl s =
     (let (groups, groupWeights) = s; minIdx = min_group groupWeights in
      (groups[minIdx := groups ! minIdx @ [wl_leaf wl]],
       groupWeights[minIdx := groupWeights ! minIdx + wl_weight wl]))"

definition partitionLeavesByWeight ::
  "leafDescriptor list \<Rightarrow> nat \<Rightarrow> (leafDescriptor \<Rightarrow> i64) \<Rightarrow> leafDescriptor list list" where
  "partitionLeavesByWeight leaves radix weightFn =
     (let weighted = SliceStable heavier (map (\<lambda>(i, leaf). weigh_leaf weightFn i leaf) (enumerate 0 leaves));
          (groups, _) = fold assign_leaf weighted (replicate radix [], replicate radix 0) in
      filter (\<lambda>g. g \<noteq> []) groups)"

text \<open>
  The cyclic search of \<open>partitionLeavesByCount\<close> for a group with capacity. A group with
  capacity exists while leaves remain, so looking at each group once is enough
  (\<open>next_group_found\<close>).
\<close>

fun next_group :: "nat \<Rightarrow> nat list \<Rightarrow> nat \<Rightarrow> nat \<Rightarrow> nat" where
  "next_group radix caps idx 0 = idx"
| "next_group radix caps idx (Suc n) =
     (if caps ! idx = 0 then next_group radix caps ((idx + 1) mod radix) n else idx)"

fun round_robin ::
  "nat \<Rightarrow> leafDescriptor list \<Rightarrow> nat \<Rightarrow> nat list \<Rightarrow> leafDescriptor list list \<Rightarrow> leafDescriptor list list" where
  "round_robin radix [] idx caps groups = groups"
| "round_robin radix (leaf # leaves) idx caps groups =
     (let i = next_group radix caps idx radix in
      round_robin radix leaves ((i + 1) mod radix) (caps[i := caps ! i - 1]) (groups[i := groups ! i @ [leaf]]))"

definition partitionLeavesByCount :: "leafDescriptor list \<Rightarrow> nat \<Rightarrow> leafDescriptor list list" where
  "partitionLeavesByCount leaves radix =
     (let M = length leaves in
      if M \<le> radix then map (\<lambda>leaf. [leaf]) leaves
      else
        let base = M div radix; extra = M mod radix;
            sizes = map (\<lambda>i. if i < extra then base + 1 else base) [0..<radix];
            groups = round_robin radix leaves 0 sizes (replicate radix []);
            nonEmpty = filter (\<lambda>g. g \<noteq> []) groups in
        if length nonEmpty \<le> 1 \<and> M > 1
        then [take (M div 2) leaves, drop (M div 2) leaves]
        else nonEmpty)"

definition partitionLeaves ::
  "leafDescriptor list \<Rightarrow> nat \<Rightarrow> (leafDescriptor \<Rightarrow> i64) option \<Rightarrow> leafDescriptor list list" where
  "partitionLeaves leaves radix weightFn =
     (case weightFn of
        None \<Rightarrow> partitionLeavesByCount leaves radix
      | Some f \<Rightarrow> partitionLeavesByWeight leaves radix f)"

section \<open>Pass one: the structure\<close>

text \<open>
  A node of the structure before it has transactions. The entry of \<open>LeafScriptMap\<close> keyed by
  a leaf is carried by the leaf; an empty script stands for a missing entry.
\<close>

datatype structNode = StructNode
  (st_coSigners: "pubKey list")
  (st_children: "(u32 \<times> structNode) list")
  (st_amount: i64)
  (st_script: "byte list")

lemma struct_child_size [termination_simp]:
  "(i, c) \<in> set chs \<Longrightarrow> size c < Suc (size_list (size_prod (\<lambda>_. 0) size) chs)" for c :: structNode
  by (induction chs) auto

definition buildLeafStructure :: "treeLib \<Rightarrow> pubKey \<Rightarrow> leafDescriptor \<Rightarrow> tree_error + structNode" where
  "buildLeafStructure lib operatorKey leaf =
     (case lf_coSignerKey leaf of
        None \<Rightarrow> Inl (TreeError ''leaf cosigner key cannot be nil'')
      | Some key \<Rightarrow>
          Inr (StructNode (UniqueCosigners lib [operatorKey, key]) [] (lf_amount leaf) (lf_pkScript leaf)))"

text \<open>The loop over the groups: the first group that fails or does not return decides.\<close>

fun build_groups :: "(u32 \<times> (tree_error + structNode) option) list \<Rightarrow> (tree_error + (u32 \<times> structNode) list) option" where
  "build_groups [] = Some (Inr [])"
| "build_groups ((i, r) # rs) =
     (case r of
        None \<Rightarrow> None
      | Some (Inl e) \<Rightarrow> Some (Inl e)
      | Some (Inr child) \<Rightarrow> map_option (\<lambda>m. bindR m (\<lambda>l. Inr ((i, child) # l))) (build_groups rs))"

definition branch_structure :: "treeLib \<Rightarrow> pubKey \<Rightarrow> (u32 \<times> structNode) list \<Rightarrow> structNode" where
  "branch_structure lib operatorKey children =
     StructNode (UniqueCosigners lib (operatorKey # concat (map (\<lambda>(_, child). st_coSigners child) children)))
       children (sum_list (map (\<lambda>(_, child). st_amount child) children)) []"

text \<open>
  The recursion need not end (see \<open>BuildStructure_returns_iff\<close>), so it takes fuel;
  \<open>None\<close> is running out of it.
\<close>

fun buildStructureRecursive ::
  "treeLib \<Rightarrow> pubKey \<Rightarrow> nat \<Rightarrow> (leafDescriptor \<Rightarrow> i64) option \<Rightarrow> nat \<Rightarrow> leafDescriptor list \<Rightarrow> (tree_error + structNode) option" where
  "buildStructureRecursive lib operatorKey radix weightFn 0 leaves = None"
| "buildStructureRecursive lib operatorKey radix weightFn (Suc fuel) leaves =
     (if length leaves = 1 then Some (buildLeafStructure lib operatorKey (hd leaves))
      else
        let groups = filter (\<lambda>(_, g). g \<noteq> []) (enumerate 0 (partitionLeaves leaves radix weightFn)) in
        map_option (\<lambda>m. bindR m (\<lambda>children. Inr (branch_structure lib operatorKey children)))
          (build_groups (map (\<lambda>(i, group).
             (of_nat i, buildStructureRecursive lib operatorKey radix weightFn fuel group)) groups)))"

definition BuildStructure ::
  "treeLib \<Rightarrow> pubKey \<Rightarrow> nat \<Rightarrow> (leafDescriptor \<Rightarrow> i64) option \<Rightarrow> nat \<Rightarrow> leafDescriptor list \<Rightarrow> (tree_error + structNode option) option" where
  "BuildStructure lib operatorKey radix weightFn fuel leaves =
     (if leaves = [] then Some (Inr None)
      else
        let f = (case weightFn of None \<Rightarrow> WeightByBtcAmount | Some f \<Rightarrow> f) in
        map_option (\<lambda>m. bindR m (\<lambda>root. Inr (Some root)))
          (buildStructureRecursive lib operatorKey radix (Some f) fuel leaves))"

section \<open>Pass two: the transactions\<close>

fun branch_outputs :: "treeLib \<Rightarrow> byte list \<Rightarrow> structNode list \<Rightarrow> tree_error + txOut option list" where
  "branch_outputs lib sweepRoot [] = Inr [Some AnchorOutput]"
| "branch_outputs lib sweepRoot (child # children) =
     bindR (ComputeFinalKey lib (st_coSigners child) sweepRoot) (\<lambda>childKey.
       bindR (treeLibR (al_payToTaproot (tl_ark lib) childKey)) (\<lambda>pkScript.
         bindR (branch_outputs lib sweepRoot children) (\<lambda>outs.
           Inr (Some \<lparr>out_value = st_amount child, out_pkScript = pkScript\<rparr> # outs))))"

fun collect_children :: "(u32 \<times> (tree_error + 'a)) list \<Rightarrow> tree_error + (u32 \<times> 'a) list" where
  "collect_children [] = Inr []"
| "collect_children ((i, r) # rs) = bindR r (\<lambda>c. bindR (collect_children rs) (\<lambda>l. Inr ((i, c) # l)))"

definition materializeLeaf :: "treeLib \<Rightarrow> byte list \<Rightarrow> pubKey list \<Rightarrow> i64 \<Rightarrow> byte list \<Rightarrow> outPoint \<Rightarrow> tree_error + treeNode" where
  "materializeLeaf lib sweepRoot cosigners amount leafPkScript input =
     bindR (ComputeFinalKey lib cosigners sweepRoot) (\<lambda>finalKey.
       if leafPkScript = [] then Inl (TreeError ''leaf node missing pkscript'')
       else Inr (TreeNode input [Some \<lparr>out_value = amount, out_pkScript = leafPkScript\<rparr>, Some AnchorOutput]
                   cosigners [] amount None (Some finalKey)))"

text \<open>
  \<open>Materialize\<close> with the Bitcoin materializer. The explicit stack visits the nodes depth
  first, first child first, and what a node becomes depends on the node and its input alone,
  so the walk is a recursion. The input of a child is the output at its position among
  the sorted indices.
\<close>

fun Materialize :: "treeLib \<Rightarrow> byte list \<Rightarrow> structNode \<Rightarrow> outPoint \<Rightarrow> tree_error + treeNode" where
  "Materialize lib sweepRoot (StructNode cosigners chs amount script) input =
     (if chs = [] then materializeLeaf lib sweepRoot cosigners amount script input
      else
        bindR (ComputeFinalKey lib cosigners sweepRoot) (\<lambda>finalKey.
          bindR (branch_outputs lib sweepRoot (in_order chs)) (\<lambda>outs.
            bindR (TXID lib (TreeNode input outs cosigners [] amount None (Some finalKey))) (\<lambda>txHash.
              bindR (collect_children (sort_key fst (map (\<lambda>(i, c). (i,
                  Materialize lib sweepRoot c
                    \<lparr>op_hash = txHash, op_index = of_nat (length (filter (\<lambda>(j, _). j < i) chs))\<rparr>)) chs))) (\<lambda>children.
                Inr (TreeNode input outs cosigners children amount None (Some finalKey)))))))"

section \<open>The assembler\<close>

record treeConfig =
  tc_operatorKey :: "pubKey option"
  tc_sweepTapscriptRoot :: "byte list"
  tc_radix :: int
  tc_weightFn :: "(leafDescriptor \<Rightarrow> i64) option"

definition DefaultRadix :: int where
  "DefaultRadix = 2"

text \<open>\<open>TreeAssembler.BuildTree\<close>; \<open>None\<close> is running out of fuel.\<close>

definition AssembleTree ::
  "treeLib \<Rightarrow> nat \<Rightarrow> treeConfig \<Rightarrow> outPoint \<Rightarrow> txOut option \<Rightarrow> leafDescriptor list \<Rightarrow> (tree_error + txTree) option" where
  "AssembleTree lib fuel cfg rootInput rootOutput leaves =
     (if leaves = [] then Some (Inl (TreeError ''no leaves supplied''))
      else case rootOutput of
        None \<Rightarrow> Some (Inl (TreeError ''root output cannot be nil''))
      | Some out \<Rightarrow>
          (case tc_operatorKey cfg of
             None \<Rightarrow> Some (Inl (TreeError ''operator key cannot be nil''))
           | Some operatorKey \<Rightarrow>
               if tc_radix cfg < DefaultRadix \<and> tc_radix cfg \<noteq> 0
               then Some (Inl (TreeError ''radix too small''))
               else
                 let radix = (if tc_radix cfg = 0 then DefaultRadix else tc_radix cfg);
                     weightFn = (case tc_weightFn cfg of None \<Rightarrow> WeightByBtcAmount | Some f \<Rightarrow> f) in
                 map_option (\<lambda>m. bindR m (\<lambda>result.
                   case result of
                     None \<Rightarrow> Inl NilPointer
                   | Some root \<Rightarrow>
                       if st_amount root \<noteq> out_value out
                       then Inl (TreeError ''leaf amounts sum must equal the output value'')
                       else bindR (Materialize lib (tc_sweepTapscriptRoot cfg) root rootInput) (\<lambda>rootNode.
                         Inr \<lparr>tr_root = Some rootNode, tr_batchOutpoint = rootInput, tr_batchOutput = Some out,
                              tr_sweepTapscriptRoot = tc_sweepTapscriptRoot cfg, tr_sweepKey = None, tr_sweepDelay = 0\<rparr>)))
                   (BuildStructure lib operatorKey (nat radix) (Some weightFn) fuel leaves)))"

text \<open>\<open>NewTree\<close> and \<open>NewTreeWithConfig\<close>.\<close>

definition NewTreeWithConfig ::
  "treeLib \<Rightarrow> nat \<Rightarrow> outPoint \<Rightarrow> txOut option \<Rightarrow> leafDescriptor list \<Rightarrow> pubKey option \<Rightarrow> byte list \<Rightarrow> int \<Rightarrow>
    (leafDescriptor \<Rightarrow> i64) option \<Rightarrow> (tree_error + txTree) option" where
  "NewTreeWithConfig lib fuel rootOutpoint rootOutput leaves operatorKey sweepTapscriptRoot radix weightFunc =
     (if rootOutput = None then Some (Inl (TreeError ''root output cannot be nil''))
      else if operatorKey = None then Some (Inl (TreeError ''operator key cannot be nil''))
      else if leaves = [] then Some (Inl (TreeError ''at least one leaf required''))
      else if radix < 2 then Some (Inl (TreeError ''radix must be at least 2''))
      else AssembleTree lib fuel
        \<lparr>tc_operatorKey = operatorKey, tc_sweepTapscriptRoot = sweepTapscriptRoot, tc_radix = radix,
         tc_weightFn = weightFunc\<rparr> rootOutpoint rootOutput leaves)"

definition NewTree ::
  "treeLib \<Rightarrow> nat \<Rightarrow> outPoint \<Rightarrow> txOut option \<Rightarrow> leafDescriptor list \<Rightarrow> pubKey option \<Rightarrow> byte list \<Rightarrow> int \<Rightarrow>
    (tree_error + txTree) option" where
  "NewTree lib fuel rootOutpoint rootOutput leaves operatorKey sweepTapscriptRoot radix =
     NewTreeWithConfig lib fuel rootOutpoint rootOutput leaves operatorKey sweepTapscriptRoot radix None"

section \<open>Batches and connectors\<close>

record vtxoDescriptor =
  vd_policyTemplate :: "byte list"
  vd_pkScript :: "byte list"
  vd_amount :: i64
  vd_coSignerKey :: "pubKey option"

record connectorDescriptor =
  cd_pkScript :: "byte list"
  cd_numLeaves :: int
  cd_amount :: i64

text \<open>Validation has refused a nil key before a descriptor becomes a leaf.\<close>

definition ToLeafDescriptor :: "vtxoDescriptor \<Rightarrow> leafDescriptor" where
  "ToLeafDescriptor v = \<lparr>lf_pkScript = vd_pkScript v, lf_amount = vd_amount v, lf_coSignerKey = vd_coSignerKey v\<rparr>"

fun validate_descriptors :: "treeLib \<Rightarrow> byte list set \<Rightarrow> nat \<Rightarrow> vtxoDescriptor list \<Rightarrow> tree_error option" where
  "validate_descriptors lib seen i [] = None"
| "validate_descriptors lib seen i (vtxo # vtxos) =
     (if sint (vd_amount vtxo) \<le> 0 then Some (AtOutput ''VTXO has invalid amount'' i)
      else if vd_pkScript vtxo = [] then Some (AtOutput ''VTXO has empty PkScript'' i)
      else if \<not> tl_isPayToTaproot lib (vd_pkScript vtxo) then Some (AtOutput ''VTXO has invalid taproot script'' i)
      else case vd_coSignerKey vtxo of
        None \<Rightarrow> Some (AtOutput ''VTXO has nil co-signer key'' i)
      | Some key \<Rightarrow>
          (let keyStr = al_xOnly (tl_ark lib) key in
           if keyStr \<in> seen then Some (AtOutput ''VTXO has duplicate co-signer key'' i)
           else validate_descriptors lib (insert keyStr seen) (Suc i) vtxos))"

definition ValidateVTXODescriptors :: "treeLib \<Rightarrow> vtxoDescriptor list \<Rightarrow> tree_error option" where
  "ValidateVTXODescriptors lib vtxos =
     (if vtxos = [] then Some (TreeError ''no VTXO descriptors provided'')
      else validate_descriptors lib {} 0 vtxos)"

definition ValidateConnectorDescriptor :: "treeLib \<Rightarrow> connectorDescriptor \<Rightarrow> tree_error option" where
  "ValidateConnectorDescriptor lib conn =
     (if cd_numLeaves conn \<le> 0 then Some (TreeError ''connector descriptor has invalid NumLeaves'')
      else if sint (cd_amount conn) \<le> 0 then Some (TreeError ''connector descriptor has invalid amount'')
      else if cd_pkScript conn = [] then Some (TreeError ''connector descriptor has empty PkScript'')
      else if \<not> tl_isPayToTaproot lib (cd_pkScript conn)
      then Some (TreeError ''connector descriptor has invalid taproot script'')
      else None)"

definition ToLeafDescriptors :: "pubKey option \<Rightarrow> connectorDescriptor \<Rightarrow> leafDescriptor list" where
  "ToLeafDescriptors operatorKey c =
     replicate (nat (cd_numLeaves c))
       \<lparr>lf_pkScript = cd_pkScript c, lf_amount = cd_amount c, lf_coSignerKey = operatorKey\<rparr>"

text \<open>The operator's timeout leaf (\<open>lib/arkscript/spend_helpers.go\<close>) and its hash as bytes.\<close>

definition UnilateralCSVTimeoutTapLeaf :: "arkLib \<Rightarrow> pubKey option \<Rightarrow> u32 \<Rightarrow> ark_error + policyLeaf" where
  "UnilateralCSVTimeoutTapLeaf lib timeoutKey delay =
     bindR (Script lib (CSV (al_lockTimeToSequence lib delay) (Some (Multisig [timeoutKey])))) (\<lambda>script.
       Inr (PolicyLeaf BaseLeafVersion script))"

definition hashBytes :: "hash \<Rightarrow> byte list" where
  "hashBytes h = map (\<lambda>i. ucast (drop_bit (8 * (31 - i)) h)) [0..<32]"

definition sweepTapData :: "treeLib \<Rightarrow> pubKey option \<Rightarrow> u32 \<Rightarrow> tree_error + policyLeaf \<times> byte list" where
  "sweepTapData lib sweepKey sweepDelay =
     bindR (wrapR (\<lambda>_. TreeError ''failed to create sweep tap leaf'')
              (UnilateralCSVTimeoutTapLeaf (tl_ark lib) sweepKey sweepDelay)) (\<lambda>leaf.
       Inr (leaf, hashBytes (TapHash (tl_ark lib) leaf)))"

definition leaf_before :: "leafDescriptor \<Rightarrow> leafDescriptor \<Rightarrow> bool" where
  "leaf_before a b =
     (if lf_amount a \<noteq> lf_amount b then sint (lf_amount a) > sint (lf_amount b)
      else bytesCompare (lf_pkScript a) (lf_pkScript b) < 0)"

definition BuildVTXOTree ::
  "treeLib \<Rightarrow> nat \<Rightarrow> outPoint \<Rightarrow> txOut option \<Rightarrow> vtxoDescriptor list \<Rightarrow> pubKey option \<Rightarrow> pubKey option \<Rightarrow> u32 \<Rightarrow> int \<Rightarrow>
    (tree_error + txTree) option" where
  "BuildVTXOTree lib fuel batchOutpoint batchOutput vtxos operatorCoSignKey sweepKey sweepDelay radix =
     (case ValidateVTXODescriptors lib vtxos of
        Some e \<Rightarrow> Some (Inl (InNode ''invalid VTXO descriptors'' e))
      | None \<Rightarrow>
          if radix < 2 then Some (Inl (TreeError ''radix must be at least 2''))
          else if operatorCoSignKey = None then Some (Inl (TreeError ''operator co-sign key cannot be nil''))
          else if sweepKey = None then Some (Inl (TreeError ''sweep key cannot be nil''))
          else
            let leaves = SliceStable leaf_before (map ToLeafDescriptor vtxos) in
            case sweepTapData lib sweepKey sweepDelay of
              Inl e \<Rightarrow> Some (Inl e)
            | Inr (_, sweepTapRoot) \<Rightarrow>
                AssembleTree lib fuel
                  \<lparr>tc_operatorKey = operatorCoSignKey, tc_sweepTapscriptRoot = sweepTapRoot, tc_radix = radix,
                   tc_weightFn = None\<rparr> batchOutpoint batchOutput leaves)"

definition BuildConnectorTree ::
  "treeLib \<Rightarrow> nat \<Rightarrow> outPoint \<Rightarrow> txOut option \<Rightarrow> connectorDescriptor \<Rightarrow> pubKey option \<Rightarrow> int \<Rightarrow>
    (tree_error + txTree) option" where
  "BuildConnectorTree lib fuel batchOutpoint batchOutput connector operatorKey radix =
     (case ValidateConnectorDescriptor lib connector of
        Some e \<Rightarrow> Some (Inl (InNode ''invalid connector descriptor'' e))
      | None \<Rightarrow>
          if radix < 2 then Some (Inl (TreeError ''radix must be at least 2''))
          else if operatorKey = None then Some (Inl (TreeError ''operator key cannot be nil''))
          else AssembleTree lib fuel
            \<lparr>tc_operatorKey = operatorKey, tc_sweepTapscriptRoot = [], tc_radix = radix, tc_weightFn = None\<rparr>
            batchOutpoint batchOutput (ToLeafDescriptors operatorKey connector))"

record batchOutputSpec =
  bo_output :: txOut
  bo_internalKey :: pubKey
  bo_sweepLeaf :: policyLeaf

definition max_int64 :: i64 where
  "max_int64 = 0x7fffffffffffffff"

fun batch_loop ::
  "treeLib \<Rightarrow> byte list \<Rightarrow> vtxoDescriptor list \<Rightarrow> nat \<Rightarrow> byte list set \<Rightarrow> pubKey list \<Rightarrow> i64 \<Rightarrow> tree_error + pubKey list \<times> i64" where
  "batch_loop lib operatorKeyStr [] i seen signers sofar = Inr (signers, sofar)"
| "batch_loop lib operatorKeyStr (vtxo # vtxos) i seen signers sofar =
     (if sint (vd_amount vtxo) < 0 then Inl (TreeError ''vtxo amount cannot be negative'')
      else case vd_coSignerKey vtxo of
        None \<Rightarrow> Inl (AtOutput ''VTXO has nil co-signer key'' i)
      | Some key \<Rightarrow>
          if sint sofar > sint (max_int64 - vd_amount vtxo) then Inl (TreeError ''total amount exceeds int64 range'')
          else
            let keyStr = al_xOnly (tl_ark lib) key in
            if keyStr = operatorKeyStr then Inl (AtOutput ''VTXO co-signer key matches operator key'' i)
            else if keyStr \<in> seen
            then batch_loop lib operatorKeyStr vtxos (Suc i) seen signers (sofar + vd_amount vtxo)
            else batch_loop lib operatorKeyStr vtxos (Suc i) (insert keyStr seen) (signers @ [key]) (sofar + vd_amount vtxo))"

definition BuildBatchOutputSpec ::
  "treeLib \<Rightarrow> vtxoDescriptor list \<Rightarrow> pubKey option \<Rightarrow> pubKey option \<Rightarrow> u32 \<Rightarrow> tree_error + batchOutputSpec" where
  "BuildBatchOutputSpec lib vtxos operatorMuSigKey sweepKey sweepDelay =
     (if vtxos = [] then Inl (TreeError ''batch output requires at least one VTXO'')
      else case operatorMuSigKey of
        None \<Rightarrow> Inl (TreeError ''operator musig key cannot be nil'')
      | Some operator \<Rightarrow>
          if sweepKey = None then Inl (TreeError ''sweep key cannot be nil'')
          else
            bindR (sweepTapData lib sweepKey sweepDelay) (\<lambda>(sweepTapLeaf, sweepTapRoot).
              let operatorKeyStr = al_xOnly (tl_ark lib) operator in
              bindR (batch_loop lib operatorKeyStr vtxos 0 {operatorKeyStr} [operator] 0) (\<lambda>(signers, totalAmount).
                bindR (treeLibR (tl_aggregate lib signers sweepTapRoot)) (\<lambda>(preTweakedKey, finalKey).
                  bindR (treeLibR (al_payToTaproot (tl_ark lib) finalKey)) (\<lambda>pkScript.
                    Inr \<lparr>bo_output = \<lparr>out_value = totalAmount, out_pkScript = pkScript\<rparr>,
                         bo_internalKey = preTweakedKey, bo_sweepLeaf = sweepTapLeaf\<rparr>)))))"

definition BuildBatchOutput ::
  "treeLib \<Rightarrow> vtxoDescriptor list \<Rightarrow> pubKey option \<Rightarrow> pubKey option \<Rightarrow> u32 \<Rightarrow> tree_error + txOut" where
  "BuildBatchOutput lib vtxos operatorMuSigKey sweepKey sweepDelay =
     bindR (BuildBatchOutputSpec lib vtxos operatorMuSigKey sweepKey sweepDelay) (\<lambda>spec. Inr (bo_output spec))"

text \<open>
  \<open>BuildConnectorOutput\<close>; \<open>payToAddr\<close> is \<open>txscript.PayToAddrScript\<close> of the connector
  address. The product wraps as int64.
\<close>

definition BuildConnectorOutput ::
  "('addr \<Rightarrow> string + byte list) \<Rightarrow> int \<Rightarrow> i64 \<Rightarrow> 'addr option \<Rightarrow> tree_error + txOut" where
  "BuildConnectorOutput payToAddr numConnectors dustAmount connectorAddr =
     (if numConnectors = 0 then Inl (TreeError ''num connectors must be > 0'')
      else if sint dustAmount \<le> 0 then Inl (TreeError ''dust amount must be > 0'')
      else case connectorAddr of
        None \<Rightarrow> Inl (TreeError ''connector address cannot be nil'')
      | Some addr \<Rightarrow>
          bindR (treeLibR (payToAddr addr)) (\<lambda>pkScript.
            Inr \<lparr>out_value = dustAmount * of_int numConnectors, out_pkScript = pkScript\<rparr>))"

end
