(* ===== verification/Tree_Partition.thy ===== *)
theory Tree_Partition
  imports Tree_Build
begin

text \<open>
  The two partitions of the tree builder, as providers of one interface (locale
  \<open>leaf_partition\<close>): the groups are a permutation of the leaves, none is empty, there are at
  most radix of them, and, where the leaves can be split, at least two.
\<close>

section \<open>Stable sorting\<close>

lemma mset_insert_stable [simp]: "mset (insert_stable lt x xs) = add_mset x (mset xs)"
  by (induction xs) auto

lemma mset_SliceStable [simp]: "mset (SliceStable lt xs) = mset xs"
  unfolding SliceStable_def by (induction xs) auto

lemma set_SliceStable [simp]: "set (SliceStable lt xs) = set xs"
  by (metis mset_SliceStable set_mset_mset)

lemma length_SliceStable [simp]: "length (SliceStable lt xs) = length xs"
  by (metis mset_SliceStable size_mset)

lemma SliceStable_sorted:
  assumes "\<And>x y. lt y x \<Longrightarrow> P y x" and "\<And>x y. \<not> lt y x \<Longrightarrow> P x y" and "\<And>x y z. P x y \<Longrightarrow> P y z \<Longrightarrow> P x z"
  shows "sorted_wrt P (SliceStable lt xs)"
proof -
  have mem: "set (insert_stable lt x ys) = insert x (set ys)" for x ys
    by (induction ys) auto
  have "sorted_wrt P ys \<Longrightarrow> sorted_wrt P (insert_stable lt x ys)" for x ys
    by (induction ys) (auto simp: mem assms(1,2) intro: assms(3) [OF assms(2)])
  then show ?thesis
    unfolding SliceStable_def by (induction xs) auto
qed

section \<open>Partitions\<close>

text \<open>
  What the recursion over the groups needs of a partition: the groups are made of the leaves,
  none is empty, there are at most \<open>fanout\<close> of them, and on inputs that can be split there are
  at least two, which can be split again.
\<close>

locale leaf_partition =
  fixes part :: "'l list \<Rightarrow> 'l list list" and splits :: "'l list \<Rightarrow> bool" and fanout :: nat
  assumes perm: "mset (concat (part leaves)) = mset leaves"
    and nonempty: "[] \<notin> set (part leaves)"
    and bounded: "length (part leaves) \<le> fanout"
    and progress: "splits leaves \<Longrightarrow> 2 \<le> length leaves \<Longrightarrow> 2 \<le> length (part leaves)"
    and hereditary: "splits leaves \<Longrightarrow> g \<in> set (part leaves) \<Longrightarrow> splits g"
begin

lemma groups_mset: "g \<in> set (part leaves) \<Longrightarrow> mset g \<subseteq># mset leaves"
  unfolding perm [of leaves, symmetric]
  by (induction "part leaves") (metis concat.simps(2) in_set_conv_decomp concat_append mset_append mset_subset_eq_add_left
      mset_subset_eq_add_right subset_mset.order_trans empty_iff list.set(1))+

lemma group_length: "g \<in> set (part leaves) \<Longrightarrow> length g \<le> length leaves"
  using groups_mset size_mset_mono by fastforce

lemma group_smaller:
  assumes "splits leaves" and "2 \<le> length leaves" and "g \<in> set (part leaves)"
  shows "length g < length leaves"
proof -
  obtain as bs where part: "part leaves = as @ g # bs"
    using assms(3) by (auto simp: in_set_conv_decomp)
  have "as @ bs \<noteq> []"
    using progress [OF assms(1,2)] part by auto
  then obtain h where "h \<in> set (as @ bs)"
    by (meson last_in_set)
  then have "h \<noteq> []" "h \<in> set (as @ bs)"
    using nonempty [of leaves] part by auto
  then have "0 < length (concat (as @ bs))"
    by auto
  moreover have "length leaves = length (concat (as @ bs)) + length g"
    using arg_cong [OF perm [of leaves], of size] part by simp
  ultimately show ?thesis by simp
qed

lemma part_ne: "leaves \<noteq> [] \<Longrightarrow> part leaves \<noteq> []"
  using perm [of leaves] by auto

end

subsection \<open>By weight\<close>

text \<open>The leaves whose weight the code counts as zero.\<close>

definition weightless :: "(leafDescriptor \<Rightarrow> i64) \<Rightarrow> leafDescriptor list \<Rightarrow> leafDescriptor list" where
  "weightless f leaves = filter (\<lambda>l. sint (f l) \<le> 0) leaves"

lemma min_group_bound: "gw \<noteq> [] \<Longrightarrow> min_group gw < length gw"
proof -
  assume ne: "gw \<noteq> []"
  have "m < length gw \<Longrightarrow> set is \<subseteq> {..<length gw} \<Longrightarrow>
      fold (\<lambda>i minIdx. if sint (gw ! i) < sint (gw ! minIdx) then i else minIdx) is m < length gw" for "is" m
    by (induction "is" arbitrary: m) auto
  moreover have "set [1..<length gw] \<subseteq> {..<length gw}"
    by auto
  ultimately show ?thesis
    unfolding min_group_def using ne by blast
qed

lemma min_group_le:
  assumes "i < length gw"
  shows "sint (gw ! min_group gw) \<le> sint (gw ! i)"
proof -
  have "sint (gw ! fold (\<lambda>i minIdx. if sint (gw ! i) < sint (gw ! minIdx) then i else minIdx) is m) \<le> sint (gw ! j)"
    if "j = m \<or> j \<in> set is" for "is" m j
    using that
  proof (induction "is" arbitrary: m j)
    case (Cons x xs)
    have "sint (gw ! fold (\<lambda>i minIdx. if sint (gw ! i) < sint (gw ! minIdx) then i else minIdx) (x # xs) m) \<le> sint (gw ! x)"
      "sint (gw ! fold (\<lambda>i minIdx. if sint (gw ! i) < sint (gw ! minIdx) then i else minIdx) (x # xs) m) \<le> sint (gw ! m)"
      using Cons(1) [of x x] Cons(1) [of m m] by (auto simp: not_less intro: order_trans)
    then show ?case
      using Cons by auto
  qed simp
  moreover have "i = 0 \<or> i \<in> set [1..<length gw]"
    using assms by auto
  ultimately show ?thesis
    unfolding min_group_def by blast
qed

lemma mset_concat_update:
  "i < length xs \<Longrightarrow> mset (concat (xs[i := xs ! i @ ys])) = mset (concat xs) + mset ys"
proof -
  assume i: "i < length xs"
  have "mset (concat (take i xs @ xs ! i # drop (Suc i) xs)) = mset (concat xs)"
    using id_take_nth_drop [OF i] by simp
  then show ?thesis
    using i by (simp add: upd_conv_take_nth_drop)
qed

text \<open>The state of the greedy assignment: as many weights as groups.\<close>

definition balanced_state :: "nat \<Rightarrow> 'a list \<times> 'b list \<Rightarrow> bool" where
  "balanced_state r s \<longleftrightarrow> length (fst s) = r \<and> length (snd s) = r"

lemma assign_leaf_step:
  assumes "balanced_state r s" and "0 < r"
  shows "balanced_state r (assign_leaf wl s)"
    and "mset (concat (fst (assign_leaf wl s))) = add_mset (wl_leaf wl) (mset (concat (fst s)))"
    and "i < r \<Longrightarrow> fst s ! i \<noteq> [] \<Longrightarrow> fst (assign_leaf wl s) ! i \<noteq> []"
proof -
  obtain groups gw where s: "s = (groups, gw)" by fastforce
  have "min_group gw < length groups"
    using assms min_group_bound [of gw] by (cases gw) (auto simp: balanced_state_def s)
  then show "balanced_state r (assign_leaf wl s)"
    "mset (concat (fst (assign_leaf wl s))) = add_mset (wl_leaf wl) (mset (concat (fst s)))"
    "i < r \<Longrightarrow> fst s ! i \<noteq> [] \<Longrightarrow> fst (assign_leaf wl s) ! i \<noteq> []"
    using assms by (auto simp: s assign_leaf_def balanced_state_def mset_concat_update nth_list_update Let_def)
qed

lemma assign_leaves:
  assumes "balanced_state r s" and "0 < r"
  shows "balanced_state r (fold assign_leaf ws s)"
    and "mset (concat (fst (fold assign_leaf ws s))) = mset (concat (fst s)) + mset (map wl_leaf ws)"
    and "i < r \<Longrightarrow> fst s ! i \<noteq> [] \<Longrightarrow> fst (fold assign_leaf ws s) ! i \<noteq> []"
proof -
  have "balanced_state r (fold assign_leaf ws s) \<and>
      mset (concat (fst (fold assign_leaf ws s))) = mset (concat (fst s)) + mset (map wl_leaf ws) \<and>
      (\<forall>i < r. fst s ! i \<noteq> [] \<longrightarrow> fst (fold assign_leaf ws s) ! i \<noteq> [])"
    using assms(1)
  proof (induction ws arbitrary: s)
    case (Cons w ws)
    show ?case
      using Cons(1) [OF assign_leaf_step(1) [OF Cons(2) assms(2)]] assign_leaf_step [OF Cons(2) assms(2), where wl = w]
      by (auto simp: add_mset_commute)
  qed simp
  then show "balanced_state r (fold assign_leaf ws s)"
    "mset (concat (fst (fold assign_leaf ws s))) = mset (concat (fst s)) + mset (map wl_leaf ws)"
    "i < r \<Longrightarrow> fst s ! i \<noteq> [] \<Longrightarrow> fst (fold assign_leaf ws s) ! i \<noteq> []"
    by auto
qed

text \<open>Leaves of no weight all go to the group that is lightest when the first one is assigned.\<close>

lemma assign_weightless:
  assumes "\<forall>w \<in> set ws. wl_weight w = 0" and "balanced_state r (groups, gw)" and "0 < r"
  shows "fold assign_leaf ws (groups, gw) =
     (groups[min_group gw := groups ! min_group gw @ map wl_leaf ws], gw)"
  using assms
proof (induction ws arbitrary: groups)
  case (Cons w ws)
  have m: "min_group gw < length groups"
    using Cons(3,4) min_group_bound [of gw] by (cases gw) (auto simp: balanced_state_def)
  have "assign_leaf w (groups, gw) = (groups[min_group gw := groups ! min_group gw @ [wl_leaf w]], gw)"
    using Cons(2) by (simp add: assign_leaf_def Let_def)
  then show ?case
    using Cons(1) [of "groups[min_group gw := groups ! min_group gw @ [wl_leaf w]]"] Cons(2,3,4) m
    by (simp add: balanced_state_def)
qed simp

definition weighted :: "(leafDescriptor \<Rightarrow> i64) \<Rightarrow> leafDescriptor list \<Rightarrow> weightedLeaf list" where
  "weighted f leaves = SliceStable heavier (map (\<lambda>(i, leaf). weigh_leaf f i leaf) (enumerate 0 leaves))"

lemma partition_weighted:
  "partitionLeavesByWeight leaves radix f =
     filter (\<lambda>g. g \<noteq> []) (fst (fold assign_leaf (weighted f leaves) (replicate radix [], replicate radix 0)))"
  by (simp add: partitionLeavesByWeight_def weighted_def case_prod_unfold)

lemma weighted_leaf:
  assumes "w \<in> set (weighted f leaves)"
  shows "0 \<le> sint (wl_weight w)" and "wl_weight w = 0 \<longleftrightarrow> sint (f (wl_leaf w)) \<le> 0"
proof -
  have "\<exists>i leaf. w = weigh_leaf f i leaf"
    using assms by (auto simp: weighted_def)
  then show "0 \<le> sint (wl_weight w)" "wl_weight w = 0 \<longleftrightarrow> sint (f (wl_leaf w)) \<le> 0"
    by (auto simp: weigh_leaf_def Let_def le_less split: if_splits simp flip: sint_inj [of _ 0])
qed

lemma mset_weighted: "mset (map wl_leaf (weighted f leaves)) = mset leaves"
proof -
  have "map wl_leaf (map (\<lambda>(i, leaf). weigh_leaf f i leaf) (enumerate n leaves)) = leaves" for n
    by (induction leaves arbitrary: n) (auto simp: weigh_leaf_def)
  then show ?thesis
    by (metis mset_SliceStable mset_map weighted_def)
qed

lemma weighted_sorted: "sorted_wrt (\<lambda>a b. sint (wl_weight b) \<le> sint (wl_weight a)) (weighted f leaves)"
  unfolding weighted_def by (rule SliceStable_sorted) (auto simp: heavier_def split: if_splits)

lemma initial_balanced: "balanced_state r (replicate r [], replicate r 0)"
  by (simp add: balanced_state_def)

lemma weight_perm:
  assumes "0 < radix"
  shows "mset (concat (partitionLeavesByWeight leaves radix f)) = mset leaves"
proof -
  have "concat (filter (\<lambda>g. g \<noteq> []) gs) = concat gs" for gs :: "leafDescriptor list list"
    by (induction gs) auto
  then show ?thesis
    using assign_leaves(2) [OF initial_balanced assms, of "weighted f leaves"]
    by (simp add: partition_weighted mset_weighted) (simp flip: mset_map add: mset_weighted)
qed

lemma weightless_mset: "mset leaves = mset leaves' \<Longrightarrow> length (weightless f leaves) = length (weightless f leaves')"
  unfolding weightless_def by (metis mset_filter size_mset)

lemma min_group_zero: "0 < n \<Longrightarrow> min_group (replicate n 0) = 0"
proof -
  have "set is \<subseteq> {..<n} \<Longrightarrow> 0 < n \<Longrightarrow>
      fold (\<lambda>i m. if sint (replicate n (0 :: i64) ! i) < sint (replicate n (0 :: i64) ! m) then i else m) is 0 = 0" for "is"
    by (induction "is") auto
  moreover have "set [1..<n] \<subseteq> {..<n}"
    by auto
  ultimately show "0 < n \<Longrightarrow> min_group (replicate n 0) = 0"
    unfolding min_group_def by simp
qed

lemma min_group_other: "2 \<le> length gw \<Longrightarrow> sint (gw ! 1) < sint (gw ! 0) \<Longrightarrow> min_group gw \<noteq> 0"
  using min_group_le [of 1 gw] by (metis Suc_1 Suc_le_lessD not_less One_nat_def)

text \<open>The heaviest two leaves go to different groups unless the second of them has no weight.\<close>

lemma weighted_head:
  assumes "2 \<le> length leaves" and "length (weightless f leaves) \<le> 1"
  obtains a b ws where "weighted f leaves = a # b # ws" "0 < sint (wl_weight a)"
proof -
  have "length (weighted f leaves) = length leaves"
    using arg_cong [OF mset_weighted [of f leaves], of size] by simp
  then obtain a b ws where ws: "weighted f leaves = a # b # ws"
    using assms(1) by (cases "weighted f leaves" rule: remdups_adj.cases) auto
  have few: "length (weightless f (map wl_leaf (weighted f leaves))) \<le> 1"
    using weightless_mset [OF mset_weighted [of f leaves], of f] assms(2) by simp
  have ab: "sint (wl_weight b) \<le> sint (wl_weight a)"
    using weighted_sorted [of f leaves] ws by simp
  have "0 < sint (wl_weight a)"
  proof (rule ccontr)
    assume "\<not> ?thesis"
    then have "sint (wl_weight a) = 0" "sint (wl_weight b) = 0"
      using ab weighted_leaf(1) [of a f leaves] weighted_leaf(1) [of b f leaves] ws by auto
    then have "wl_weight a = 0" "wl_weight b = 0"
      using sint_inj [of "wl_weight a" 0] sint_inj [of "wl_weight b" 0] by simp_all
    then show False
      using few weighted_leaf(2) [of a f leaves] weighted_leaf(2) [of b f leaves] ws by (simp add: weightless_def)
  qed
  then show ?thesis
    using that ws by blast
qed

lemma assign_two:
  assumes "2 \<le> radix" and "0 < sint (wl_weight a)"
  obtains m where "m < radix" "m \<noteq> 0"
    "balanced_state radix (fold assign_leaf [a, b] (replicate radix [], replicate radix 0))"
    "fst (fold assign_leaf [a, b] (replicate radix [], replicate radix 0)) ! 0 \<noteq> []"
    "fst (fold assign_leaf [a, b] (replicate radix [], replicate radix 0)) ! m \<noteq> []"
proof -
  define gw where "gw = (replicate radix 0)[0 := wl_weight a]"
  define gs where "gs = (replicate radix [])[0 := [wl_leaf a]]"
  have s1: "assign_leaf a (replicate radix [], replicate radix 0) = (gs, gw)"
    using assms(1) by (simp add: assign_leaf_def min_group_zero Let_def gs_def gw_def)
  have len: "length gw = radix" "length gs = radix"
    by (simp_all add: gw_def gs_def)
  have "sint (gw ! 1) < sint (gw ! 0)"
    using assms by (simp add: gw_def)
  then have m0: "min_group gw \<noteq> 0"
    using min_group_other [of gw] assms(1) len by simp
  have m: "min_group gw < radix"
    using min_group_bound [of gw] len assms(1) by (cases gw) auto
  let ?m = "min_group gw"
  have two: "fold assign_leaf [a, b] (replicate radix [], replicate radix 0) = assign_leaf b (gs, gw)"
    by (simp add: s1)
  have "balanced_state radix (assign_leaf b (gs, gw))"
    by (rule assign_leaf_step) (use assms(1) len in \<open>auto simp: balanced_state_def\<close>)
  moreover have "gs ! 0 \<noteq> []"
    using assms(1) by (simp add: gs_def)
  then have "fst (assign_leaf b (gs, gw)) ! 0 \<noteq> []" "fst (assign_leaf b (gs, gw)) ! ?m \<noteq> []"
    using m m0 len by (simp_all add: assign_leaf_def Let_def)
  ultimately show ?thesis
    using that [OF m m0] unfolding two by blast
qed

lemma weight_progress:
  assumes "2 \<le> radix" and "2 \<le> length leaves" and "length (weightless f leaves) \<le> 1"
  shows "2 \<le> length (partitionLeavesByWeight leaves radix f)"
proof -
  obtain a b ws where ws: "weighted f leaves = a # b # ws" and a: "0 < sint (wl_weight a)"
    using weighted_head [OF assms(2,3)] .
  let ?s0 = "(replicate radix [], replicate radix 0)"
  let ?s2 = "fold assign_leaf [a, b] ?s0" and ?fin = "fold assign_leaf (weighted f leaves) ?s0"
  obtain m where m: "m < radix" "m \<noteq> 0" and bal: "balanced_state radix ?s2"
    and ne2: "fst ?s2 ! 0 \<noteq> []" "fst ?s2 ! m \<noteq> []"
    using assign_two [OF assms(1) a, of b] by blast
  have last: "?fin = fold assign_leaf ws ?s2"
    by (simp add: ws)
  have r: "0 < radix"
    using assms(1) by simp
  have ne: "fst ?fin ! 0 \<noteq> []" "fst ?fin ! m \<noteq> []"
    unfolding last using assign_leaves(3) [OF bal r] ne2 m(1) r by blast+
  have len: "length (fst ?fin) = radix"
    using assign_leaves(1) [OF bal r, of ws] unfolding last by (simp only: balanced_state_def)
  have "card {0, m} \<le> card {i. i < length (fst ?fin) \<and> fst ?fin ! i \<noteq> []}"
    by (rule card_mono) (use ne m(1) len r in auto)
  then show ?thesis
    using m(2) by (simp add: partition_weighted length_filter_conv_card)
qed

text \<open>The weightless leaves stay together.\<close>

lemma weightless_together:
  assumes "0 < radix" and "weightless f leaves \<noteq> []"
  obtains g where "g \<in> set (partitionLeavesByWeight leaves radix f)" "mset (weightless f g) = mset (weightless f leaves)"
proof -
  define heavy where "heavy = takeWhile (\<lambda>w. wl_weight w \<noteq> 0) (weighted f leaves)"
  define light where "light = dropWhile (\<lambda>w. wl_weight w \<noteq> 0) (weighted f leaves)"
  have split: "weighted f leaves = heavy @ light"
    by (simp add: heavy_def light_def)
  have light: "wl_weight w = 0" if "w \<in> set light" for w
  proof (cases light)
    case (Cons x xs)
    then have x: "wl_weight x = 0"
      using hd_dropWhile [of "\<lambda>w. wl_weight w \<noteq> 0" "weighted f leaves"] by (auto simp: light_def)
    have "sint (wl_weight w) \<le> sint (wl_weight x)"
      using weighted_sorted [of f leaves] that by (auto simp: split Cons sorted_wrt_append)
    moreover have "0 \<le> sint (wl_weight w)"
      using weighted_leaf(1) [of w f leaves] that by (simp add: split)
    ultimately show ?thesis
      by (simp add: x flip: sint_inj)
  qed (use that in simp)
  have heavy: "\<forall>w \<in> set heavy. wl_weight w \<noteq> 0"
    by (auto simp: heavy_def dest: set_takeWhileD)
  obtain groups gw where mid: "fold assign_leaf heavy (replicate radix [], replicate radix 0) = (groups, gw)"
    by fastforce
  have bal: "balanced_state radix (groups, gw)"
    using assign_leaves(1) [OF initial_balanced assms(1), of heavy] by (simp add: mid)
  let ?m = "min_group gw"
  have m: "?m < length groups"
    using bal min_group_bound [of gw] assms(1) by (cases gw) (auto simp: balanced_state_def)
  let ?g = "groups ! ?m @ map wl_leaf light"
  have parts: "partitionLeavesByWeight leaves radix f = filter (\<lambda>g. g \<noteq> []) (groups[?m := ?g])"
    unfolding partition_weighted split
    using assign_weightless [OF _ bal assms(1), of light] light by (simp add: mid)
  have wl: "weightless f (map wl_leaf ws) = map wl_leaf (filter (\<lambda>w. wl_weight w = 0) ws)"
    if "set ws \<subseteq> set (weighted f leaves)" for ws
    using that weighted_leaf(2) [of _ f leaves] by (induction ws) (auto simp: weightless_def)
  have light_wl: "weightless f (map wl_leaf light) = map wl_leaf light"
    using wl [of light] light by (simp add: split)
  have "mset (concat groups) = mset (map wl_leaf heavy)"
    using assign_leaves(2) [OF initial_balanced assms(1), of heavy] by (simp add: mid)
  then have "set (concat groups) = set (map wl_leaf heavy)"
    by (metis set_mset_mset)
  moreover have "weightless f (map wl_leaf heavy) = []"
    using wl [of heavy] heavy by (simp add: split filter_empty_conv)
  ultimately have "\<forall>l \<in> set (concat groups). \<not> sint (f l) \<le> 0"
    by (simp only: weightless_def filter_empty_conv)
  then have none: "weightless f (groups ! ?m) = []"
    using nth_mem [OF m] by (auto simp: weightless_def filter_empty_conv)
  have "mset (weightless f (map wl_leaf (weighted f leaves))) = mset (weightless f leaves)"
    by (metis mset_filter mset_weighted weightless_def)
  then have all: "mset (map wl_leaf light) = mset (weightless f leaves)"
    using wl [of "weighted f leaves"] light heavy by (simp add: split filter_empty_conv)
  then have "?g \<noteq> []"
    using assms(2) by auto
  then have "?g \<in> set (partitionLeavesByWeight leaves radix f)"
    using m by (auto simp: parts set_update_memI)
  moreover have "weightless f ?g = map wl_leaf light"
    using none light_wl by (simp add: weightless_def)
  ultimately show ?thesis
    using that all by metis
qed

subsection \<open>By count\<close>

lemma next_group_found:
  assumes "idx < radix" and "j < n" and "caps ! ((idx + j) mod radix) \<noteq> 0"
  shows "caps ! next_group radix caps idx n \<noteq> 0 \<and> next_group radix caps idx n < radix"
  using assms
proof (induction n arbitrary: idx j)
  case (Suc n)
  show ?case
  proof (cases "caps ! idx = 0")
    case True
    then have j: "j \<noteq> 0"
      using Suc(2,4) by (cases j) auto
    then obtain j' where j': "j = Suc j'"
      by (cases j) auto
    have "((idx + 1) mod radix + j') mod radix = (idx + j) mod radix"
      by (simp add: j' mod_simps)
    then show ?thesis
      using Suc(1) [of "(idx + 1) mod radix" j'] Suc(2-4) True j' by (simp add: mod_less_divisor)
  qed (use Suc in simp)
qed simp

lemma next_group_some:
  assumes "idx < radix" and "length caps = radix" and "0 < sum_list caps"
  shows "caps ! next_group radix caps idx radix \<noteq> 0 \<and> next_group radix caps idx radix < radix"
proof -
  obtain k where k: "k < radix" "caps ! k \<noteq> 0"
    using assms(2,3) by (metis in_set_conv_nth not_gr_zero sum_list_eq_0_iff)
  define j where "j = (if idx \<le> k then k - idx else k + radix - idx)"
  have "j < radix" "(idx + j) mod radix = k"
    using assms(1) k(1) by (auto simp: j_def)
  then show ?thesis
    using next_group_found [OF assms(1), of j radix caps] k(2) by simp
qed

lemma round_robin_fills:
  assumes "idx < radix" and "length caps = radix" and "length groups = radix" and "sum_list caps = length leaves"
  shows "length (round_robin radix leaves idx caps groups) = radix \<and>
     mset (concat (round_robin radix leaves idx caps groups)) = mset (concat groups) + mset leaves \<and>
     (\<forall>i < radix. length (round_robin radix leaves idx caps groups ! i) = length (groups ! i) + caps ! i)"
  using assms
proof (induction leaves arbitrary: idx caps groups)
  case (Cons leaf leaves)
  let ?i = "next_group radix caps idx radix"
  have i: "caps ! ?i \<noteq> 0" "?i < radix"
    using next_group_some [of idx radix caps] Cons(2-5) by auto
  have "sum_list (caps[?i := caps ! ?i - 1]) = length leaves"
    using Cons(3,5) i by (simp add: sum_list_update)
  then have "length (round_robin radix (leaf # leaves) idx caps groups) = radix \<and>
      mset (concat (round_robin radix (leaf # leaves) idx caps groups)) =
        mset (concat (groups[?i := groups ! ?i @ [leaf]])) + mset leaves \<and>
      (\<forall>j < radix. length (round_robin radix (leaf # leaves) idx caps groups ! j) =
        length (groups[?i := groups ! ?i @ [leaf]] ! j) + caps[?i := caps ! ?i - 1] ! j)"
    using Cons(1) [of "(?i + 1) mod radix" "caps[?i := caps ! ?i - 1]" "groups[?i := groups ! ?i @ [leaf]]"] Cons(2-5)
    by (simp add: Let_def)
  then show ?case
    using i Cons(3,4) by (auto simp: mset_concat_update nth_list_update)
qed (use sum_list_eq_0_iff in auto)

definition count_sizes :: "nat \<Rightarrow> nat \<Rightarrow> nat list" where
  "count_sizes M radix = map (\<lambda>i. if i < M mod radix then M div radix + 1 else M div radix) [0..<radix]"

lemma sum_count_sizes: "0 < radix \<Longrightarrow> sum_list (count_sizes M radix) = M"
proof -
  assume r: "0 < radix"
  have "sum_list (count_sizes M radix) = (\<Sum>i < radix. M div radix + (if i < M mod radix then 1 else 0))"
    unfolding count_sizes_def by (simp add: sum_list_sum_nth atLeast0LessThan cong: sum.cong if_cong) (auto intro!: sum.cong)
  also have "\<dots> = radix * (M div radix) + card {i. i < radix \<and> i < M mod radix}"
    by (simp add: sum.distrib sum.If_cases Int_def)
  also have "{i. i < radix \<and> i < M mod radix} = {..<M mod radix}"
    using mod_less_divisor [OF r, of M] by (auto intro: less_trans)
  finally show ?thesis by simp
qed

lemma partition_count_split:
  assumes "2 \<le> radix" and "radix < length leaves"
  shows "length (partitionLeavesByCount leaves radix) = radix \<and>
     mset (concat (partitionLeavesByCount leaves radix)) = mset leaves \<and>
     map length (partitionLeavesByCount leaves radix) = count_sizes (length leaves) radix"
proof -
  let ?sizes = "count_sizes (length leaves) radix"
  let ?gs = "round_robin radix leaves 0 ?sizes (replicate radix [])"
  have len: "length ?sizes = radix"
    by (simp add: count_sizes_def)
  have gs: "length ?gs = radix" "mset (concat ?gs) = mset leaves"
    "\<And>i. i < radix \<Longrightarrow> length (?gs ! i) = ?sizes ! i"
    using round_robin_fills [of 0 radix ?sizes "replicate radix []" leaves] assms sum_count_sizes [of radix] len by auto
  have pos: "0 < ?sizes ! i" if "i < radix" for i
    using assms that by (auto simp: count_sizes_def div_greater_zero_iff)
  have "g \<noteq> []" if "g \<in> set ?gs" for g
    using that gs pos by (metis in_set_conv_nth length_0_conv less_irrefl)
  then have filter: "filter (\<lambda>g. g \<noteq> []) ?gs = ?gs"
    by (simp add: filter_id_conv)
  have sizes: "map length ?gs = ?sizes"
    using gs(1,3) len by (intro nth_equalityI) auto
  have "partitionLeavesByCount leaves radix = ?gs"
    using assms gs(1) by (simp add: partitionLeavesByCount_def Let_def filter flip: count_sizes_def)
  then show ?thesis
    using gs sizes by simp
qed

text \<open>Both partitions provide the interface, and so does the choice between them.\<close>

lemma partition_count_small: "length leaves \<le> radix \<Longrightarrow> partitionLeavesByCount leaves radix = map (\<lambda>leaf. [leaf]) leaves"
  by (simp add: partitionLeavesByCount_def)

lemma concat_singletons: "concat (map (\<lambda>x. [x]) xs) = xs"
  by (induction xs) auto

lemma count_nonempty:
  assumes "2 \<le> radix"
  shows "[] \<notin> set (partitionLeavesByCount leaves radix)"
proof (cases "length leaves \<le> radix")
  case False
  then have "map length (partitionLeavesByCount leaves radix) = count_sizes (length leaves) radix"
    using partition_count_split [OF assms, of leaves] by simp
  then have "length ` set (partitionLeavesByCount leaves radix) = set (count_sizes (length leaves) radix)"
    by (metis list.set_map)
  moreover have "0 \<notin> set (count_sizes (length leaves) radix)"
    using False assms by (auto simp: count_sizes_def div_eq_0_iff)
  ultimately show ?thesis
    by (metis image_eqI list.size(3))
qed (auto simp: partition_count_small)

interpretation by_count: leaf_partition "\<lambda>leaves. partitionLeavesByCount leaves (r + 2)" "\<lambda>_. True" "r + 2" for r
proof
  fix leaves g :: "leafDescriptor list"
  have r: "2 \<le> r + 2" by simp
  note split = partition_count_split [OF r, of leaves]
  consider "length leaves \<le> r + 2" | "r + 2 < length leaves"
    by linarith
  note cases = this
  show "mset (concat (partitionLeavesByCount leaves (r + 2))) = mset leaves"
    by (cases rule: cases) (simp only: partition_count_small concat_singletons, use split in blast)
  show "length (partitionLeavesByCount leaves (r + 2)) \<le> r + 2"
    by (cases rule: cases) (simp only: partition_count_small length_map, use split in linarith)
  show "[] \<notin> set (partitionLeavesByCount leaves (r + 2))"
    by (rule count_nonempty [OF r])
  show "2 \<le> length (partitionLeavesByCount leaves (r + 2))" if "2 \<le> length leaves"
    by (cases rule: cases) (use that in \<open>simp only: partition_count_small length_map\<close>, use split r in linarith)
qed simp

lemma weight_fanout: "0 < radix \<Longrightarrow> length (partitionLeavesByWeight leaves radix f) \<le> radix"
  using assign_leaves(1) [OF initial_balanced, of radix "weighted f leaves"]
  by (auto simp: partition_weighted balanced_state_def intro: order_trans [OF length_filter_le])

interpretation by_weight: leaf_partition "\<lambda>leaves. partitionLeavesByWeight leaves (r + 2) f"
  "\<lambda>leaves. length (weightless f leaves) \<le> 1" "r + 2" for r f
proof
  fix leaves g :: "leafDescriptor list"
  show perm: "mset (concat (partitionLeavesByWeight leaves (r + 2) f)) = mset leaves"
    by (rule weight_perm) simp
  show "[] \<notin> set (partitionLeavesByWeight leaves (r + 2) f)"
    by (simp add: partition_weighted)
  show "length (partitionLeavesByWeight leaves (r + 2) f) \<le> r + 2"
    by (rule weight_fanout) simp
  show "2 \<le> length (partitionLeavesByWeight leaves (r + 2) f)"
    if "length (weightless f leaves) \<le> 1" "2 \<le> length leaves"
    by (rule weight_progress) (use that in auto)
  show "length (weightless f g) \<le> 1"
    if few: "length (weightless f leaves) \<le> 1" and g: "g \<in> set (partitionLeavesByWeight leaves (r + 2) f)"
  proof -
    obtain as bs where "partitionLeavesByWeight leaves (r + 2) f = as @ g # bs"
      using g by (auto simp: in_set_conv_decomp)
    then have "mset leaves = mset g + mset (concat (as @ bs))"
      using perm by (simp add: ac_simps)
    then have "mset (weightless f leaves) = mset (weightless f g) + mset (weightless f (concat (as @ bs)))"
      unfolding weightless_def by (metis filter_union_mset mset_filter)
    then have "length (weightless f leaves) = length (weightless f g) + length (weightless f (concat (as @ bs)))"
      by (metis size_mset size_union)
    then show ?thesis
      using few by simp
  qed
qed

definition splits_by :: "(leafDescriptor \<Rightarrow> i64) option \<Rightarrow> leafDescriptor list \<Rightarrow> bool" where
  "splits_by wt leaves \<longleftrightarrow> (case wt of None \<Rightarrow> True | Some f \<Rightarrow> length (weightless f leaves) \<le> 1)"

interpretation groups: leaf_partition "\<lambda>leaves. partitionLeaves leaves (r + 2) wt" "splits_by wt" "r + 2" for r wt
proof (cases wt)
  case None
  then show "leaf_partition (\<lambda>leaves. partitionLeaves leaves (r + 2) wt) (splits_by wt) (r + 2)"
    using by_count.leaf_partition_axioms [of r] by (simp add: partitionLeaves_def splits_by_def [abs_def])
next
  case (Some f)
  then show "leaf_partition (\<lambda>leaves. partitionLeaves leaves (r + 2) wt) (splits_by wt) (r + 2)"
    using by_weight.leaf_partition_axioms [of r f] by (simp add: partitionLeaves_def splits_by_def [abs_def])
qed

lemma groups_laws: "2 \<le> radix \<Longrightarrow> leaf_partition (\<lambda>leaves. partitionLeaves leaves radix wt) (splits_by wt) radix"
  using groups.leaf_partition_axioms [of "radix - 2" wt] by (simp only: le_add_diff_inverse2)

text \<open>
  A partition keeps every leaf exactly once, gives no empty group and at most radix
  groups; with no weight function the sizes of the groups are as equal as they can be, and with
  one it makes progress (two groups or more, each smaller than the input) whenever at
  most one leaf has no weight.
\<close>

lemma partitionLeaves_correct:
  assumes "2 \<le> radix"
  shows "mset (concat (partitionLeaves leaves radix wt)) = mset leaves \<and>
     [] \<notin> set (partitionLeaves leaves radix wt) \<and> length (partitionLeaves leaves radix wt) \<le> radix \<and>
     (splits_by wt leaves \<and> 2 \<le> length leaves \<longrightarrow>
        2 \<le> length (partitionLeaves leaves radix wt) \<and>
        (\<forall>g \<in> set (partitionLeaves leaves radix wt). length g < length leaves)) \<and>
     (wt = None \<longrightarrow>
        (\<forall>g \<in> set (partitionLeaves leaves radix wt). \<forall>h \<in> set (partitionLeaves leaves radix wt). length g \<le> length h + 1))"
proof -
  note laws = groups_laws [OF assms, of wt]
  have "length g \<le> length h + 1"
    if "wt = None" "g \<in> set (partitionLeaves leaves radix wt)" "h \<in> set (partitionLeaves leaves radix wt)" for g h
  proof (cases "length leaves \<le> radix")
    case True
    then show ?thesis
      using that by (auto simp: partitionLeaves_def partition_count_small)
  next
    case False
    have sizes: "map length (partitionLeaves leaves radix wt) = count_sizes (length leaves) radix"
      using partition_count_split [OF assms, of leaves] False that(1) by (simp add: partitionLeaves_def)
    have "length g \<in> set (count_sizes (length leaves) radix)" "length h \<in> set (count_sizes (length leaves) radix)"
      unfolding sizes [symmetric] using that by auto
    then show ?thesis
      by (auto simp: count_sizes_def split: if_splits)
  qed
  then show ?thesis
    using leaf_partition.perm [OF laws, of leaves] leaf_partition.nonempty [OF laws, of leaves]
      leaf_partition.bounded [OF laws, of leaves] leaf_partition.progress [OF laws, of leaves]
      leaf_partition.group_smaller [OF laws, of leaves] by blast
qed

definition ex_leaf_of :: "i64 \<Rightarrow> byte \<Rightarrow> leafDescriptor" where
  "ex_leaf_of v k = \<lparr>lf_pkScript = [0x51, k], lf_amount = v, lf_coSignerKey = Some [k]\<rparr>"

end
