(* ===== verification/Tree_Facts.thy ===== *)
theory Tree_Facts
  imports Tree_Node
begin

text \<open>
  Facts about transaction trees: what the walks visit, what extraction keeps, what the value
  and script checks establish along a path, which leaves an index selects, the index of
  transaction ids, and what an accepted set of signatures shows.
\<close>

section \<open>Induction and walks\<close>

lemma tree_induct [case_names Node]:
  assumes "\<And>inp outs cos chs amt sg fk. (\<And>i c. (i, c) \<in> set chs \<Longrightarrow> P c) \<Longrightarrow> P (TreeNode inp outs cos chs amt sg fk)"
  shows "P n"
  by (induction n rule: NodesIter.induct) (rule assms, blast)

lemma visit_None [simp]:
  "firstErr (\<lambda>e. e) (in_order (map (\<lambda>(i, c). (i, f i c)) chs)) = None \<longleftrightarrow> (\<forall>i c. (i, c) \<in> set chs \<longrightarrow> f i c = None)"
  by (auto simp: split_beta)

lemma visit_list_None [simp]:
  "firstErr (\<lambda>e. e) (map (\<lambda>(i, c). f i c) chs) = None \<longleftrightarrow> (\<forall>i c. (i, c) \<in> set chs \<longrightarrow> f i c = None)"
  by (auto simp: split_beta)

lemma set_NodesIter:
  "set (NodesIter n) = insert n (\<Union>(i, c) \<in> set (tn_children n). set (NodesIter c))"
  by (cases n) (auto simp: split_beta)

lemma NodesIter_self [simp]: "n \<in> set (NodesIter n)"
  by (cases n) simp

lemma NodesIter_child: "(i, c) \<in> set (tn_children n) \<Longrightarrow> m \<in> set (NodesIter c) \<Longrightarrow> m \<in> set (NodesIter n)"
  by (subst set_NodesIter) auto

lemma ForEach_None [simp]: "ForEach callback n = None \<longleftrightarrow> (\<forall>m \<in> set (NodesIter n). callback m = None)"
proof (induction n rule: tree_induct)
  case (Node inp outs cos chs amt sg fk)
  then show ?case
    by (subst set_NodesIter) fastforce
qed

lemma set_GetLeafNodes: "set (GetLeafNodes n) = {m \<in> set (NodesIter n). IsLeaf m}"
proof (induction n rule: tree_induct)
  case (Node inp outs cos chs amt sg fk)
  have "set (GetLeafNodes (TreeNode inp outs cos chs amt sg fk)) =
      (if chs = [] then {TreeNode inp outs cos chs amt sg fk} else (\<Union>(i, c) \<in> set chs. set (GetLeafNodes c)))"
    by (auto simp: split_beta)
  also have "\<dots> = {m \<in> set (NodesIter (TreeNode inp outs cos chs amt sg fk)). IsLeaf m}"
    by (subst set_NodesIter) (auto simp: IsLeaf_def Node)
  finally show ?case .
qed

lemma length_concat_in_order:
  "length (concat (in_order (map (\<lambda>(i, c). (i, f c)) chs))) = sum_list (map (\<lambda>(i, c). length (f c)) chs)"
proof -
  have "mset (in_order (map (\<lambda>(i, c). (i, f c)) chs)) = mset (map (\<lambda>(i, c). f c) chs)"
    by (simp add: in_order_def multiset.map_comp comp_def case_prod_unfold)
  then have "sum_mset (image_mset length (mset (in_order (map (\<lambda>(i, c). (i, f c)) chs))))
      = sum_mset (image_mset length (mset (map (\<lambda>(i, c). f c) chs)))"
    by simp
  then show ?thesis
    by (simp add: length_concat sum_mset_sum_list comp_def case_prod_unfold flip: mset_map)
qed

lemma NumTx_eq: "NumTx n = length (NodesIter n)"
  by (induction n rule: tree_induct)
    (auto simp: length_concat_in_order intro!: arg_cong [where f = sum_list] map_cong)

lemma countLeaves_eq: "countLeaves n = length (GetLeafNodes n)"
  by (induction n rule: tree_induct)
    (auto simp: length_concat_in_order intro!: arg_cong [where f = sum_list] map_cong)

lemma countLeaves_pos: "0 < countLeaves n"
proof (induction n rule: tree_induct)
  case (Node inp outs cos chs amt sg fk)
  then show ?case
    by (cases chs) auto
qed

section \<open>Extraction by cosigner\<close>

lemma some_children_mem [simp]:
  "(i, m) \<in> set (some_children (map (\<lambda>(i, c). (i, f c)) chs)) \<longleftrightarrow> (\<exists>c. (i, c) \<in> set chs \<and> f c = Some m)"
  by (induction chs) (auto simp: some_children_def)

lemma extract_SomeE:
  assumes "ExtractPathForCoSigners ks n = Some m"
  obtains "tn_input m = tn_input n" "tn_outputs m = tn_outputs n" "tn_coSigners m = tn_coSigners n"
    "tn_signature m = tn_signature n" "tn_finalKey m = tn_finalKey n" "tn_amount m = 0"
    "tn_children m = some_children (map (\<lambda>(i, c). (i, ExtractPathForCoSigners ks c)) (tn_children n))"
    "\<exists>k \<in> set ks. k \<in> set (tn_coSigners n)"
  using assms by (cases n) (auto simp: ContainsCosigner_def split: if_splits)

text \<open>The transaction of a node is its input and its outputs.\<close>

lemma ToTx_cong: "tn_input m = tn_input n \<Longrightarrow> tn_outputs m = tn_outputs n \<Longrightarrow> ToTx m = ToTx n"
  by (simp add: ToTx_def)

lemma TXID_cong: "tn_input m = tn_input n \<Longrightarrow> tn_outputs m = tn_outputs n \<Longrightarrow> TXID lib m = TXID lib n"
  by (simp add: TXID_def ToTx_def)

lemma childScript_cong: "tn_coSigners m = tn_coSigners n \<Longrightarrow> childScript lib tweak m = childScript lib tweak n"
  by (simp add: childScript_def)

text \<open>The checks on a node, as conditions on the node and its children.\<close>

lemma value_conserved_iff:
  "validateNodeValueConservation lib n expected v = None \<longleftrightarrow>
     tn_input n = expected \<and> tn_outputs n \<noteq> [] \<and> sum_outputs (tn_outputs n) 0 0 = Inr v \<and>
     (\<exists>txid. TXID lib n = Inr txid \<and>
       (\<forall>i c. (i, c) \<in> set (tn_children n) \<longrightarrow> unat i < length (tn_outputs n) \<and>
          (\<exists>output. tn_outputs n ! unat i = Some output \<and>
             validateNodeValueConservation lib c \<lparr>op_hash = txid, op_index = i\<rparr> (out_value output) = None)))"
proof (cases n)
  case (TreeNode inp outs cos chs amt sg fk)
  have child: "(if length outs \<le> unat i then Some a
      else case outs ! unat i of None \<Rightarrow> Some b | Some output \<Rightarrow> map_option g (f output)) = None \<longleftrightarrow>
      unat i < length outs \<and> (\<exists>output. outs ! unat i = Some output \<and> f output = None)"
    for i :: u32 and a b :: tree_error and g :: "tree_error \<Rightarrow> tree_error" and f
    by (auto split: option.split)
  have eq: "sint a < sint v \<or> sint v < sint a \<or> a = v" for a
    by (metis linorder_neqE signed_word_eqI)
  show ?thesis
  proof (cases "sum_outputs outs 0 0")
    case (Inr w)
    then show ?thesis
      using eq [of w] by (cases "TXID lib n") (auto simp: TreeNode child simp del: firstErr_None)
  qed (simp add: TreeNode)
qed

lemma child_scripts_iff:
  "validateNodeChildScripts lib tweak n = None \<longleftrightarrow>
     (\<forall>i c. (i, c) \<in> set (tn_children n) \<longrightarrow> unat i < length (tn_outputs n) \<and>
        (\<exists>output. tn_outputs n ! unat i = Some output \<and> childScript lib tweak c = Inr (out_pkScript output)) \<and>
        validateNodeChildScripts lib tweak c = None)"
proof (cases n)
  case (TreeNode inp outs cos chs amt sg fk)
  have child: "(if length outs \<le> unat i then Some a
      else case s of Inl e \<Rightarrow> Some e | Inr x \<Rightarrow>
        (case outs ! unat i of None \<Rightarrow> Some b | Some p \<Rightarrow>
          if out_pkScript p \<noteq> x then Some b' else map_option g r)) = None \<longleftrightarrow>
      unat i < length outs \<and> (\<exists>output. outs ! unat i = Some output \<and> s = Inr (out_pkScript output)) \<and> r = None"
    for i :: u32 and a b b' :: tree_error and g :: "tree_error \<Rightarrow> tree_error" and s :: "tree_error + byte list" and r
    by (auto split: option.split sum.split)
  show ?thesis
    by (simp add: TreeNode child del: firstErr_None)
qed

lemma verify_node_iff:
  "VerifyNode lib n = None \<longleftrightarrow>
     (\<exists>txid. TXID lib n = Inr txid \<and>
       (\<forall>i c. (i, c) \<in> set (tn_children n) \<longrightarrow> unat i < length (tn_outputs n) \<and>
          tn_input c = \<lparr>op_hash = txid, op_index = i\<rparr> \<and> VerifyNode lib c = None))"
proof (cases n)
  case (TreeNode inp outs cos chs amt sg fk)
  have child: "(if length outs \<le> unat i then Some a else if x then Some b else map_option g r) = None \<longleftrightarrow>
      unat i < length outs \<and> \<not> x \<and> r = None"
    for i :: u32 and a b :: tree_error and g :: "tree_error \<Rightarrow> tree_error" and x r
    by auto
  show ?thesis
    by (cases "TXID lib n") (simp_all add: TreeNode child del: firstErr_None)
qed

section \<open>Values\<close>

lemma sint_MaxSatoshi [simp]: "sint MaxSatoshi = 2100000000000000"
  by (simp add: MaxSatoshi_def)

lemma validateSatoshiValue_None [simp]:
  "validateSatoshiValue name v = None \<longleftrightarrow> 0 \<le> sint v \<and> sint v \<le> 2100000000000000"
  by (auto simp: validateSatoshiValue_def)

definition outs_total :: "txOut list \<Rightarrow> int" where
  "outs_total outs = sum_list (map (\<lambda>o'. sint (out_value o')) outs)"

lemma outs_total_simps [simp]: "outs_total [] = 0" "outs_total (x # xs) = sint (out_value x) + outs_total xs"
  by (simp_all add: outs_total_def)

lemma outs_total_nonneg: "\<forall>o' \<in> set outs. 0 \<le> sint (out_value o') \<Longrightarrow> 0 \<le> outs_total outs"
  by (induction outs) auto

text \<open>The total a node's check computes is the exact sum of its outputs: nothing wraps.\<close>

lemma sum_outputs_iff:
  assumes "0 \<le> sint sofar" and "sint sofar \<le> 2100000000000000"
  shows "sum_outputs outs i sofar = Inr v \<longleftrightarrow>
     None \<notin> set outs \<and> (\<forall>o' \<in> set (map the outs). 0 \<le> sint (out_value o')) \<and>
     sint sofar + outs_total (map the outs) \<le> 2100000000000000 \<and>
     sint v = sint sofar + outs_total (map the outs)"
  using assms
proof (induction outs i sofar rule: sum_outputs.induct)
  case (1 i sofar)
  then show ?case
    by (auto simp: sint_inj)
next
  case (2 outs i sofar)
  then show ?case by simp
next
  case (3 out outs i sofar)
  show ?case
  proof (cases "0 \<le> sint (out_value out) \<and> sint (out_value out) \<le> 2100000000000000")
    case True
    then have sub: "sint (MaxSatoshi - out_value out) = 2100000000000000 - sint (out_value out)"
      by (subst sint_sub64) auto
    show ?thesis
    proof (cases "sint sofar + sint (out_value out) \<le> 2100000000000000")
      case fits: True
      then have add: "sint (sofar + out_value out) = sint sofar + sint (out_value out)"
        using True 3(2) by (intro sint_add64) auto
      have "sum_outputs (Some out # outs) i sofar = sum_outputs outs (Suc i) (sofar + out_value out)"
        using True fits by (simp add: sub validateSatoshiValue_def)
      then show ?thesis
        using 3(1) True fits 3(2) add sub by (simp add: validateSatoshiValue_def add.assoc)
    next
      case False
      then show ?thesis
        using True outs_total_nonneg [of "map the outs"] by (auto simp: sub validateSatoshiValue_def)
    qed
  next
    case False
    then show ?thesis
      using outs_total_nonneg [of "map the outs"] 3(2)
      by (auto simp: validateSatoshiValue_def split: if_splits)
  qed
qed

lemma sum_outputs_ok:
  "sum_outputs outs i 0 = Inr v \<longleftrightarrow>
     None \<notin> set outs \<and> (\<forall>o' \<in> set (map the outs). 0 \<le> sint (out_value o')) \<and>
     outs_total (map the outs) \<le> 2100000000000000 \<and> sint v = outs_total (map the outs)"
  by (subst sum_outputs_iff) simp_all

lemma ToTx_ok: "ToTx n = Inr tx \<Longrightarrow> None \<notin> set (tn_outputs n) \<and> wt_outs tx = map the (tn_outputs n)"
  by (auto simp: ToTx_def split: if_splits)

lemma TXID_ok: "TXID lib n = Inr txid \<longleftrightarrow> (\<exists>tx. ToTx n = Inr tx \<and> txid = tl_txHash lib tx)"
  by (auto simp: TXID_def)

section \<open>Extraction keeps the checks\<close>

lemma extract_keyed:
  "ExtractPathForCoSigners ks n = Some m \<Longrightarrow> m' \<in> set (NodesIter m) \<Longrightarrow> \<exists>k \<in> set ks. k \<in> set (tn_coSigners m')"
proof (induction n arbitrary: m m' rule: tree_induct)
  case (Node inp outs cos chs amt sg fk)
  note ex = extract_SomeE [OF Node(2)]
  have root: "\<exists>k \<in> set ks. k \<in> set (tn_coSigners m)"
    and kids: "tn_children m = some_children (map (\<lambda>(i, c). (i, ExtractPathForCoSigners ks c)) chs)"
    by (rule ex; simp)+
  show ?case
    using Node(3) root Node(1) by (subst (asm) set_NodesIter) (auto simp: kids)
qed

lemma extract_idem: "ExtractPathForCoSigners ks n = Some m \<Longrightarrow> ExtractPathForCoSigners ks m = Some m"
proof (induction n arbitrary: m rule: tree_induct)
  case (Node inp outs cos chs amt sg fk)
  let ?kids = "some_children (map (\<lambda>(i, c). (i, ExtractPathForCoSigners ks c)) chs)"
  have key: "\<exists>k \<in> set ks. ContainsCosigner cos k" and m: "m = TreeNode inp outs cos ?kids 0 sg fk"
    using Node(2) by (auto split: if_splits)
  have "ExtractPathForCoSigners ks c' = Some c'" if "(i, c') \<in> set ?kids" for i c'
    using that Node(1) by auto
  then have "map (\<lambda>(i, c). (i, ExtractPathForCoSigners ks c)) ?kids = map (\<lambda>(i, c). (i, Some c)) ?kids"
    by (intro map_cong) auto
  moreover have "some_children (map (\<lambda>(i, c). (i, Some c)) xs) = xs" for xs
    by (induction xs) (auto simp: some_children_def)
  ultimately have "some_children (map (\<lambda>(i, c). (i, ExtractPathForCoSigners ks c)) ?kids) = ?kids"
    by (simp only:)
  then show ?case
    using key by (simp add: m)
qed

lemma extract_value:
  "ExtractPathForCoSigners ks n = Some m \<Longrightarrow> validateNodeValueConservation lib n e v = None \<Longrightarrow>
    validateNodeValueConservation lib m e v = None"
proof (induction n arbitrary: m e v rule: tree_induct)
  case (Node inp outs cos chs amt sg fk)
  note ex = extract_SomeE [OF Node(2)]
  have same: "tn_input m = inp" "tn_outputs m = outs"
    and kids: "tn_children m = some_children (map (\<lambda>(i, c). (i, ExtractPathForCoSigners ks c)) chs)"
    by (rule ex; simp)+
  have "TXID lib m = TXID lib (TreeNode inp outs cos chs amt sg fk)"
    using same by (intro TXID_cong) auto
  then show ?case
    using Node(3) Node(1) unfolding value_conserved_iff [of lib m] value_conserved_iff [of lib "TreeNode inp outs cos chs amt sg fk"]
    by (simp add: same kids) blast
qed

lemma extract_scripts:
  "ExtractPathForCoSigners ks n = Some m \<Longrightarrow> validateNodeChildScripts lib tweak n = None \<Longrightarrow>
    validateNodeChildScripts lib tweak m = None"
proof (induction n arbitrary: m rule: tree_induct)
  case (Node inp outs cos chs amt sg fk)
  note ex = extract_SomeE [OF Node(2)]
  have same: "tn_outputs m = outs"
    and kids: "tn_children m = some_children (map (\<lambda>(i, c). (i, ExtractPathForCoSigners ks c)) chs)"
    by (rule ex; simp)+
  have script: "childScript lib tweak c' = childScript lib tweak c" if "ExtractPathForCoSigners ks c = Some c'" for c c'
    by (rule extract_SomeE [OF that]) (rule childScript_cong)
  show ?case
    using Node(3) Node(1) script
    unfolding child_scripts_iff [of lib tweak m] child_scripts_iff [of lib tweak "TreeNode inp outs cos chs amt sg fk"]
    by (simp add: same kids) metis
qed

section \<open>Paths\<close>

text \<open>
  A list of nodes is a funded path from an output: the first node spends that output, which
  pays to the taproot key of the node's cosigners, its outputs are not negative and add up to
  exactly the value spent, and the next node of the path is funded by one of them.
\<close>

fun funded_path :: "treeLib \<Rightarrow> byte list \<Rightarrow> outPoint \<Rightarrow> txOut \<Rightarrow> treeNode list \<Rightarrow> bool" where
  "funded_path lib tweak op out [] \<longleftrightarrow> True"
| "funded_path lib tweak op out (n # ns) \<longleftrightarrow>
     tn_input n = op \<and> childScript lib tweak n = Inr (out_pkScript out) \<and>
     (\<exists>tx. ToTx n = Inr tx \<and> (\<forall>o' \<in> set (wt_outs tx). 0 \<le> sint (out_value o')) \<and>
        outs_total (wt_outs tx) = sint (out_value out) \<and>
        (\<exists>i < length (wt_outs tx). funded_path lib tweak \<lparr>op_hash = tl_txHash lib tx, op_index = of_nat i\<rparr> (wt_outs tx ! i) ns))"

lemma single_leaf_children:
  assumes "GetLeafNodes (TreeNode inp outs cos chs amt sg fk) = [leaf]" and "chs \<noteq> []"
  obtains i c where "chs = [(i, c)]" "GetLeafNodes c = [leaf]"
proof -
  obtain p rest where chs: "chs = p # rest"
    using assms(2) by (cases chs) auto
  have "countLeaves (TreeNode inp outs cos chs amt sg fk) = 1"
    using assms(1) by (simp add: countLeaves_eq)
  then have one: "countLeaves (snd p) + sum_list (map (\<lambda>(i, c). countLeaves c) rest) = 1"
    using chs by (simp add: case_prod_unfold)
  have "rest = []"
  proof (cases rest)
    case (Cons q r)
    then show ?thesis
      using one countLeaves_pos [of "snd p"] countLeaves_pos [of "snd q"] by (simp add: case_prod_unfold)
  qed
  then show ?thesis
    using that [of "fst p" "snd p"] assms(1) chs by (simp add: in_order_def case_prod_unfold)
qed

lemma single_leaf_path_funded:
  assumes "validateNodeValueConservation lib n op (out_value out) = None"
    and "validateNodeChildScripts lib tweak n = None"
    and "childScript lib tweak n = Inr (out_pkScript out)" and "GetLeafNodes n = [leaf]"
  shows "funded_path lib tweak op out (NodesIter n) \<and> last (NodesIter n) = leaf"
  using assms
proof (induction n arbitrary: op out rule: tree_induct)
  case (Node inp outs cos chs amt sg fk)
  let ?n = "TreeNode inp outs cos chs amt sg fk"
  obtain txid tx where inp: "inp = op" and outs: "outs \<noteq> []" "sum_outputs outs 0 0 = Inr (out_value out)"
    and txid: "txid = tl_txHash lib tx" and tx: "ToTx ?n = Inr tx"
    and kids: "\<And>i c. (i, c) \<in> set chs \<Longrightarrow> unat i < length outs \<and>
        (\<exists>output. outs ! unat i = Some output \<and>
           validateNodeValueConservation lib c \<lparr>op_hash = txid, op_index = i\<rparr> (out_value output) = None)"
    using Node(2) unfolding value_conserved_iff [of lib ?n] by (auto simp: TXID_ok)
  have wt: "wt_outs tx = map the outs"
    using ToTx_ok [OF tx] by simp
  have total: "outs_total (wt_outs tx) = sint (out_value out)" "\<forall>o' \<in> set (wt_outs tx). 0 \<le> sint (out_value o')"
    using outs(2) by (simp_all add: sum_outputs_ok wt)
  show ?case
  proof (cases "chs = []")
    case True
    then show ?thesis
      using Node(5) inp tx total outs(1) Node(4) by (auto simp: wt intro!: exI [of _ 0])
  next
    case False
    obtain i c where chs: "chs = [(i, c)]" and leaf: "GetLeafNodes c = [leaf]"
      using single_leaf_children [OF Node(5) False] .
    obtain o1 where i: "unat i < length outs" and o1: "outs ! unat i = Some o1"
      and v: "validateNodeValueConservation lib c \<lparr>op_hash = txid, op_index = i\<rparr> (out_value o1) = None"
      using kids [of i c] chs by auto
    have s: "validateNodeChildScripts lib tweak c = None" "childScript lib tweak c = Inr (out_pkScript o1)"
      using Node(3) o1 chs unfolding child_scripts_iff [of lib tweak ?n] by auto
    have "funded_path lib tweak \<lparr>op_hash = txid, op_index = i\<rparr> o1 (NodesIter c) \<and> last (NodesIter c) = leaf"
      using Node(1) [of i c] chs v s leaf by simp
    then have "funded_path lib tweak \<lparr>op_hash = tl_txHash lib tx, op_index = of_nat (unat i)\<rparr> (wt_outs tx ! unat i) (NodesIter c)"
      and "last (NodesIter c) = leaf"
      using i by (simp_all add: txid wt o1)
    moreover have "NodesIter ?n = ?n # NodesIter c"
      by (simp add: chs in_order_def)
    moreover have "NodesIter c \<noteq> []"
      by (cases c) simp
    ultimately show ?thesis
      using inp tx total i Node(4) by (auto simp: wt)
  qed
qed

section \<open>The client's check of its path\<close>

lemma value_input: "validateNodeValueConservation lib n e v = None \<Longrightarrow> tn_input n = e"
  by (subst (asm) value_conserved_iff) blast

lemma Verify_None_iff:
  "Verify lib (Some t) = None \<longleftrightarrow>
     (\<exists>root out. tr_root t = Some root \<and> tr_batchOutput t = Some out \<and>
        0 \<le> sint (out_value out) \<and> sint (out_value out) \<le> 2100000000000000 \<and>
        validateNodeValueConservation lib root (tr_batchOutpoint t) (out_value out) = None)"
  by (auto simp: Verify_def ValidateValueConservation_def split: option.split) (metis option.exhaust value_input)

lemma check_vtxo_leaf_None:
  "check_vtxo_leaf script leaf = None \<longleftrightarrow>
     (\<exists>vtxo anchor. tn_outputs leaf = [Some vtxo, Some anchor] \<and> out_pkScript vtxo = script \<and> out_value anchor = 0)"
  by (auto simp: check_vtxo_leaf_def split: list.split option.split)

lemma ExtractTree_one:
  "ExtractTreeForCoSigners [Some key] t =
     (case tr_root t of None \<Rightarrow> Inl NilPointer
      | Some root \<Rightarrow> Inr (map_option (\<lambda>m. t\<lparr>tr_root := Some m\<rparr>) (ExtractPathForCoSigners [key] root)))"
  by (simp add: ExtractTreeForCoSigners_def split: option.split)

text \<open>The path a key has in a tree: the extracted nodes form a single branch.\<close>

definition client_path :: "treeLib \<Rightarrow> pubKey \<Rightarrow> leafDescriptor \<Rightarrow> pubKey \<Rightarrow> txTree \<Rightarrow> treeNode \<Rightarrow> bool" where
  "client_path lib key leaf operator t m \<longleftrightarrow>
     (\<exists>root out vtxo anchor lf. tr_root t = Some root \<and> ExtractPathForCoSigners [key] root = Some m \<and>
        tr_batchOutput t = Some out \<and> 0 \<le> sint (out_value out) \<and> sint (out_value out) \<le> 2100000000000000 \<and>
        validateNodeValueConservation lib m (tr_batchOutpoint t) (out_value out) = None \<and>
        validateNodeChildScripts lib (tr_sweepTapscriptRoot t) m = None \<and>
        GetLeafNodes m = [lf] \<and> tn_outputs lf = [Some vtxo, Some anchor] \<and>
        out_pkScript vtxo = lf_pkScript leaf \<and> out_value vtxo = lf_amount leaf \<and> out_value anchor = 0 \<and>
        operator \<in> set (tn_coSigners lf))"

lemma VerifyVTXOPath_None_iff:
  assumes "tr_root t = Some root" and "ExtractPathForCoSigners [key] root = Some m"
  shows "VerifyVTXOPath lib (Some key) script t = None \<longleftrightarrow>
     script \<noteq> [] \<and> Verify lib (Some (t\<lparr>tr_root := Some m\<rparr>)) = None \<and>
     validateNodeChildScripts lib (tr_sweepTapscriptRoot t) m = None \<and>
     (\<exists>lf. GetLeafNodes m = [lf] \<and> check_vtxo_leaf script lf = None)"
proof -
  have "\<forall>node \<in> set (NodesIter m). ContainsCosigner (tn_coSigners node) key"
    using extract_keyed [OF assms(2)] by (auto simp: ContainsCosigner_def)
  then show ?thesis
    using assms by (simp add: VerifyVTXOPath_def ExtractTree_one ValidateChildScripts_def split: list.split)
qed

lemma VerifyVTXOPath_extracts:
  assumes "VerifyVTXOPath lib (Some key) script t = None"
  obtains root m where "tr_root t = Some root" "ExtractPathForCoSigners [key] root = Some m"
  using assms by (auto simp: VerifyVTXOPath_def ExtractTree_one split: if_splits option.splits)

lemma ValidatePath_Inr_iff:
  "ValidatePath lib (Some key) leaf (Some operator) (Some t) = Inr ct \<longleftrightarrow>
     lf_pkScript leaf \<noteq> [] \<and> (\<exists>m. client_path lib key leaf operator t m \<and> ct = t\<lparr>tr_root := Some m\<rparr>)"
    (is "?V \<longleftrightarrow> ?P")
proof
  assume ?V
  then have path: "VerifyVTXOPath lib (Some key) (lf_pkScript leaf) t = None"
    by (simp add: ValidatePath_def split: option.splits)
  obtain root m where root: "tr_root t = Some root" and m: "ExtractPathForCoSigners [key] root = Some m"
    using VerifyVTXOPath_extracts [OF path] .
  show ?P
    using \<open>?V\<close> path
    by (auto simp: VerifyVTXOPath_None_iff [OF root m] ValidatePath_def ExtractTree_one root m Verify_None_iff
        check_vtxo_leaf_None client_path_def ContainsCosigner_def split: if_splits)
next
  assume ?P
  then obtain m where "client_path lib key leaf operator t m" and ct: "ct = t\<lparr>tr_root := Some m\<rparr>"
    and ne: "lf_pkScript leaf \<noteq> []"
    by blast
  then obtain root where root: "tr_root t = Some root" and m: "ExtractPathForCoSigners [key] root = Some m"
    and rest: "client_path lib key leaf operator t m"
    by (auto simp: client_path_def)
  have path: "VerifyVTXOPath lib (Some key) (lf_pkScript leaf) t = None"
    using rest ne root m
    by (auto simp: VerifyVTXOPath_None_iff [OF root m] Verify_None_iff check_vtxo_leaf_None client_path_def)
  show ?V
    using rest path root m ct
    by (auto simp: ValidatePath_def ExtractTree_one client_path_def ContainsCosigner_def)
qed

text \<open>
  A path that the client accepts, with the output that funds its first node bound to the
  cosigners, is a funded path that ends in the client's leaf.
\<close>

lemma client_path_funded:
  assumes "client_path lib key leaf operator t m" and "tr_batchOutput t = Some out"
    and "childScript lib (tr_sweepTapscriptRoot t) m = Inr (out_pkScript out)"
  shows "funded_path lib (tr_sweepTapscriptRoot t) (tr_batchOutpoint t) out (NodesIter m) \<and>
     (\<forall>node \<in> set (NodesIter m). key \<in> set (tn_coSigners node)) \<and>
     operator \<in> set (tn_coSigners (last (NodesIter m))) \<and>
     (\<exists>anchor. tn_outputs (last (NodesIter m)) =
        [Some \<lparr>out_value = lf_amount leaf, out_pkScript = lf_pkScript leaf\<rparr>, Some anchor] \<and> out_value anchor = 0)"
proof -
  obtain root lf vtxo anchor where m: "ExtractPathForCoSigners [key] root = Some m"
    and v: "validateNodeValueConservation lib m (tr_batchOutpoint t) (out_value out) = None"
    and s: "validateNodeChildScripts lib (tr_sweepTapscriptRoot t) m = None"
    and lf: "GetLeafNodes m = [lf]" "tn_outputs lf = [Some vtxo, Some anchor]" "out_value anchor = 0"
    and leaf: "out_pkScript vtxo = lf_pkScript leaf" "out_value vtxo = lf_amount leaf"
    and op: "operator \<in> set (tn_coSigners lf)"
    using assms(1,2) by (auto simp: client_path_def)
  have vtxo: "vtxo = \<lparr>out_value = lf_amount leaf, out_pkScript = lf_pkScript leaf\<rparr>"
    using leaf by simp
  show ?thesis
    using single_leaf_path_funded [OF v s assms(3) lf(1)] extract_keyed [OF m] lf(2,3) op vtxo by auto
qed

end
