(* ===== verification/Tree_Walks.thy ===== *)
theory Tree_Walks
  imports Tree_Facts Ark_Codec_Facts
begin

text \<open>
  The walks over a transaction tree that change or index it: storing and verifying the
  signatures of every transaction, selecting leaves by index, and listing the transaction
  ids breadth first.
\<close>

section \<open>Children in order\<close>

lemma insort_key_map_fst:
  "insort_key fst (i, f i c) (map (\<lambda>(i, c). (i, f i c)) xs) = map (\<lambda>(i, c). (i, f i c)) (insort_key fst (i, c) xs)"
  by (induction xs) auto

lemma sort_key_map_fst: "sort_key fst (map (\<lambda>(i, c). (i, f i c)) xs) = map (\<lambda>(i, c). (i, f i c)) (sort_key fst xs)"
proof (induction xs)
  case (Cons x xs)
  then show ?case
    by (cases x) (simp add: insort_key_map_fst)
qed simp

lemma in_order_map: "in_order (map (\<lambda>(i, c). (i, f i c)) xs) = map (\<lambda>(i, c). f i c) (sort_key fst xs)"
  unfolding in_order_def sort_key_map_fst by (simp add: case_prod_unfold)

lemma sort_key_sorted: "sorted (map f xs) \<Longrightarrow> sort_key f xs = xs"
  by (induction xs) (auto simp: insort_is_Cons)

lemma sort_key_idem [simp]: "sort_key f (sort_key f xs) = sort_key f xs"
  by (simp add: sort_key_sorted)

lemma sort_key_map_sorted [simp]:
  "sort_key fst (map (\<lambda>(i, c). (i, f i c)) (sort_key fst xs)) = map (\<lambda>(i, c). (i, f i c)) (sort_key fst xs)"
  by (simp add: sort_key_map_fst)

lemma NodesIter_eq:
  "NodesIter (TreeNode inp outs cos chs amt sg fk) =
     TreeNode inp outs cos chs amt sg fk # concat (map (\<lambda>(i, c). NodesIter c) (sort_key fst chs))"
  by (simp add: in_order_map)

lemma GetLeafNodes_eq:
  "GetLeafNodes (TreeNode inp outs cos chs amt sg fk) =
     (if chs = [] then [TreeNode inp outs cos chs amt sg fk]
      else concat (map (\<lambda>(i, c). GetLeafNodes c) (sort_key fst chs)))"
  by (simp add: in_order_map)

section \<open>Signatures\<close>

text \<open>What a node says apart from its children, its amount and its signature.\<close>

definition core :: "treeNode \<Rightarrow> outPoint \<times> txOut option list \<times> pubKey list \<times> pubKey option" where
  "core n = (tn_input n, tn_outputs n, tn_coSigners n, tn_finalKey n)"

lemma submit_children_ok:
  "submit_children rs = (l, None) \<Longrightarrow>
     (\<forall>(i, old, new, e) \<in> set rs. e = None) \<and> l = map (\<lambda>(i, old, new, e). (i, new)) rs"
  by (induction rs arbitrary: l rule: submit_children.induct) (auto split: option.splits prod.splits)

lemma submit_node_ok:
  assumes "submit_node lib sigs n = (n', None)"
  shows "map core (NodesIter n') = map core (NodesIter n) \<and>
     (\<forall>m \<in> set (NodesIter n'). \<exists>txid sig. TXID lib m = Inr txid \<and> sigs txid = Some sig \<and> tn_signature m = Some sig)"
  using assms
proof (induction n arbitrary: n' rule: tree_induct)
  case (Node inp outs cos chs amt sg fk)
  let ?n = "TreeNode inp outs cos chs amt sg fk"
  let ?rs = "sort_key fst (map (\<lambda>(i, c). (i, c, submit_node lib sigs c)) chs)"
  obtain txid sig chs' where txid: "TXID lib ?n = Inr txid" and sig: "sigs txid = Some sig"
    and kids: "submit_children ?rs = (chs', None)" and n': "n' = TreeNode inp outs cos chs' amt (Some sig) fk"
    using Node(2) by (auto split: sum.splits option.splits prod.splits)
  have ok: "snd (submit_node lib sigs c) = None" if "(i, c) \<in> set chs" for i c
    using submit_children_ok [OF kids] that by (fastforce simp: case_prod_unfold)
  have chs': "chs' = map (\<lambda>(i, c). (i, fst (submit_node lib sigs c))) (sort_key fst chs)"
    using submit_children_ok [OF kids] unfolding sort_key_map_fst by (simp add: comp_def case_prod_unfold)
  have IH: "map core (NodesIter (fst (submit_node lib sigs c))) = map core (NodesIter c)"
    "\<forall>m \<in> set (NodesIter (fst (submit_node lib sigs c))).
       \<exists>txid sig. TXID lib m = Inr txid \<and> sigs txid = Some sig \<and> tn_signature m = Some sig" if "(i, c) \<in> set chs" for i c
    using Node(1) [OF that, of "fst (submit_node lib sigs c)"] ok [OF that] by (auto simp: prod_eq_iff)
  have nodes: "NodesIter n' = n' # concat (map (\<lambda>(i, c). NodesIter (fst (submit_node lib sigs c))) (sort_key fst chs))"
    unfolding n' NodesIter_eq chs' sort_key_map_sorted by (simp add: comp_def case_prod_unfold)
  have "map (\<lambda>p. map core (NodesIter (fst (submit_node lib sigs (snd p))))) (sort_key fst chs)
      = map (\<lambda>p. map core (NodesIter (snd p))) (sort_key fst chs)"
    by (rule map_cong [OF refl]) (use IH(1) in force)
  then have "map core (NodesIter n') = map core (NodesIter ?n)"
    unfolding nodes NodesIter_eq
    by (simp add: map_concat comp_def case_prod_unfold del: map_eq_conv) (simp add: core_def n')
  moreover have "TXID lib n' = Inr txid" "tn_signature n' = Some sig"
    using txid TXID_cong [of n' ?n lib] by (simp_all add: n')
  ultimately show ?case
    using sig IH(2) unfolding nodes by (auto simp: case_prod_unfold)
qed

lemma fetcher_loop_cong:
  "map core ns = map core ns' \<Longrightarrow> fetcher_loop lib ns m = fetcher_loop lib ns' m"
proof (induction ns arbitrary: ns' m)
  case (Cons n ns)
  then obtain n' r where ns': "ns' = n' # r" and n: "core n = core n'" and r: "map core ns = map core r"
    by auto
  have "TXID lib n = TXID lib n'" "tn_outputs n = tn_outputs n'"
    using n by (auto simp: core_def intro: TXID_cong)
  moreover have "fetcher_loop lib ns = fetcher_loop lib r"
    using Cons(1) [OF r] by blast
  ultimately show ?case
    by (simp add: ns')
qed simp

lemma hd_NodesIter [simp]: "hd (NodesIter n) = n" "NodesIter n \<noteq> []"
  by (cases n, simp)+

lemma PrevOutputFetcher_cong:
  assumes "map core (NodesIter n') = map core (NodesIter n)"
  shows "PrevOutputFetcher lib n' out = PrevOutputFetcher lib n out"
proof -
  have "core n' = core n"
    using arg_cong [OF assms, of hd] by (simp add: hd_map)
  then show ?thesis
    using fetcher_loop_cong [OF assms] by (simp add: PrevOutputFetcher_def core_def)
qed

lemma parse_signatures_ok:
  "parse_signatures lib sigs = Inr parsed \<Longrightarrow> map_of parsed txid = Some sig \<Longrightarrow>
    \<exists>raw. map_of sigs txid = Some raw \<and> tl_parseSignature lib raw = Inr sig"
  by (induction sigs arbitrary: parsed rule: parse_signatures.induct) (auto split: if_splits)

text \<open>
  A small library and a tree of one branch with two leaves, for the examples: the id of a
  transaction counts its outputs and the output it spends.
\<close>

definition ex_tx_lib :: treeLib where
  "ex_tx_lib =
     \<lparr>tl_ark = ex_ark\<lparr>al_xOnly := \<lambda>k. k\<rparr>,
      tl_txHash = \<lambda>tx. of_nat (length (wt_outs tx)) * 1000 + ucast (op_index (in_prevout (hd (wt_ins tx)))),
      tl_sigHash = \<lambda>tx i f. Inr [of_nat (length (wt_outs tx)), ucast (op_index (in_prevout (hd (wt_ins tx))))],
      tl_parseSignature = \<lambda>b. Inr b, tl_verify = \<lambda>sig h key. sig = h @ key,
      tl_aggregate = \<lambda>keys root. Inr (concat keys, concat (sort_key hd keys) @ root),
      tl_tapOutputKey = \<lambda>key root. key @ root, tl_isPayToTaproot = \<lambda>b. b \<noteq> []\<rparr>"

definition ex_leaf :: "u32 \<Rightarrow> i64 \<Rightarrow> byte \<Rightarrow> treeNode" where
  "ex_leaf i v k = TreeNode \<lparr>op_hash = 3000, op_index = i\<rparr>
     [Some \<lparr>out_value = v, out_pkScript = [0x51, k]\<rparr>, Some AnchorOutput] [[9], [k]] [] v None (Some [k, 9])"

definition ex_root :: treeNode where
  "ex_root = TreeNode \<lparr>op_hash = 7, op_index = 0\<rparr>
     [Some \<lparr>out_value = 600, out_pkScript = [0x51, 2, 9]\<rparr>, Some \<lparr>out_value = 400, out_pkScript = [0x51, 3, 9]\<rparr>,
      Some AnchorOutput] [[9], [2], [3]] [(1, ex_leaf 1 400 3), (0, ex_leaf 0 600 2)] 1000 None (Some [2, 3, 9])"

definition ex_vtxt :: txTree where
  "ex_vtxt = \<lparr>tr_root = Some ex_root, tr_batchOutpoint = \<lparr>op_hash = 7, op_index = 0\<rparr>,
     tr_batchOutput = Some \<lparr>out_value = 1000, out_pkScript = [0x51, 2, 3, 9]\<rparr>, tr_sweepTapscriptRoot = [],
     tr_sweepKey = None, tr_sweepDelay = 0\<rparr>"

lemmas ex_tree_defs = ex_tx_lib_def ex_leaf_def ex_root_def ex_vtxt_def

text \<open>
  C34: When the round's signatures are accepted, every transaction of the tree is left as it
  was and carries the signature sent for its id, and that signature verifies under the node's
  key for the signature hash of the transaction with the tree's outputs and the batch
  output as its previous outputs.
\<close>

theorem accepted_signatures_verify:
  assumes "ValidateAndSubmitSignatures lib sigs t = (t', None)"
  shows "\<exists>root root' fetcher. tr_root t = Some root \<and> t' = t\<lparr>tr_root := Some root'\<rparr> \<and>
     map core (NodesIter root') = map core (NodesIter root) \<and>
     PrevOutputFetcher lib root (tr_batchOutput t) = Inr fetcher \<and>
     (\<forall>m \<in> set (NodesIter root'). \<exists>txid raw sig key h.
        TXID lib m = Inr txid \<and> map_of sigs txid = Some raw \<and> tl_parseSignature lib raw = Inr sig \<and>
        tn_signature m = Some sig \<and> tn_finalKey m = Some key \<and> SigHash lib fetcher m = Inr h \<and> tl_verify lib sig h key)"
proof -
  obtain parsed where parsed: "parse_signatures lib sigs = Inr parsed"
    and submit: "SubmitTreeSigs lib (map_of parsed) t = (t', None)" and signed: "VerifySigned lib t' = None"
    using assms by (auto simp: ValidateAndSubmitSignatures_def split: if_splits sum.splits prod.splits option.splits)
  obtain root root' where root: "tr_root t = Some root" and root': "submit_node lib (map_of parsed) root = (root', None)"
    and t': "t' = t\<lparr>tr_root := Some root'\<rparr>"
    using submit by (auto simp: SubmitTreeSigs_def split: option.splits prod.splits)
  have same: "map core (NodesIter root') = map core (NodesIter root)"
    and stored: "\<And>m. m \<in> set (NodesIter root') \<Longrightarrow>
      \<exists>txid sig. TXID lib m = Inr txid \<and> map_of parsed txid = Some sig \<and> tn_signature m = Some sig"
    using submit_node_ok [OF root'] by blast+
  obtain fetcher where f': "PrevOutputFetcher lib root' (tr_batchOutput t) = Inr fetcher"
    and v: "VerifySignedNode lib fetcher root' = None"
    using signed by (auto simp: VerifySigned_def t' split: sum.splits)
  have f: "PrevOutputFetcher lib root (tr_batchOutput t) = Inr fetcher"
    using f' PrevOutputFetcher_cong [OF same] by simp
  have "\<exists>txid raw sig key h. TXID lib m = Inr txid \<and> map_of sigs txid = Some raw \<and> tl_parseSignature lib raw = Inr sig \<and>
      tn_signature m = Some sig \<and> tn_finalKey m = Some key \<and> SigHash lib fetcher m = Inr h \<and> tl_verify lib sig h key"
    if m: "m \<in> set (NodesIter root')" for m
  proof -
    obtain txid sig where "TXID lib m = Inr txid" "map_of parsed txid = Some sig" and sg: "tn_signature m = Some sig"
      using stored [OF m] by blast
    moreover have "verifyNodeSignature lib fetcher m sig = None"
      using v m sg by (auto simp: VerifySignedNode_def split: option.splits)
    ultimately show ?thesis
      using parse_signatures_ok [OF parsed, of txid sig]
      by (auto simp: verifyNodeSignature_def split: option.splits sum.splits if_splits)
  qed
  then show ?thesis
    using root t' same f by blast
qed

definition ex_tree_sigs :: "(hash \<times> byte list) list" where
  "ex_tree_sigs = [(2000, [2, 0, 2, 9]), (3000, [3, 0, 2, 3, 9]), (2001, [2, 1, 3, 9])]"

theorem accepted_signatures_verify_witness:
  "\<exists>root root' fetcher. tr_root ex_vtxt = Some root \<and>
     fst (ValidateAndSubmitSignatures ex_tx_lib ex_tree_sigs ex_vtxt) = ex_vtxt\<lparr>tr_root := Some root'\<rparr> \<and>
     map core (NodesIter root') = map core (NodesIter root) \<and>
     PrevOutputFetcher ex_tx_lib root (tr_batchOutput ex_vtxt) = Inr fetcher \<and>
     (\<forall>m \<in> set (NodesIter root'). \<exists>txid raw sig key h.
        TXID ex_tx_lib m = Inr txid \<and> map_of ex_tree_sigs txid = Some raw \<and>
        tl_parseSignature ex_tx_lib raw = Inr sig \<and> tn_signature m = Some sig \<and> tn_finalKey m = Some key \<and>
        SigHash ex_tx_lib fetcher m = Inr h \<and> tl_verify ex_tx_lib sig h key)"
proof (rule accepted_signatures_verify)
  have "snd (ValidateAndSubmitSignatures ex_tx_lib ex_tree_sigs ex_vtxt) = None"
    by (simp add: ValidateAndSubmitSignatures_def SubmitTreeSigs_def VerifySigned_def VerifySignedNode_def ex_tree_defs
        ex_tree_sigs_def TXID_def ToTx_def PrevOutputFetcher_def verifyNodeSignature_def SigHash_def in_order_def del: ForEach_None)
  then show "ValidateAndSubmitSignatures ex_tx_lib ex_tree_sigs ex_vtxt =
      (fst (ValidateAndSubmitSignatures ex_tx_lib ex_tree_sigs ex_vtxt), None)"
    by (simp add: prod_eq_iff)
qed

section \<open>Leaves by index\<close>

text \<open>
  The loop of \<open>extractPathForIndicesRecursive\<close> looks at the outputs before the last one, which
  is the anchor of a branch.
\<close>

definition children_below_anchor :: "treeNode \<Rightarrow> bool" where
  "children_below_anchor n \<longleftrightarrow>
     (\<forall>m \<in> set (NodesIter n). \<forall>(i, c) \<in> set (tn_children m). i < of_nat (length (tn_outputs m)) - 1)"

lemma children_below_child:
  "children_below_anchor n \<Longrightarrow> (i, c) \<in> set (tn_children n) \<Longrightarrow> children_below_anchor c"
  unfolding children_below_anchor_def using NodesIter_child by blast

definition selected :: "int list \<Rightarrow> nat \<Rightarrow> 'a list \<Rightarrow> 'a list" where
  "selected targets k xs = nths xs {j. int (k + j) \<in> set targets}"

lemma selected_append: "selected targets k (xs @ ys) = selected targets k xs @ selected targets (k + length xs) ys"
  by (simp add: selected_def nths_append ac_simps)

lemma selected_Nil [simp]: "selected targets k [] = []"
  by (simp add: selected_def)

lemma selected_map: "map f (selected targets k xs) = selected targets k (map f xs)"
  by (simp add: selected_def nths_map)

text \<open>What the recursion gives for a subtree whose first leaf has the index \<open>k\<close>.\<close>

definition selects :: "int list \<Rightarrow> treeNode \<Rightarrow> nat \<Rightarrow> treeNode option \<times> nat \<Rightarrow> bool" where
  "selects targets n k r \<longleftrightarrow> snd r = k + countLeaves n \<and>
     (case fst r of
        None \<Rightarrow> selected targets k (GetLeafNodes n) = []
      | Some m \<Rightarrow> map core (GetLeafNodes m) = map core (selected targets k (GetLeafNodes n)) \<and> core m = core n)"

lemma GetLeafNodes_ne [simp]: "GetLeafNodes n \<noteq> []"
  using countLeaves_pos [of n] by (auto simp: countLeaves_eq)

definition walk_selects :: "int list \<Rightarrow> (u32 \<times> treeNode) list \<Rightarrow> nat \<Rightarrow> (u32 \<times> treeNode) list \<times> nat \<Rightarrow> bool" where
  "walk_selects targets cs k r \<longleftrightarrow>
     snd r = k + sum_list (map (\<lambda>(i, c). countLeaves c) cs) \<and>
     concat (map (\<lambda>(i, c). map core (GetLeafNodes c)) (fst r)) =
       map core (selected targets k (concat (map (\<lambda>(i, c). GetLeafNodes c) cs))) \<and>
     sorted (map fst (fst r)) \<and> fst ` set (fst r) \<subseteq> fst ` set cs"

lemma walk_selects_step:
  assumes "selects targets c k r" and "walk_selects targets cs (snd r) (rest, k')" and "sorted (i # map fst cs)"
  shows "walk_selects targets ((i, c) # cs) k ((case fst r of None \<Rightarrow> rest | Some m \<Rightarrow> (i, m) # rest), k')"
proof (cases "fst r")
  case None
  then show ?thesis
    using assms by (auto simp: walk_selects_def selects_def selected_append countLeaves_eq)
next
  case (Some m)
  have "fst ` set rest \<subseteq> fst ` set cs" "\<forall>x \<in> fst ` set cs. i \<le> x"
    using assms(2,3) by (auto simp: walk_selects_def)
  then have "\<forall>x \<in> fst ` set rest. i \<le> x"
    by blast
  then show ?thesis
    using assms Some by (auto simp: walk_selects_def selects_def selected_append countLeaves_eq)
qed

lemma index_walk_selects:
  assumes "\<And>i c k. (i, c) \<in> set cs \<Longrightarrow> selects targets c k (f c k)" and "sorted (map fst cs)"
  shows "walk_selects targets cs k (index_walk (map (\<lambda>(i, c). (i, f c)) cs) k)"
  using assms
proof (induction cs arbitrary: k)
  case (Cons p cs)
  obtain i c where p: "p = (i, c)" by fastforce
  have sel: "selects targets c k (f c k)"
    using Cons(2) [of i c k] p by simp
  obtain rest k' where rest: "index_walk (map (\<lambda>(i, c). (i, f c)) cs) (snd (f c k)) = (rest, k')"
    by fastforce
  have "walk_selects targets cs (snd (f c k)) (rest, k')"
    unfolding rest [symmetric]
  proof (rule Cons(1))
    show "selects targets c k (f c k)" if "(i, c) \<in> set cs" for i c k
      using Cons(2) [of i c k] that by simp
  qed (use Cons(3) in simp)
  from walk_selects_step [OF sel this, of i] show ?case
    using Cons(3) rest by (cases "f c k") (auto simp: p split: option.splits)
qed (simp add: walk_selects_def)

lemma extract_indices_selects:
  "children_below_anchor n \<Longrightarrow> selects targets n k (extractPathForIndicesRecursive targets n k)"
proof (induction n arbitrary: k rule: tree_induct)
  case (Node inp outs cos chs amt sg fk)
  let ?n = "TreeNode inp outs cos chs amt sg fk" and ?limit = "of_nat (length outs) - 1 :: u32"
  show ?case
  proof (cases "chs = []")
    case True
    then show ?thesis
      by (auto simp: selects_def selected_def core_def)
  next
    case False
    have "i < ?limit" if "(i, c) \<in> set chs" for i c
      using Node(2) that unfolding children_below_anchor_def by (force simp: split_beta)
    then have all: "filter (\<lambda>(i, _). i < ?limit) (map (\<lambda>(i, c). (i, extractPathForIndicesRecursive targets c)) chs)
        = map (\<lambda>(i, c). (i, extractPathForIndicesRecursive targets c)) chs"
      by (auto simp: filter_id_conv)
    obtain kids k' where walk:
      "index_walk (map (\<lambda>(i, c). (i, extractPathForIndicesRecursive targets c)) (sort_key fst chs)) k = (kids, k')"
      by fastforce
    have "walk_selects targets (sort_key fst chs) k (kids, k')"
      unfolding walk [symmetric]
    proof (rule index_walk_selects)
      show "selects targets c k (extractPathForIndicesRecursive targets c k)" if "(i, c) \<in> set (sort_key fst chs)" for i c k
        using Node(1) [of i c] children_below_child [OF Node(2), of i c] that by simp
    qed simp
    moreover have "extractPathForIndicesRecursive targets ?n k =
        (if kids = [] then None else Some (TreeNode inp outs cos kids 0 sg fk), k')"
      using False walk by (simp add: all sort_key_map_fst)
    moreover have "sum_list (map (\<lambda>(i, c). countLeaves c) (sort_key fst chs)) = countLeaves ?n"
      using False by (simp add: sum_mset_sum_list [symmetric])
    ultimately show ?thesis
      using False
      by (auto simp: selects_def walk_selects_def GetLeafNodes_eq sort_key_sorted map_concat comp_def case_prod_unfold core_def
          simp del: GetLeafNodes.simps countLeaves.simps)
  qed
qed

text \<open>
  Selecting leaves by index returns exactly those leaves, in their order: for a tree whose
  children hang below its anchors, the call succeeds if and only if there is an index and every
  index is that of a leaf, and the leaves of the tree it returns are the ones at these indices.
\<close>

lemma ExtractPathForIndices_selects:
  assumes "children_below_anchor n"
  shows "(okR (ExtractPathForIndices targets n) \<longleftrightarrow>
       targets \<noteq> [] \<and> (\<forall>j \<in> set targets. 0 \<le> j \<and> j < int (length (GetLeafNodes n)))) \<and>
     (\<forall>m. ExtractPathForIndices targets n = Inr m \<longrightarrow>
       map core (GetLeafNodes m) = map core (nths (GetLeafNodes n) {j. int j \<in> set targets}))"
proof -
  let ?range = "\<forall>j \<in> set targets. 0 \<le> j \<and> j < int (length (GetLeafNodes n))"
  have sel: "selects targets n 0 (extractPathForIndicesRecursive targets n 0)"
    by (rule extract_indices_selects [OF assms])
  have some: "fst (extractPathForIndicesRecursive targets n 0) \<noteq> None" if ne: "targets \<noteq> []" and range: ?range
  proof
    assume none: "fst (extractPathForIndicesRecursive targets n 0) = None"
    obtain j where "j \<in> set targets" "0 \<le> j" "j < int (length (GetLeafNodes n))"
      using ne range by (cases targets) auto
    then have "GetLeafNodes n ! nat j \<in> set (nths (GetLeafNodes n) {j. int j \<in> set targets})"
      by (auto simp: set_nths intro!: exI [of _ "nat j"])
    then show False
      using sel none by (auto simp: selects_def selected_def)
  qed
  let ?e = "firstErr (\<lambda>idx. if idx < 0 then Some (TreeError ''leaf index must be non-negative'')
      else if idx \<ge> int (countLeaves n) then Some (TreeError ''leaf index out of bounds'') else None) targets"
  have e: "?e = None \<longleftrightarrow> ?range"
    by (auto simp: countLeaves_eq split: if_splits)
  show ?thesis
  proof (cases "targets \<noteq> [] \<and> ?range")
    case True
    then obtain m where "fst (extractPathForIndicesRecursive targets n 0) = Some m"
      using some by auto
    then show ?thesis
      using sel True e by (cases "extractPathForIndicesRecursive targets n 0")
        (auto simp: ExtractPathForIndices_def Let_def selects_def selected_def simp del: firstErr_None)
  next
    case False
    then show ?thesis
      using e by (cases ?e) (auto simp: ExtractPathForIndices_def Let_def simp del: firstErr_None)
  qed
qed

section \<open>The index of transaction ids\<close>

declare extract_loop.simps [simp del]

text \<open>The nodes of a subtree with their depth below a root at level \<open>l\<close>.\<close>

fun leveled_nodes :: "nat \<Rightarrow> treeNode \<Rightarrow> (treeNode \<times> nat) list" where
  "leveled_nodes l (TreeNode inp outs cos chs amt sg fk) =
     (TreeNode inp outs cos chs amt sg fk, l) # concat (map (\<lambda>(i, c). leveled_nodes (l + 1) c) chs)"

definition entry_of :: "treeLib \<Rightarrow> treeNode \<times> nat \<Rightarrow> txidEntry" where
  "entry_of lib p =
     \<lparr>te_txid = projr (TXID lib (fst p)), te_treeLevel = snd p, te_outputIndex = op_index (tn_input (fst p))\<rparr>"

lemma leveled_nodes_eq:
  "leveled_nodes l n = (n, l) # concat (map (\<lambda>(i, c). leveled_nodes (l + 1) c) (tn_children n))"
  by (cases n) simp

lemma leveled_nodes_ne [simp]: "leveled_nodes l n \<noteq> []"
  by (cases n) simp

lemma leveled_nodes_set: "fst ` set (leveled_nodes l n) = set (NodesIter n)"
proof (induction n arbitrary: l rule: tree_induct)
  case (Node inp outs cos chs amt sg fk)
  have "fst ` set (leveled_nodes l (TreeNode inp outs cos chs amt sg fk)) =
      insert (TreeNode inp outs cos chs amt sg fk) (\<Union>(i, c) \<in> set chs. fst ` set (leveled_nodes (l + 1) c))"
    by (auto simp: image_iff split_beta)
  also have "\<dots> = set (NodesIter (TreeNode inp outs cos chs amt sg fk))"
  proof -
    have "fst ` set (leveled_nodes (l + 1) (snd x)) = set (NodesIter (snd x))" if "x \<in> set chs" for x
      using Node [of "fst x" "snd x"] that by simp
    then show ?thesis
      unfolding set_NodesIter [of "TreeNode inp outs cos chs amt sg fk"] by (simp add: split_beta)
  qed
  finally show ?case .
qed

definition queued :: "(treeNode \<times> nat) queue \<Rightarrow> (treeNode \<times> nat) list" where
  "queued q = concat (map (\<lambda>(n, l). leveled_nodes l n) (items q))"

definition bfs_levels :: "nat list \<Rightarrow> bool" where
  "bfs_levels ls \<longleftrightarrow> sorted ls \<and> (\<forall>x \<in> set ls. x \<le> hd ls + 1)"

lemma bfs_levels_step: "bfs_levels (l # ls) \<Longrightarrow> bfs_levels (ls @ replicate k (l + 1))"
  by (cases ls) (auto simp: bfs_levels_def sorted_append)

lemma enqueue_children:
  "fold (\<lambda>(_, child). Enqueue (child, l)) chs q = \<lparr>items = items q @ map (\<lambda>(_, c). (c, l)) chs\<rparr>"
  using items_enqueue_children [of l chs q]
  by (cases "fold (\<lambda>(_, child). Enqueue (child, l)) chs q") simp

lemma extract_loop_Nil: "items q = [] \<Longrightarrow> extract_loop lib q es = Inr es"
  by (subst extract_loop.simps) (simp add: Dequeue_def)

lemma extract_loop_Cons:
  "items q = (n, l) # rest \<Longrightarrow> extract_loop lib q es =
     (case TXID lib n of
        Inl e \<Rightarrow> Inl e
      | Inr txid \<Rightarrow>
          extract_loop lib \<lparr>items = rest @ map (\<lambda>(_, c). (c, l + 1)) (tn_children n)\<rparr> (es @ [entry_of lib (n, l)]))"
  by (subst extract_loop.simps, cases "TXID lib n")
    (simp_all add: Dequeue_def enqueue_children entry_of_def)

lemma queued_Cons:
  assumes "items q = (n, l) # rest"
  shows "mset (queued q) = add_mset (n, l) (mset (queued \<lparr>items = rest @ map (\<lambda>(_, c). (c, l + 1)) (tn_children n)\<rparr>))"
  by (simp add: queued_def assms leveled_nodes_eq [of l n] comp_def case_prod_unfold)

lemma extract_loop_ok:
  "okR (extract_loop lib q es) \<longleftrightarrow> (\<forall>p \<in> set (queued q). okR (TXID lib (fst p)))"
proof (induction "length (queued q)" arbitrary: q es)
  case 0
  then have "items q = []"
    by (cases "items q") (auto simp: queued_def)
  then show ?case
    by (simp add: extract_loop_Nil queued_def)
next
  case (Suc k)
  then obtain n l rest where q: "items q = (n, l) # rest"
    by (cases "items q") (auto simp: queued_def)
  let ?q = "\<lparr>items = rest @ map (\<lambda>(_, c). (c, l + 1)) (tn_children n)\<rparr>"
  have "k = length (queued ?q)" "set (queued q) = insert (n, l) (set (queued ?q))"
    using Suc(2) arg_cong [OF queued_Cons [OF q], of size] arg_cong [OF queued_Cons [OF q], of set_mset] by auto
  then show ?case
    using Suc(1) [of ?q] by (cases "TXID lib n") (auto simp: extract_loop_Cons [OF q])
qed

lemma extract_loop_lists:
  assumes "bfs_levels (map snd (items q))" and "extract_loop lib q es = Inr res"
  shows "\<exists>added. res = es @ added \<and> mset added = mset (map (entry_of lib) (queued q)) \<and>
     sorted (map te_treeLevel added) \<and> (\<forall>e \<in> set added. hd (map snd (items q)) \<le> te_treeLevel e)"
  using assms
proof (induction "length (queued q)" arbitrary: q es)
  case 0
  then have "items q = []"
    by (cases "items q") (auto simp: queued_def)
  then show ?case
    using 0 by (simp add: extract_loop_Nil queued_def)
next
  case (Suc k)
  then obtain n l rest where q: "items q = (n, l) # rest"
    by (cases "items q") (auto simp: queued_def)
  let ?q = "\<lparr>items = rest @ map (\<lambda>(_, c). (c, l + 1)) (tn_children n)\<rparr>"
  have k: "k = length (queued ?q)"
    using Suc(2) arg_cong [OF queued_Cons [OF q], of size] by simp
  have levels: "map snd (items ?q) = map snd rest @ replicate (length (tn_children n)) (l + 1)"
    by (simp add: comp_def case_prod_unfold map_replicate_const)
  have bfs: "bfs_levels (map snd (items ?q))"
    unfolding levels using Suc(3) by (intro bfs_levels_step) (simp add: q)
  have rest: "extract_loop lib ?q (es @ [entry_of lib (n, l)]) = Inr res"
    using Suc(4) by (simp add: extract_loop_Cons [OF q] split: sum.splits)
  obtain added where added: "res = (es @ [entry_of lib (n, l)]) @ added"
    "mset added = mset (map (entry_of lib) (queued ?q))" "sorted (map te_treeLevel added)"
    "\<forall>e \<in> set added. hd (map snd (items ?q)) \<le> te_treeLevel e"
    using Suc(1) [OF k bfs rest] by blast
  have "l \<le> te_treeLevel e" if "e \<in> set added" for e
  proof -
    have "map snd (items ?q) \<noteq> []"
      using that added(2) by (auto simp: queued_def)
    then have "l \<le> hd (map snd (items ?q))"
      using Suc(3) unfolding levels by (cases rest) (auto simp: q bfs_levels_def)
    then show ?thesis
      using added(4) that by force
  qed
  then show ?case
    using added queued_Cons [OF q]
    by (intro exI [of _ "entry_of lib (n, l) # added"]) (auto simp: q entry_of_def)
qed

text \<open>
  The index of a tree's transactions lists every node exactly once, with its id, its depth
  and the output of its parent that it spends, level by level from the root; it fails
  only where a transaction cannot be made because an output is nil.
\<close>

lemma ExtractTxids_lists_tree:
  "(\<forall>es. ExtractTxids lib (Some t) = Inr es \<and> tr_root t = Some root \<longrightarrow>
      mset es = mset (map (entry_of lib) (leveled_nodes 0 root)) \<and> sorted (map te_treeLevel es)) \<and>
   (tr_root t = Some root \<longrightarrow>
      (okR (ExtractTxids lib (Some t)) \<longleftrightarrow> (\<forall>n \<in> set (NodesIter root). None \<notin> set (tn_outputs n))))"
proof -
  let ?q = "Enqueue (root, 0) NewQueue"
  have items: "items ?q = [(root, 0)]" and queued: "queued ?q = leveled_nodes 0 root"
    by (simp_all add: Enqueue_def NewQueue_def queued_def)
  have "(\<forall>p \<in> set (leveled_nodes 0 root). okR (TXID lib (fst p))) \<longleftrightarrow> (\<forall>n \<in> set (NodesIter root). okR (TXID lib n))"
    unfolding leveled_nodes_set [of 0 root, symmetric] by simp
  then have ok: "okR (extract_loop lib ?q []) \<longleftrightarrow> (\<forall>n \<in> set (NodesIter root). None \<notin> set (tn_outputs n))"
    by (simp add: extract_loop_ok queued) (simp add: TXID_def ToTx_def okR_def split: if_splits)
  have "mset es = mset (map (entry_of lib) (leveled_nodes 0 root)) \<and> sorted (map te_treeLevel es)"
    if "extract_loop lib ?q [] = Inr es" for es
    using extract_loop_lists [OF _ that] by (auto simp: items queued bfs_levels_def)
  then show ?thesis
    using ok by (auto simp: ExtractTxids_def)
qed

end
