(* ===== verification/Tree_Build_Facts.thy ===== *)
theory Tree_Build_Facts
  imports Tree_Partition Tree_Walks
begin

text \<open>
  Pass one of the tree builder: when the recursion over the groups ends, and the shape it
  gives. Every leaf descriptor becomes one leaf, the cosigners of a node are those of its
  leaves, and its amount is their sum.
\<close>

section \<open>When the recursion ends\<close>

lemma build_groups_None: "build_groups rs = None \<Longrightarrow> None \<in> snd ` set rs"
  by (induction rs rule: build_groups.induct) (auto split: option.splits sum.splits)

lemma build_groups_stuck:
  "None \<in> snd ` set rs \<Longrightarrow> (\<And>e. Some (Inl e) \<notin> snd ` set rs) \<Longrightarrow> build_groups rs = None"
  by (induction rs rule: build_groups.induct) (auto split: option.splits sum.splits)

lemma build_groups_Inl: "build_groups rs = Some (Inl e) \<Longrightarrow> Some (Inl e) \<in> snd ` set rs"
  by (induction rs rule: build_groups.induct) (auto simp: bindR_eq_Inl split: option.splits sum.splits)

lemma build_groups_Inr: "build_groups rs = Some (Inr l) \<longleftrightarrow> rs = map (\<lambda>(i, c). (i, Some (Inr c))) l"
proof (induction rs arbitrary: l)
  case (Cons p rs)
  then show ?case
    by (cases p) (auto simp: Cons_eq_map_conv split: option.splits sum.splits)
qed auto

lemma build_groups_mono:
  assumes "\<And>x y. x \<in> set xs \<Longrightarrow> f x = Some y \<Longrightarrow> f' x = Some y"
    and "build_groups (map (\<lambda>x. (k x, f x)) xs) = Some r"
  shows "build_groups (map (\<lambda>x. (k x, f' x)) xs) = Some r"
  using assms by (induction xs arbitrary: r) (auto split: option.splits sum.splits)

text \<open>The groups the loop visits; no group of a partition is skipped as empty.\<close>

lemma filter_enumerate_nonempty:
  "[] \<notin> set gs \<Longrightarrow> filter (\<lambda>(_, g). g \<noteq> []) (enumerate k gs) = enumerate k gs"
  by (induction gs arbitrary: k) auto

lemma visited_groups: "snd ` set (map (\<lambda>(i, g). (k i, F g)) (enumerate j gs)) = F ` set gs"
  by (induction gs arbitrary: j) auto

lemma groups_visit_None:
  "build_groups (map (\<lambda>(i, g). (k i, F g)) (enumerate j gs)) = None \<Longrightarrow> \<exists>g \<in> set gs. F g = None"
  by (drule build_groups_None) (unfold visited_groups, force)

lemma visit_Inl:
  "build_groups (map (\<lambda>(i, g). (k i, F g)) (enumerate j gs)) = Some (Inl e) \<Longrightarrow> \<exists>g \<in> set gs. F g = Some (Inl e)"
  by (drule build_groups_Inl) (unfold visited_groups, force)

lemma visit_stuck:
  assumes "g \<in> set gs" and "F g = None" and "\<And>g e. g \<in> set gs \<Longrightarrow> F g \<noteq> Some (Inl e)"
  shows "build_groups (map (\<lambda>(i, g). (k i, F g)) (enumerate j gs)) = None"
proof (rule build_groups_stuck; unfold visited_groups)
  show "None \<in> F ` set gs"
    using assms(1,2) by force
  show "Some (Inl e) \<notin> F ` set gs" for e
    by (metis assms(3) imageE)
qed

lemma build_step:
  assumes "2 \<le> radix" and "length leaves \<noteq> 1"
  shows "buildStructureRecursive lib op radix wt (Suc fuel) leaves =
     map_option (\<lambda>m. bindR m (\<lambda>children. Inr (branch_structure lib op children)))
       (build_groups (map (\<lambda>(i, g). (of_nat i, buildStructureRecursive lib op radix wt fuel g))
          (enumerate 0 (partitionLeaves leaves radix wt))))"
  using assms leaf_partition.nonempty [OF groups_laws [OF assms(1)], of leaves wt]
  by (simp add: filter_enumerate_nonempty)

lemma build_mono:
  assumes "2 \<le> radix"
  shows "buildStructureRecursive lib op radix wt fuel leaves = Some r \<Longrightarrow>
    buildStructureRecursive lib op radix wt (Suc fuel) leaves = Some r"
proof (induction fuel arbitrary: leaves r)
  case (Suc fuel)
  show ?case
  proof (cases "length leaves = 1")
    case False
    let ?rec = "\<lambda>fuel. map (\<lambda>(i, g). (of_nat i, buildStructureRecursive lib op radix wt fuel g))
        (enumerate 0 (partitionLeaves leaves radix wt))"
    obtain x where x: "build_groups (?rec fuel) = Some x"
      and r: "r = bindR x (\<lambda>children. Inr (branch_structure lib op children))"
      using Suc(2) unfolding build_step [OF assms False] by auto
    have "build_groups (?rec (Suc fuel)) = Some x"
      using x unfolding case_prod_unfold by (rule build_groups_mono [rotated]) (use Suc(1) in blast)
    then show ?thesis
      unfolding build_step [OF assms False] by (simp add: r)
  qed (use Suc(2) in simp)
qed simp

lemma build_mono_le:
  assumes "2 \<le> radix" and "buildStructureRecursive lib op radix wt fuel leaves = Some r" and "fuel \<le> fuel'"
  shows "buildStructureRecursive lib op radix wt fuel' leaves = Some r"
  using assms(3,2) by (induction fuel' rule: dec_induct) (blast intro: build_mono [OF assms(1)])+

lemma group_leaves:
  assumes "2 \<le> radix" and "g \<in> set (partitionLeaves leaves radix wt)"
  shows "set g \<subseteq> set leaves" and "g \<noteq> []"
  using leaf_partition.groups_mset [OF groups_laws [OF assms(1)] assms(2)]
    leaf_partition.nonempty [OF groups_laws [OF assms(1)]] assms(2)
  by (metis mset_subset_eqD set_mset_mset subsetI, metis)

text \<open>As much fuel as there are leaves is enough where every partition makes progress.\<close>

lemma build_returns:
  assumes "2 \<le> radix"
  shows "splits_by wt leaves \<Longrightarrow> leaves \<noteq> [] \<Longrightarrow> length leaves \<le> fuel \<Longrightarrow>
    \<exists>r. buildStructureRecursive lib op radix wt fuel leaves = Some r"
proof (induction fuel arbitrary: leaves)
  case (Suc fuel)
  note laws = groups_laws [OF assms, of wt]
  show ?case
  proof (cases "length leaves = 1")
    case False
    then have two: "2 \<le> length leaves"
      using Suc(3) by (cases leaves rule: remdups_adj.cases) auto
    have "buildStructureRecursive lib op radix wt fuel g \<noteq> None" if g: "g \<in> set (partitionLeaves leaves radix wt)" for g
      using Suc(1) [of g] leaf_partition.hereditary [OF laws Suc(2) g] group_leaves(2) [OF assms g]
        leaf_partition.group_smaller [OF laws Suc(2) two g] Suc(4) by auto
    then have "build_groups (map (\<lambda>(i, g). (of_nat i, buildStructureRecursive lib op radix wt fuel g))
        (enumerate 0 (partitionLeaves leaves radix wt))) \<noteq> None"
      using groups_visit_None by blast
    then show ?thesis
      unfolding build_step [OF assms False] by auto
  qed simp
qed simp

definition all_keyed :: "leafDescriptor list \<Rightarrow> bool" where
  "all_keyed leaves \<longleftrightarrow> (\<forall>l \<in> set leaves. lf_coSignerKey l \<noteq> None)"

lemma build_no_error:
  assumes "2 \<le> radix"
  shows "all_keyed leaves \<Longrightarrow> leaves \<noteq> [] \<Longrightarrow> buildStructureRecursive lib op radix wt fuel leaves \<noteq> Some (Inl e)"
proof (induction fuel arbitrary: leaves)
  case (Suc fuel)
  show ?case
  proof (cases "length leaves = 1")
    case True
    then show ?thesis
      using Suc(2) by (cases leaves) (auto simp: buildLeafStructure_def all_keyed_def)
  next
    case False
    have "buildStructureRecursive lib op radix wt fuel g \<noteq> Some (Inl e)"
      if g: "g \<in> set (partitionLeaves leaves radix wt)" for g
      using Suc(1) [of g] group_leaves [OF assms g] Suc(2) by (auto simp: all_keyed_def)
    then have "build_groups (map (\<lambda>(i, g). (of_nat i, buildStructureRecursive lib op radix wt fuel g))
        (enumerate 0 (partitionLeaves leaves radix wt))) \<noteq> Some (Inl e)"
      using visit_Inl by blast
    then show ?thesis
      unfolding build_step [OF assms False] by (auto simp: bindR_eq_Inl)
  qed
qed simp

text \<open>Two leaves of no weight are never separated, so the recursion does not return.\<close>

lemma build_stuck:
  assumes "2 \<le> radix"
  shows "all_keyed leaves \<Longrightarrow> 2 \<le> length (weightless f leaves) \<Longrightarrow>
    buildStructureRecursive lib op radix (Some f) fuel leaves = None"
proof (induction fuel arbitrary: leaves)
  case (Suc fuel)
  have len: "length leaves \<noteq> 1"
    using Suc(3) length_filter_le [of "\<lambda>l. sint (f l) \<le> 0" leaves] unfolding weightless_def by linarith
  have "0 < radix" "weightless f leaves \<noteq> []"
    using assms Suc(3) by auto
  then obtain g where g: "g \<in> set (partitionLeaves leaves radix (Some f))"
    and wl: "mset (weightless f g) = mset (weightless f leaves)"
    using weightless_together [of radix f leaves] by (auto simp: partitionLeaves_def)
  have keyed: "all_keyed h" "h \<noteq> []" if "h \<in> set (partitionLeaves leaves radix (Some f))" for h
    using group_leaves [OF assms that] Suc(2) by (auto simp: all_keyed_def)
  have "length (weightless f g) = length (weightless f leaves)"
    using arg_cong [OF wl, of size] by simp
  then have "buildStructureRecursive lib op radix (Some f) fuel g = None"
    using Suc(1) [of g] keyed [OF g] Suc(3) by simp
  then have "build_groups (map (\<lambda>(i, g). (of_nat i, buildStructureRecursive lib op radix (Some f) fuel g))
      (enumerate 0 (partitionLeaves leaves radix (Some f)))) = None"
    using visit_stuck [OF g] keyed build_no_error [OF assms] by blast
  then show ?case
    unfolding build_step [OF assms len] by simp
qed simp

text \<open>
  C35: Building the structure of a tree returns if and only if at most one leaf has a weight that
  is not positive, and then as much fuel as there are leaves suffices: with two leaves
  of zero amount the recursion does not end, because the weighted partition never
  separates them.
\<close>

theorem BuildStructure_returns_iff:
  assumes "2 \<le> radix" and "leaves \<noteq> []" and "\<forall>l \<in> set leaves. lf_coSignerKey l \<noteq> None"
  shows "((\<exists>fuel r. BuildStructure lib op radix None fuel leaves = Some r) \<longleftrightarrow>
       length (filter (\<lambda>l. sint (lf_amount l) \<le> 0) leaves) \<le> 1) \<and>
     (\<forall>fuel fuel' r. BuildStructure lib op radix None fuel leaves = Some r \<and> length leaves \<le> fuel' \<longrightarrow>
       BuildStructure lib op radix None fuel' leaves = Some r)"
proof -
  let ?rec = "buildStructureRecursive lib op radix (Some WeightByBtcAmount)"
  have B: "BuildStructure lib op radix None fuel leaves =
      map_option (\<lambda>m. bindR m (\<lambda>root. Inr (Some root))) (?rec fuel leaves)" for fuel
    using assms(2) by (simp add: BuildStructure_def)
  have keyed: "all_keyed leaves"
    using assms(3) by (simp add: all_keyed_def)
  have wl: "weightless WeightByBtcAmount leaves = filter (\<lambda>l. sint (lf_amount l) \<le> 0) leaves"
    by (simp add: weightless_def WeightByBtcAmount_def)
  have stuck: "?rec fuel leaves = None" if "\<not> length (weightless WeightByBtcAmount leaves) \<le> 1" for fuel
    by (rule build_stuck [OF assms(1) keyed]) (use that in simp)
  have enough: "\<exists>r. ?rec fuel leaves = Some r" if "length (weightless WeightByBtcAmount leaves) \<le> 1" "length leaves \<le> fuel" for fuel
    by (rule build_returns [OF assms(1) _ assms(2) that(2)]) (use that(1) in \<open>simp add: splits_by_def\<close>)
  have same: "?rec fuel' leaves = Some r" if r: "?rec fuel leaves = Some r" and f: "length leaves \<le> fuel'" for fuel fuel' r
  proof -
    have "length (weightless WeightByBtcAmount leaves) \<le> 1"
      using r stuck [of fuel] by (metis option.distinct(1))
    then obtain r' where r': "?rec fuel' leaves = Some r'"
      using enough f by blast
    have "?rec (max fuel fuel') leaves = Some r" "?rec (max fuel fuel') leaves = Some r'"
      by (rule build_mono_le [OF assms(1) r], simp) (rule build_mono_le [OF assms(1) r'], simp)
    then show ?thesis
      using r' by simp
  qed
  have iff: "(\<exists>fuel r. ?rec fuel leaves = Some r) \<longleftrightarrow> length (weightless WeightByBtcAmount leaves) \<le> 1"
  proof
    show "length (weightless WeightByBtcAmount leaves) \<le> 1" if "\<exists>fuel r. ?rec fuel leaves = Some r"
      using that stuck by (metis option.distinct(1))
    show "\<exists>fuel r. ?rec fuel leaves = Some r" if "length (weightless WeightByBtcAmount leaves) \<le> 1"
      using enough [OF that order_refl] by (rule exI)
  qed
  have "map_option h (?rec fuel' leaves) = Some r"
    if map: "map_option h (?rec fuel leaves) = Some r" and f: "length leaves \<le> fuel'" for h fuel fuel' r
  proof -
    obtain x where x: "?rec fuel leaves = Some x" and r: "r = h x"
      using map by (cases "?rec fuel leaves") simp_all
    then show ?thesis
      using same [OF x f] by simp
  qed
  moreover have "(\<exists>fuel r. map_option h (?rec fuel leaves) = Some r) \<longleftrightarrow> (\<exists>fuel r. ?rec fuel leaves = Some r)" for h
    by (simp add: map_option_eq_Some)
  ultimately show ?thesis
    unfolding B wl [symmetric] iff [symmetric] by (intro conjI allI impI) (simp_all only: conj_imp_eq_imp_imp)
qed

theorem BuildStructure_returns_iff_witness:
  "(\<forall>fuel. BuildStructure ex_tx_lib [9] 2 None fuel [ex_leaf_of 0 2, ex_leaf_of 0 3] = None) \<and>
   (\<exists>fuel r. BuildStructure ex_tx_lib [9] 2 None fuel [ex_leaf_of 5 2, ex_leaf_of 0 3] = Some r)"
proof -
  have "length (filter (\<lambda>l. sint (lf_amount l) \<le> 0) [ex_leaf_of 0 2, ex_leaf_of 0 3]) = 2"
    "length (filter (\<lambda>l. sint (lf_amount l) \<le> 0) [ex_leaf_of 5 2, ex_leaf_of 0 3]) = 1"
    by (simp_all add: ex_leaf_of_def)
  moreover have "\<forall>l \<in> set [ex_leaf_of 0 2, ex_leaf_of 0 3]. lf_coSignerKey l \<noteq> None"
    "\<forall>l \<in> set [ex_leaf_of 5 2, ex_leaf_of 0 3]. lf_coSignerKey l \<noteq> None"
    by (simp_all add: ex_leaf_of_def)
  ultimately show ?thesis
    using BuildStructure_returns_iff [of 2 "[ex_leaf_of 0 2, ex_leaf_of 0 3]" ex_tx_lib "[9]"]
      BuildStructure_returns_iff [of 2 "[ex_leaf_of 5 2, ex_leaf_of 0 3]" ex_tx_lib "[9]"]
    by (metis list.distinct(1) not_Some_eq numeral_le_one_iff order_refl semiring_norm(69))
qed

section \<open>The shape\<close>

text \<open>The leaf that a descriptor becomes.\<close>

definition leaf_struct :: "treeLib \<Rightarrow> pubKey \<Rightarrow> leafDescriptor \<Rightarrow> structNode" where
  "leaf_struct lib op l =
     StructNode (UniqueCosigners lib [op, the (lf_coSignerKey l)]) [] (lf_amount l) (lf_pkScript l)"

fun struct_leaves :: "structNode \<Rightarrow> structNode list" where
  "struct_leaves (StructNode cos chs amt script) =
     (if chs = [] then [StructNode cos chs amt script] else concat (map (\<lambda>(i, c). struct_leaves c) chs))"

fun struct_ok :: "treeLib \<Rightarrow> pubKey \<Rightarrow> nat \<Rightarrow> structNode \<Rightarrow> bool" where
  "struct_ok lib op radix (StructNode cos chs amt script) \<longleftrightarrow>
     (if chs = [] then \<exists>l. StructNode cos chs amt script = leaf_struct lib op l
      else StructNode cos chs amt script = branch_structure lib op chs \<and>
        map fst chs = map of_nat [0..<length chs] \<and> 2 \<le> length chs \<and> length chs \<le> radix \<and>
        (\<forall>(i, c) \<in> set chs. struct_ok lib op radix c))"

lemma struct_induct [case_names Node]:
  assumes "\<And>cos chs amt script. (\<And>i c. (i, c) \<in> set chs \<Longrightarrow> P c) \<Longrightarrow> P (StructNode cos chs amt script)"
  shows "P s"
  by (induction s rule: struct_leaves.induct) (rule assms, metis list.set_cases list.distinct(1))

lemma struct_leaves_ne [simp]: "struct_leaves s \<noteq> []"
proof (induction s rule: struct_induct)
  case (Node cos chs amt script)
  then show ?case
    by (cases chs) auto
qed

lemma struct_leaf_mem: "l \<in> set (struct_leaves s) \<Longrightarrow> st_children l = []"
  by (induction s rule: struct_induct) (auto split: if_splits)

lemma buildLeafStructure_Inr:
  "buildLeafStructure lib op l = Inr s \<longleftrightarrow> lf_coSignerKey l \<noteq> None \<and> s = leaf_struct lib op l"
  by (auto simp: buildLeafStructure_def leaf_struct_def split: option.splits)

lemma leaf_struct_ok [simp]:
  "struct_ok lib op radix (leaf_struct lib op l)" "struct_leaves (leaf_struct lib op l) = [leaf_struct lib op l]"
  by (auto simp: leaf_struct_def)

lemma leaves_of_groups:
  "list_all2 (\<lambda>p g. mset (struct_leaves (snd p)) = mset (map F g)) l parts \<Longrightarrow>
    mset (concat (map (\<lambda>(i, c). struct_leaves c) l)) = mset (map F (concat parts))"
  by (induction rule: list_all2_induct) (auto simp: case_prod_unfold)

text \<open>The children of a branch, one for each group.\<close>

lemma build_branch:
  assumes "2 \<le> radix" and "length leaves \<noteq> 1"
    and "buildStructureRecursive lib op radix (Some f) (Suc fuel) leaves = Some (Inr s)"
  obtains l where "s = branch_structure lib op l" "length l = length (partitionLeaves leaves radix (Some f))"
    "map fst l = map of_nat [0..<length l]"
    "list_all2 (\<lambda>p g. buildStructureRecursive lib op radix (Some f) fuel g = Some (Inr (snd p))) l
       (partitionLeaves leaves radix (Some f))"
proof -
  let ?parts = "partitionLeaves leaves radix (Some f)"
  obtain l where groups: "map (\<lambda>(i, g). (of_nat i, buildStructureRecursive lib op radix (Some f) fuel g)) (enumerate 0 ?parts)
      = map (\<lambda>(i, c). (i, Some (Inr c))) l" and s: "s = branch_structure lib op l"
    using assms(3) unfolding build_step [OF assms(1,2)] by (auto simp: build_groups_Inr)
  have len: "length l = length ?parts"
    using arg_cong [OF groups, of length] by simp
  have nth: "fst (l ! i) = of_nat i" "buildStructureRecursive lib op radix (Some f) fuel (?parts ! i) = Some (Inr (snd (l ! i)))"
    if "i < length ?parts" for i
    using arg_cong [OF groups, of "\<lambda>xs. xs ! i"] that len by (simp_all add: nth_enumerate_eq case_prod_unfold)
  then have "map fst l = map of_nat [0..<length l]"
    using len by (intro nth_equalityI) auto
  then show ?thesis
    using that [OF s len] nth(2) len by (simp add: list_all2_conv_all_nth)
qed

lemma build_shape:
  assumes "2 \<le> radix"
  shows "leaves \<noteq> [] \<Longrightarrow> buildStructureRecursive lib op radix (Some f) fuel leaves = Some (Inr s) \<Longrightarrow>
    struct_ok lib op radix s \<and> all_keyed leaves \<and> mset (struct_leaves s) = mset (map (leaf_struct lib op) leaves)"
proof (induction fuel arbitrary: leaves s)
  case (Suc fuel)
  note laws = groups_laws [OF assms, of "Some f"]
  let ?parts = "partitionLeaves leaves radix (Some f)"
  show ?case
  proof (cases "length leaves = 1")
    case True
    then obtain l where l: "leaves = [l]"
      by (auto simp: length_Suc_conv)
    have "buildLeafStructure lib op l = Inr s"
      using Suc(3) by (simp add: l)
    then show ?thesis
      by (simp add: l buildLeafStructure_Inr all_keyed_def)
  next
    case False
    obtain l where s: "s = branch_structure lib op l" and len: "length l = length ?parts"
      and fst: "map fst l = map of_nat [0..<length l]"
      and rec: "list_all2 (\<lambda>p g. buildStructureRecursive lib op radix (Some f) fuel g = Some (Inr (snd p))) l ?parts"
      using build_branch [OF assms False Suc(3)] .
    have IH: "list_all2 (\<lambda>p g. struct_ok lib op radix (snd p) \<and> all_keyed g \<and>
        mset (struct_leaves (snd p)) = mset (map (leaf_struct lib op) g)) l ?parts"
      using rec by (rule list.rel_mono_strong) (use Suc(1) group_leaves(2) [OF assms] in blast)
    have ok: "\<forall>p \<in> set l. struct_ok lib op radix (snd p)" and keyed: "\<forall>g \<in> set ?parts. all_keyed g"
      using IH unfolding list_all2_conv_all_nth by (metis in_set_conv_nth)+
    have mset: "mset (concat (map (\<lambda>(i, c). struct_leaves c) l)) = mset (map (leaf_struct lib op) (concat ?parts))"
      by (rule leaves_of_groups) (use IH in \<open>auto elim: list.rel_mono_strong\<close>)
    have perm: "mset (concat ?parts) = mset leaves"
      by (rule leaf_partition.perm [OF laws])
    then have "set leaves = (\<Union>g \<in> set ?parts. set g)"
      by (metis mset_eq_setD set_concat)
    then have all: "all_keyed leaves"
      using keyed unfolding all_keyed_def by blast
    have "splits_by (Some f) leaves"
      using build_stuck [OF assms all, of f lib op "Suc fuel"] Suc(3) by (fastforce simp: splits_by_def)
    then have two: "2 \<le> length l"
      using leaf_partition.progress [OF laws] False Suc(2) len by (cases leaves rule: remdups_adj.cases) auto
    moreover have "length l \<le> radix"
      using leaf_partition.bounded [OF laws, of leaves] len by simp
    ultimately have "struct_ok lib op radix s"
      using ok fst by (auto simp: s branch_structure_def)
    moreover have "mset (struct_leaves s) = mset (map (leaf_struct lib op) leaves)"
      using mset two perm by (auto simp: s branch_structure_def)
    ultimately show ?thesis
      using all by blast
  qed
qed simp

end
