(* ===== verification/Tree_Valid.thy ===== *)
theory Tree_Valid
  imports Tree_Build_Facts
begin

text \<open>
  Pass two of the tree builder and the composition of the builder with the client's checks: a
  built tree conserves value, every output pays to the key of the child that spends it,
  every transaction has its anchor, and every owner of a leaf finds its path.
\<close>

section \<open>The transactions of a branch\<close>

lemma sorted_indices: "k \<le> 2 ^ 32 \<Longrightarrow> sorted (map (of_nat :: nat \<Rightarrow> u32) [0..<k])"
  unfolding sorted_map
  by (rule sorted_wrt_mono_rel [of _ "(<)"]) (auto simp: word_le_nat_alt unat_of_nat)

lemma struct_children_sorted:
  assumes "map fst chs = map (of_nat :: nat \<Rightarrow> u32) [0..<length chs]" and "length chs \<le> 2 ^ 32"
  shows "sort_key fst chs = chs"
  using assms sorted_indices [of "length chs"] by (intro sort_key_sorted) simp

lemma child_position:
  assumes "map fst chs = map (of_nat :: nat \<Rightarrow> u32) [0..<length chs]" and "length chs \<le> 2 ^ 32" and "i < length chs"
  shows "length (filter (\<lambda>(j, _). j < of_nat i) chs) = i"
proof -
  have "length (filter (\<lambda>(j, _). j < of_nat i) chs) = length (filter (\<lambda>j. j < (of_nat i :: u32)) (map fst chs))"
    by (simp add: filter_map comp_def case_prod_unfold)
  also have "\<dots> = card {j. j < length chs \<and> (of_nat j :: u32) < of_nat i}"
    unfolding assms(1) by (simp add: length_filter_conv_card cong: conj_cong)
  also have "{j. j < length chs \<and> (of_nat j :: u32) < of_nat i} = {..<i}"
    using assms(2,3) by (auto simp: word_less_nat_alt unat_of_nat)
  finally show ?thesis
    by simp
qed

lemma branch_outputs_Inr:
  "branch_outputs lib tweak cs = Inr outs \<longleftrightarrow>
     (\<exists>os. outs = map Some os @ [Some AnchorOutput] \<and>
        list_all2 (\<lambda>c out. out_value out = st_amount c \<and>
          bindR (ComputeFinalKey lib (st_coSigners c) tweak) (\<lambda>k. treeLibR (al_payToTaproot (tl_ark lib) k)) = Inr (out_pkScript out))
          cs os)"
proof (induction cs arbitrary: outs)
  case (Cons c cs)
  show ?case
    by (auto simp: Cons list_all2_Cons1) (metis list.simps(9) append_Cons txOut.select_convs)+
qed auto

lemma collect_children_Inr:
  "collect_children rs = Inr l \<longleftrightarrow> rs = map (\<lambda>(i, c). (i, Inr c)) l"
proof (induction rs arbitrary: l)
  case (Cons p rs)
  then show ?case
    by (cases p) (auto simp: Cons_eq_map_conv)
qed auto

text \<open>The script that pays to a node of the structure.\<close>

definition structScript :: "treeLib \<Rightarrow> byte list \<Rightarrow> structNode \<Rightarrow> tree_error + byte list" where
  "structScript lib tweak s =
     bindR (ComputeFinalKey lib (st_coSigners s) tweak) (\<lambda>k. treeLibR (al_payToTaproot (tl_ark lib) k))"

text \<open>The node made from a branch: child \<open>i\<close> spends output \<open>i\<close>, which carries its amount.\<close>

definition spends_below :: "treeLib \<Rightarrow> byte list \<Rightarrow> structNode \<Rightarrow> outPoint \<Rightarrow> treeNode \<Rightarrow> hash \<Rightarrow> txOut list \<Rightarrow> bool" where
  "spends_below lib tweak s input n txid os \<longleftrightarrow>
     tn_outputs n = map Some os @ [Some AnchorOutput] \<and> TXID lib n = Inr txid \<and>
     length os = length (st_children s) \<and>
     map fst (tn_children n) = map fst (st_children s) \<and>
     (\<forall>i < length os. out_value (os ! i) = st_amount (snd (st_children s ! i)) \<and>
        structScript lib tweak (snd (st_children s ! i)) = Inr (out_pkScript (os ! i)) \<and>
        Materialize lib tweak (snd (st_children s ! i)) \<lparr>op_hash = txid, op_index = of_nat i\<rparr> = Inr (snd (tn_children n ! i)))"

lemma Materialize_fields:
  assumes "Materialize lib tweak s input = Inr n"
  shows "tn_input n = input" "tn_coSigners n = st_coSigners s" "tn_amount n = st_amount s" "tn_signature n = None"
    "\<exists>k. tn_finalKey n = Some k \<and> ComputeFinalKey lib (st_coSigners s) tweak = Inr k"
  using assms by (cases s; auto simp: materializeLeaf_def split: if_splits)+

lemma Materialize_leaf:
  assumes "Materialize lib tweak s input = Inr n" and "st_children s = []"
  shows "tn_children n = [] \<and>
    tn_outputs n = [Some \<lparr>out_value = st_amount s, out_pkScript = st_script s\<rparr>, Some AnchorOutput]"
  using assms by (cases s) (auto simp: materializeLeaf_def split: if_splits)

lemma Materialize_branch:
  assumes "Materialize lib tweak s input = Inr n" and "struct_ok lib' op radix s" and "st_children s \<noteq> []" and "radix \<le> 2 ^ 32"
  obtains txid os where "spends_below lib tweak s input n txid os"
proof -
  obtain cos chs amt script where s: "s = StructNode cos chs amt script"
    by (cases s)
  have chs: "chs \<noteq> []" "map fst chs = map of_nat [0..<length chs]" "length chs \<le> 2 ^ 32"
    using assms(2-4) by (auto simp: s)
  note sorted = struct_children_sorted [OF chs(2,3)]
  obtain fk outs txid kids where outs: "branch_outputs lib tweak (in_order chs) = Inr outs"
    and txid: "TXID lib (TreeNode input outs cos [] amt None (Some fk)) = Inr txid"
    and kids: "collect_children (sort_key fst (map (\<lambda>(i, c). (i, Materialize lib tweak c
        \<lparr>op_hash = txid, op_index = of_nat (length (filter (\<lambda>(j, _). j < i) chs))\<rparr>)) chs)) = Inr kids"
    and n: "n = TreeNode input outs cos kids amt None (Some fk)"
    using assms(1) chs(1) by (auto simp: s)
  have in_order: "in_order chs = map snd chs"
    by (simp add: in_order_def sorted)
  obtain os where os: "outs = map Some os @ [Some AnchorOutput]"
    and all: "list_all2 (\<lambda>c out. out_value out = st_amount c \<and> structScript lib tweak c = Inr (out_pkScript out)) (map snd chs) os"
    using outs unfolding in_order branch_outputs_Inr structScript_def [symmetric] by blast
  have k: "map (\<lambda>(i, c). (i, Materialize lib tweak c
      \<lparr>op_hash = txid, op_index = of_nat (length (filter (\<lambda>(j, _). j < i) chs))\<rparr>)) chs = map (\<lambda>(i, c). (i, Inr c)) kids"
    using kids unfolding collect_children_Inr sort_key_map_fst sorted .
  have len: "length kids = length chs"
    using arg_cong [OF k, of length] by simp
  have fst: "fst (chs ! i) = of_nat i" if "i < length chs" for i
    using arg_cong [OF chs(2), of "\<lambda>xs. xs ! i"] that by simp
  have nth: "fst (kids ! i) = fst (chs ! i)"
    "Materialize lib tweak (snd (chs ! i)) \<lparr>op_hash = txid, op_index = of_nat i\<rparr> = Inr (snd (kids ! i))"
    if i: "i < length chs" for i
  proof -
    have "fst (chs ! i) = fst (kids ! i) \<and> Materialize lib tweak (snd (chs ! i))
        \<lparr>op_hash = txid, op_index = of_nat (length (filter (\<lambda>(j, _). j < fst (chs ! i)) chs))\<rparr> = Inr (snd (kids ! i))"
      using arg_cong [OF k, of "\<lambda>xs. xs ! i"] i len by (auto simp: case_prod_unfold)
    then show "fst (kids ! i) = fst (chs ! i)"
      "Materialize lib tweak (snd (chs ! i)) \<lparr>op_hash = txid, op_index = of_nat i\<rparr> = Inr (snd (kids ! i))"
      unfolding fst [OF i] child_position [OF chs(2,3) i] by auto
  qed
  have "map fst kids = map fst chs"
    using len nth(1) by (intro nth_equalityI) auto
  moreover have "TXID lib n = Inr txid"
    using txid TXID_cong [of n "TreeNode input outs cos [] amt None (Some fk)" lib] by (simp add: n)
  ultimately have "spends_below lib tweak s input n txid os"
    using all nth(2) by (auto simp: spends_below_def s n os list_all2_conv_all_nth)
  then show ?thesis
    using that by blast
qed

lemma childScript_struct: "Materialize lib tweak s input = Inr n \<Longrightarrow> childScript lib tweak n = structScript lib tweak s"
  using Materialize_fields(2) by (simp add: childScript_def structScript_def)

section \<open>Amounts\<close>

definition struct_total :: "structNode \<Rightarrow> int" where
  "struct_total s = sum_list (map (\<lambda>l. sint (st_amount l)) (struct_leaves s))"

definition amounts_fit :: "structNode \<Rightarrow> bool" where
  "amounts_fit s \<longleftrightarrow> (\<forall>l \<in> set (struct_leaves s). 0 \<le> sint (st_amount l)) \<and> struct_total s \<le> 2100000000000000"

lemma sum_list_concat: "sum_list (concat xss) = sum_list (map sum_list xss)"
  by (induction xss) auto

lemma struct_total_branch:
  "chs \<noteq> [] \<Longrightarrow> struct_total (StructNode cos chs amt script) = sum_list (map (\<lambda>(i, c). struct_total c) chs)"
  by (simp add: struct_total_def map_concat sum_list_concat comp_def case_prod_unfold)

lemma amounts_fit_nonneg: "amounts_fit s \<Longrightarrow> 0 \<le> struct_total s"
  by (auto simp: amounts_fit_def struct_total_def intro!: sum_list_nonneg)

lemma sum_nonneg_mem: "\<forall>y \<in> set xs. 0 \<le> f y \<Longrightarrow> x \<in> set xs \<Longrightarrow> f x \<le> sum_list (map f xs)" for f :: "'a \<Rightarrow> int"
proof (induction xs)
  case (Cons y ys)
  have "0 \<le> sum_list (map f ys)"
    using Cons(2) by (intro sum_list_nonneg) auto
  then show ?case
    using Cons by auto
qed simp

lemma amounts_fit_child:
  assumes "amounts_fit (StructNode cos chs amt script)" and "(i, c) \<in> set chs"
  shows "amounts_fit c"
proof -
  have ne: "chs \<noteq> []"
    using assms(2) by auto
  have leaves: "\<forall>l \<in> set (struct_leaves (snd p)). 0 \<le> sint (st_amount l)" if "p \<in> set chs" for p
    using assms(1) that ne by (auto simp: amounts_fit_def case_prod_unfold)
  have nonneg: "0 \<le> struct_total (snd p)" if "p \<in> set chs" for p
    using leaves [OF that] by (auto simp: struct_total_def intro!: sum_list_nonneg)
  then have "struct_total c \<le> struct_total (StructNode cos chs amt script)"
    using sum_nonneg_mem [of chs "\<lambda>p. struct_total (snd p)" "(i, c)"] assms(2)
    by (simp add: struct_total_branch [OF ne] case_prod_unfold)
  then show ?thesis
    using assms(1) leaves [OF assms(2)] by (simp add: amounts_fit_def)
qed

lemma sint_sum_words:
  assumes "\<forall>x \<in> set xs. 0 \<le> sint x" and "sum_list (map sint xs) < 2 ^ 63"
  shows "sint (sum_list xs :: i64) = sum_list (map sint xs)"
  using assms
proof (induction xs)
  case (Cons x xs)
  have nn: "0 \<le> sum_list (map sint xs)"
    using Cons(2) by (auto intro!: sum_list_nonneg)
  then have IH: "sint (sum_list xs) = sum_list (map sint xs)"
    using Cons by auto
  have "sint (x + sum_list xs) = sint x + sint (sum_list xs)"
    by (rule sint_add64) (use Cons(2,3) nn IH in auto)
  then show ?case
    by (simp add: IH)
qed simp

lemma struct_amount_exact:
  "struct_ok lib op radix s \<Longrightarrow> amounts_fit s \<Longrightarrow> sint (st_amount s) = struct_total s"
proof (induction s rule: struct_induct)
  case (Node cos chs amt script)
  show ?case
  proof (cases "chs = []")
    case True
    then show ?thesis
      by (simp add: struct_total_def)
  next
    case False
    have child: "sint (st_amount c) = struct_total c" "0 \<le> struct_total c" if "(i, c) \<in> set chs" for i c
      using Node(1) [OF that] Node(2) amounts_fit_child [OF Node(3) that] that False
      by (auto intro: amounts_fit_nonneg)
    have sum: "map sint (map (\<lambda>(_, c). st_amount c) chs) = map (\<lambda>(_, c). struct_total c) chs"
      using child(1) by auto
    have amt: "amt = sum_list (map (\<lambda>(_, c). st_amount c) chs)"
      using Node(2) False by (simp add: branch_structure_def)
    have "sint amt = sum_list (map sint (map (\<lambda>(_, c). st_amount c) chs))"
      unfolding amt
    proof (rule sint_sum_words)
      show "\<forall>x \<in> set (map (\<lambda>(_, c). st_amount c) chs). 0 \<le> sint x"
        using child by auto
      show "sum_list (map sint (map (\<lambda>(_, c). st_amount c) chs)) < 2 ^ 63"
        unfolding sum using Node(3) by (simp add: amounts_fit_def struct_total_branch [OF False])
    qed
    then show ?thesis
      unfolding sum by (simp add: struct_total_branch [OF False])
  qed
qed

section \<open>A built tree is valid\<close>

lemma branch_child:
  assumes "spends_below lib tweak s input n txid os" and "struct_ok lib' op radix s" and "radix \<le> 2 ^ 32"
    and "(i, c) \<in> set (tn_children n)"
  obtains c' where "(i, c') \<in> set (st_children s)" "unat i < length os"
    "out_value (os ! unat i) = st_amount c'" "structScript lib tweak c' = Inr (out_pkScript (os ! unat i))"
    "Materialize lib tweak c' \<lparr>op_hash = txid, op_index = i\<rparr> = Inr c"
proof -
  obtain cos chs amt script where s: "s = StructNode cos chs amt script"
    by (cases s)
  have len: "length (tn_children n) = length chs" "length os = length chs"
    using assms(1) by (auto simp: spends_below_def s dest: arg_cong [where f = length])
  obtain j where j: "j < length chs" "tn_children n ! j = (i, c)"
    using assms(4) len by (auto simp: in_set_conv_nth)
  have chs: "map fst chs = map of_nat [0..<length chs]" "length chs \<le> 2 ^ 32"
    using assms(2,3) j by (auto simp: s split: if_splits)
  have "map fst (tn_children n) ! j = map fst chs ! j"
    using assms(1) by (simp add: spends_below_def s)
  then have i: "i = fst (chs ! j)" "i = of_nat j"
    using j len arg_cong [OF chs(1), of "\<lambda>xs. xs ! j"] by auto
  have u: "unat i = j"
    unfolding i(2) using j(1) chs(2) by (simp add: unat_of_nat)
  have "out_value (os ! j) = st_amount (snd (chs ! j))" "structScript lib tweak (snd (chs ! j)) = Inr (out_pkScript (os ! j))"
    "Materialize lib tweak (snd (chs ! j)) \<lparr>op_hash = txid, op_index = of_nat j\<rparr> = Inr (snd (tn_children n ! j))"
    using assms(1) j len by (simp_all add: spends_below_def s)
  moreover have "(i, snd (chs ! j)) \<in> set chs"
    using j(1) i(1) nth_mem [of j chs] by simp
  ultimately show ?thesis
    using that [of "snd (chs ! j)"] j len u i(2) by (simp add: s)
qed

lemma outs_total_append [simp]: "outs_total (xs @ ys) = outs_total xs + outs_total ys"
  by (simp add: outs_total_def)

lemma AnchorOutput_value [simp]: "out_value AnchorOutput = 0" "out_pkScript AnchorOutput = AnchorPkScript"
  by (simp_all add: AnchorOutput_def)

lemma branch_outs_total:
  assumes "spends_below lib tweak s input n txid os" and "struct_ok lib' op radix s" and "amounts_fit s" and "st_children s \<noteq> []"
  shows "outs_total os = struct_total s" and "\<forall>o' \<in> set os. 0 \<le> sint (out_value o')"
proof -
  obtain cos chs amt script where s: "s = StructNode cos chs amt script"
    by (cases s)
  have ne: "chs \<noteq> []" and len: "length os = length chs"
    using assms(1,4) by (auto simp: spends_below_def s)
  have child: "sint (st_amount (snd p)) = struct_total (snd p)" "0 \<le> struct_total (snd p)" if "p \<in> set chs" for p
    using struct_amount_exact [of lib' op radix "snd p"] amounts_fit_child [of cos chs amt script "fst p" "snd p"]
      assms(2,3) that ne amounts_fit_nonneg by (auto simp: s)
  have "map (\<lambda>o'. sint (out_value o')) os = map (\<lambda>(i, c). struct_total c) chs"
    using assms(1) len child by (intro nth_equalityI) (auto simp: spends_below_def s case_prod_unfold)
  then show "outs_total os = struct_total s"
    by (simp add: outs_total_def s struct_total_branch [OF ne])
  have "0 \<le> sint (out_value (os ! i))" if "i < length os" for i
    using assms(1) len child [of "chs ! i"] that by (auto simp: spends_below_def s)
  then show "\<forall>o' \<in> set os. 0 \<le> sint (out_value o')"
    by (metis in_set_conv_nth)
qed

lemma materialized_values:
  "Materialize lib tweak s input = Inr n \<Longrightarrow> struct_ok lib' op radix s \<Longrightarrow> radix \<le> 2 ^ 32 \<Longrightarrow> amounts_fit s \<Longrightarrow>
    validateNodeValueConservation lib n input (st_amount s) = None"
proof (induction s arbitrary: n input rule: struct_induct)
  case (Node cos chs amt script)
  let ?s = "StructNode cos chs amt script"
  have fit: "0 \<le> struct_total ?s" "struct_total ?s \<le> 2100000000000000"
    using Node(5) amounts_fit_nonneg by (auto simp: amounts_fit_def)
  have exact: "sint amt = struct_total ?s"
    using struct_amount_exact [OF Node(3,5)] by simp
  show ?case
  proof (cases "chs = []")
    case True
    have n: "tn_children n = []" "tn_outputs n = [Some \<lparr>out_value = amt, out_pkScript = script\<rparr>, Some AnchorOutput]"
      using Materialize_leaf [OF Node(2)] True by simp_all
    show ?thesis
      using Materialize_fields(1) [OF Node(2)] fit exact
      by (simp add: value_conserved_iff [of lib n] n sum_outputs_ok TXID_def ToTx_def del: sum_outputs.simps)
  next
    case False
    obtain txid os where b: "spends_below lib tweak ?s input n txid os"
      using Materialize_branch [OF Node(2,3) _ Node(4)] False by auto
    have outs: "tn_outputs n = map Some os @ [Some AnchorOutput]" "TXID lib n = Inr txid"
      using b by (auto simp: spends_below_def)
    have "validateNodeValueConservation lib c \<lparr>op_hash = txid, op_index = i\<rparr> (out_value (os ! unat i)) = None \<and> unat i < length os"
      if "(i, c) \<in> set (tn_children n)" for i c
    proof (rule branch_child [OF b Node(3,4) that])
      fix c'
      assume c': "(i, c') \<in> set (st_children ?s)" "unat i < length os" "out_value (os ! unat i) = st_amount c'"
        "Materialize lib tweak c' \<lparr>op_hash = txid, op_index = i\<rparr> = Inr c"
      then show ?thesis
        using Node(1) [of i c', OF _ c'(4)] Node(3,4) amounts_fit_child [OF Node(5), of i c'] by (auto split: if_splits)
    qed
    then show ?thesis
      using Materialize_fields(1) [OF Node(2)] outs fit exact branch_outs_total [OF b Node(3,5)] False
      by (auto simp: value_conserved_iff [of lib n] sum_outputs_ok comp_def nth_append intro: less_SucI)
  qed
qed

lemma materialized_scripts:
  "Materialize lib tweak s input = Inr n \<Longrightarrow> struct_ok lib' op radix s \<Longrightarrow> radix \<le> 2 ^ 32 \<Longrightarrow>
    validateNodeChildScripts lib tweak n = None"
proof (induction s arbitrary: n input rule: struct_induct)
  case (Node cos chs amt script)
  let ?s = "StructNode cos chs amt script"
  show ?case
  proof (cases "chs = []")
    case True
    then show ?thesis
      using Materialize_leaf [OF Node(2)] by (simp add: child_scripts_iff [of lib tweak n])
  next
    case False
    obtain txid os where b: "spends_below lib tweak ?s input n txid os"
      using Materialize_branch [OF Node(2,3) _ Node(4)] False by auto
    have outs: "tn_outputs n = map Some os @ [Some AnchorOutput]"
      using b by (auto simp: spends_below_def)
    have "unat i < length os \<and> childScript lib tweak c = Inr (out_pkScript (os ! unat i)) \<and>
        validateNodeChildScripts lib tweak c = None"
      if "(i, c) \<in> set (tn_children n)" for i c
    proof (rule branch_child [OF b Node(3,4) that])
      fix c'
      assume c': "(i, c') \<in> set (st_children ?s)" "unat i < length os" "structScript lib tweak c' = Inr (out_pkScript (os ! unat i))"
        "Materialize lib tweak c' \<lparr>op_hash = txid, op_index = i\<rparr> = Inr c"
      then show ?thesis
        using Node(1) [of i c', OF _ c'(4)] Node(3,4) childScript_struct [OF c'(4)] by (auto split: if_splits)
    qed
    then show ?thesis
      unfolding child_scripts_iff [of lib tweak n] outs by (fastforce simp: nth_append)
  qed
qed

lemma materialized_nodes:
  "Materialize lib tweak s input = Inr n \<Longrightarrow> struct_ok lib' op radix s \<Longrightarrow> radix \<le> 2 ^ 32 \<Longrightarrow> m \<in> set (NodesIter n) \<Longrightarrow>
    check_anchor m = None \<and> tn_signature m = None \<and>
    (\<exists>k. tn_finalKey m = Some k \<and> ComputeFinalKey lib (tn_coSigners m) tweak = Inr k)"
proof (induction s arbitrary: n input rule: struct_induct)
  case (Node cos chs amt script)
  let ?s = "StructNode cos chs amt script"
  note own = Materialize_fields(2,4,5) [OF Node(2)]
  show ?case
  proof (cases "chs = []")
    case True
    have n: "tn_children n = []" "tn_outputs n = [Some \<lparr>out_value = amt, out_pkScript = script\<rparr>, Some AnchorOutput]"
      using Materialize_leaf [OF Node(2)] True by simp_all
    then have "m = n"
      using Node(5) by (simp add: set_NodesIter [of n])
    then show ?thesis
      using own n by (simp add: check_anchor_def)
  next
    case False
    obtain txid os where b: "spends_below lib tweak ?s input n txid os"
      using Materialize_branch [OF Node(2,3) _ Node(4)] False by auto
    have outs: "tn_outputs n = map Some os @ [Some AnchorOutput]"
      using b by (auto simp: spends_below_def)
    consider "m = n" | i c where "(i, c) \<in> set (tn_children n)" "m \<in> set (NodesIter c)"
      using Node(5) unfolding set_NodesIter [of n] by auto
    then show ?thesis
    proof cases
      case 1
      then show ?thesis
        using own outs by (simp add: check_anchor_def)
    next
      case (2 i c)
      show ?thesis
      proof (rule branch_child [OF b Node(3,4) 2(1)])
        fix c'
        assume c': "(i, c') \<in> set (st_children ?s)" "Materialize lib tweak c' \<lparr>op_hash = txid, op_index = i\<rparr> = Inr c"
        then show ?thesis
          using Node(1) [of i c', OF _ c'(2)] Node(3,4) 2(2) by (auto split: if_splits)
      qed
    qed
  qed
qed

section \<open>Leaves and cosigners\<close>

definition leaf_view :: "treeNode \<Rightarrow> pubKey list \<times> txOut option list" where
  "leaf_view n = (tn_coSigners n, tn_outputs n)"

definition struct_view :: "structNode \<Rightarrow> pubKey list \<times> txOut option list" where
  "struct_view l = (st_coSigners l, [Some \<lparr>out_value = st_amount l, out_pkScript = st_script l\<rparr>, Some AnchorOutput])"

lemma branch_children_sorted:
  assumes "spends_below lib tweak s input n txid os" and "struct_ok lib' op radix s" and "radix \<le> 2 ^ 32" and "st_children s \<noteq> []"
  shows "sort_key fst (tn_children n) = tn_children n" and "length (tn_children n) = length (st_children s)"
proof -
  obtain cos chs amt script where s: "s = StructNode cos chs amt script"
    by (cases s)
  have fst: "map fst (tn_children n) = map fst chs"
    using assms(1) by (simp add: spends_below_def s)
  moreover have "map fst chs = map of_nat [0..<length chs]" "length chs \<le> 2 ^ 32"
    using assms(2-4) by (auto simp: s)
  ultimately show "sort_key fst (tn_children n) = tn_children n"
    using sorted_indices [of "length chs"] by (intro sort_key_sorted) simp
  show "length (tn_children n) = length (st_children s)"
    using arg_cong [OF fst, of length] by (simp add: s)
qed

lemma branch_nth:
  assumes "spends_below lib tweak (StructNode cos chs amt script) input n txid os"
    and "struct_ok lib' op radix (StructNode cos chs amt script)" and "i < length chs"
  shows "(fst (chs ! i), snd (chs ! i)) \<in> set chs" and "struct_ok lib' op radix (snd (chs ! i))"
    and "Materialize lib tweak (snd (chs ! i)) \<lparr>op_hash = txid, op_index = of_nat i\<rparr> = Inr (snd (tn_children n ! i))"
proof -
  show mem: "(fst (chs ! i), snd (chs ! i)) \<in> set chs"
    using assms(3) by simp
  then show "struct_ok lib' op radix (snd (chs ! i))"
    using assms(2) by (auto split: if_splits)
  show "Materialize lib tweak (snd (chs ! i)) \<lparr>op_hash = txid, op_index = of_nat i\<rparr> = Inr (snd (tn_children n ! i))"
    using assms(1,3) by (simp add: spends_below_def)
qed

lemma materialized_leaves:
  "Materialize lib tweak s input = Inr n \<Longrightarrow> struct_ok lib' op radix s \<Longrightarrow> radix \<le> 2 ^ 32 \<Longrightarrow>
    map leaf_view (GetLeafNodes n) = map struct_view (struct_leaves s)"
proof (induction s arbitrary: n input rule: struct_induct)
  case (Node cos chs amt script)
  let ?s = "StructNode cos chs amt script"
  show ?case
  proof (cases "chs = []")
    case True
    then show ?thesis
      using Materialize_leaf [OF Node(2)] Materialize_fields(2) [OF Node(2)]
      by (cases n) (simp add: leaf_view_def struct_view_def)
  next
    case False
    obtain txid os where b: "spends_below lib tweak ?s input n txid os"
      using Materialize_branch [OF Node(2,3) _ Node(4)] False by auto
    have sorted: "sort_key fst (tn_children n) = tn_children n" "length (tn_children n) = length chs"
      using branch_children_sorted [OF b Node(3,4)] False by auto
    have "map leaf_view (GetLeafNodes (snd (tn_children n ! i))) = map struct_view (struct_leaves (snd (chs ! i)))"
      if "i < length chs" for i
      using Node(1) [OF branch_nth(1,3,2) [OF b Node(3) that] Node(4)] .
    then have "map (\<lambda>p. map leaf_view (GetLeafNodes (snd p))) (tn_children n) = map (\<lambda>p. map struct_view (struct_leaves (snd p))) chs"
      using sorted(2) by (intro nth_equalityI) auto
    then show ?thesis
      using False sorted by (cases n)
        (auto simp: GetLeafNodes_eq map_concat comp_def case_prod_unfold simp del: GetLeafNodes.simps map_eq_conv)
  qed
qed

lemma materialized_size:
  "Materialize lib tweak s input = Inr n \<Longrightarrow> struct_ok lib' op radix s \<Longrightarrow> radix \<le> 2 ^ 32 \<Longrightarrow>
    NumTx n + 1 \<le> 2 * length (struct_leaves s)"
proof (induction s arbitrary: n input rule: struct_induct)
  case (Node cos chs amt script)
  let ?s = "StructNode cos chs amt script"
  show ?case
  proof (cases "chs = []")
    case True
    then show ?thesis
      using Materialize_leaf [OF Node(2)] by (cases n) simp
  next
    case False
    obtain txid os where b: "spends_below lib tweak ?s input n txid os"
      using Materialize_branch [OF Node(2,3) _ Node(4)] False by auto
    have len: "length (tn_children n) = length chs"
      using branch_children_sorted [OF b Node(3,4)] False by auto
    have IH: "NumTx (snd (tn_children n ! i)) + 1 \<le> 2 * length (struct_leaves (snd (chs ! i)))" if "i < length chs" for i
      using Node(1) [OF branch_nth(1,3,2) [OF b Node(3) that] Node(4)] .
    have "sum_list (map (\<lambda>p. NumTx (snd p) + 1) (tn_children n)) \<le> sum_list (map (\<lambda>p. 2 * length (struct_leaves (snd p))) chs)"
      using IH len by (auto simp: sum_list_sum_nth atLeast0LessThan intro!: sum_mono)
    moreover have "2 \<le> length chs"
      using Node(3) False by simp
    moreover have "NumTx n = 1 + sum_list (map (\<lambda>p. NumTx (snd p)) (tn_children n))"
      by (cases n) (simp add: case_prod_unfold)
    moreover have "length (struct_leaves ?s) = sum_list (map (\<lambda>p. length (struct_leaves (snd p))) chs)"
      using False by (simp add: length_concat comp_def case_prod_unfold)
    moreover have "sum_list (map (\<lambda>p. NumTx (snd p) + 1) ks) = sum_list (map (\<lambda>p. NumTx (snd p)) ks) + length ks"
      for ks :: "(u32 \<times> treeNode) list"
      by (induction ks) auto
    ultimately show ?thesis
      using len by (simp add: sum_list_const_mult)
  qed
qed

lemma set_unique_loop:
  "inj_on (al_xOnly (tl_ark lib)) (S \<union> set ks) \<Longrightarrow>
    set (unique_loop lib (al_xOnly (tl_ark lib) ` S) ks) = set ks - S"
proof (induction ks arbitrary: S)
  case (Cons k ks)
  let ?x = "al_xOnly (tl_ark lib)"
  have "?x k \<in> ?x ` S \<longleftrightarrow> k \<in> S"
    using Cons(2) by (auto simp: inj_on_def)
  then show ?case
    using Cons(1) [of S] Cons(1) [of "insert k S"] Cons(2) by (auto simp: Let_def insert_absorb)
qed simp

lemma set_UniqueCosigners:
  "inj_on (al_xOnly (tl_ark lib)) (set ks) \<Longrightarrow> set (UniqueCosigners lib ks) = set ks"
  using set_unique_loop [of lib "{}" ks] by (simp add: UniqueCosigners_def)

lemma unique_loop_distinct:
  "distinct (map (al_xOnly (tl_ark lib)) (unique_loop lib seen ks)) \<and>
   al_xOnly (tl_ark lib) ` set (unique_loop lib seen ks) \<inter> seen = {}"
  by (induction ks arbitrary: seen) (auto simp: Let_def)

lemma distinct_UniqueCosigners: "distinct (UniqueCosigners lib ks)"
  using unique_loop_distinct [of lib "{}" ks] by (simp add: UniqueCosigners_def distinct_map)

lemma struct_cosigners:
  assumes "inj_on (al_xOnly (tl_ark lib)) U"
  shows "struct_ok lib op radix s \<Longrightarrow> op \<in> U \<Longrightarrow> (\<Union>l \<in> set (struct_leaves s). set (st_coSigners l)) \<subseteq> U \<Longrightarrow>
    set (st_coSigners s) = (\<Union>l \<in> set (struct_leaves s). set (st_coSigners l)) \<and> op \<in> set (st_coSigners s)"
proof (induction s rule: struct_induct)
  case (Node cos chs amt script)
  show ?case
  proof (cases "chs = []")
    case True
    then have "\<exists>l :: leafDescriptor. cos = UniqueCosigners lib [op, the (lf_coSignerKey l)]"
      using Node(2) by (auto simp: leaf_struct_def)
    then have "op \<in> set cos"
      by (auto simp: UniqueCosigners_def Let_def)
    then show ?thesis
      using True by simp
  next
    case False
    have child: "set (st_coSigners c) = (\<Union>l \<in> set (struct_leaves c). set (st_coSigners l))" "op \<in> set (st_coSigners c)"
      if c: "(i, c) \<in> set chs" for i c
    proof -
      have "struct_ok lib op radix c"
        using Node(2) c False by auto
      moreover have "set (struct_leaves c) \<subseteq> set (struct_leaves (StructNode cos chs amt script))"
        using c False by auto
      then have "(\<Union>l \<in> set (struct_leaves c). set (st_coSigners l)) \<subseteq> U"
        using Node(4) by (meson SUP_subset_mono order_refl order_trans)
      ultimately show "set (st_coSigners c) = (\<Union>l \<in> set (struct_leaves c). set (st_coSigners l))" "op \<in> set (st_coSigners c)"
        using Node(1) [OF c _ Node(3)] by blast+
    qed
    let ?all = "concat (map (\<lambda>(_, c). st_coSigners c) chs)"
    have all: "set ?all = (\<Union>l \<in> set (struct_leaves (StructNode cos chs amt script)). set (st_coSigners l))"
    proof -
      have "set (st_coSigners (snd p)) = (\<Union>l \<in> set (struct_leaves (snd p)). set (st_coSigners l))" if "p \<in> set chs" for p
        using child(1) [of "fst p" "snd p"] that by simp
      then show ?thesis
        using False by (simp add: case_prod_unfold)
    qed
    have "op \<in> set ?all"
      using False child(2) by (cases chs) auto
    then have "set (op # ?all) = set ?all"
      by auto
    moreover have "inj_on (al_xOnly (tl_ark lib)) (set (op # ?all))"
      by (rule inj_on_subset [OF assms]) (use Node(3,4) all in \<open>simp del: set_concat struct_leaves.simps\<close>)
    moreover have "cos = UniqueCosigners lib (op # ?all)"
      using Node(2) False by (simp add: branch_structure_def)
    ultimately have "set cos = set ?all"
      using set_UniqueCosigners [of lib "op # ?all"] by simp
    then show ?thesis
      using all \<open>op \<in> set ?all\<close> by simp
  qed
qed

section \<open>The owner's path\<close>

definition owns :: "pubKey \<Rightarrow> structNode \<Rightarrow> bool" where
  "owns k l \<longleftrightarrow> k \<in> set (st_coSigners l)"

lemma sum_list_one:
  assumes "sum_list (map f xs) = (1 :: nat)"
  obtains ys x zs where "xs = ys @ x # zs" "f x = 1" "\<forall>y \<in> set (ys @ zs). f y = 0"
proof -
  have "\<exists>x \<in> set xs. f x \<noteq> 0"
    using assms by (metis map_eq_conv sum_list_0 zero_neq_one)
  then obtain ys x zs where xs: "xs = ys @ x # zs" and x: "f x \<noteq> 0"
    by (meson split_list)
  have "sum_list (map f ys) + f x + sum_list (map f zs) = 1"
    using assms by (simp add: xs)
  then have "f x = 1" "sum_list (map f ys) = 0" "sum_list (map f zs) = 0"
    using x by linarith+
  then show ?thesis
    using that [OF xs] by auto
qed

lemma materialized_cosigners:
  assumes "inj_on (al_xOnly (tl_ark lib)) U" and "op \<in> U"
    and "struct_ok lib op radix s" and "(\<Union>l \<in> set (struct_leaves s). set (st_coSigners l)) \<subseteq> U"
    and "Materialize lib tweak s input = Inr n"
  shows "k \<in> set (tn_coSigners n) \<longleftrightarrow> filter (owns k) (struct_leaves s) \<noteq> []"
  using struct_cosigners [OF assms(1,3,2,4)] Materialize_fields(2) [OF assms(5)]
  by (auto simp: owns_def filter_empty_conv)

lemma extract_none:
  "k \<notin> set (tn_coSigners n) \<Longrightarrow> ExtractPathForCoSigners [k] n = None"
  by (cases n) (simp add: ContainsCosigner_def)

lemma some_children_simps [simp]:
  "some_children [] = []" "some_children ((i, None) # rs) = some_children rs"
  "some_children ((i, Some c) # rs) = (i, c) # some_children rs"
  by (simp_all add: some_children_def)

lemma one_child:
  assumes "j < length cs" and "f (snd (cs ! j)) = Some m" and "\<And>i. i < length cs \<Longrightarrow> i \<noteq> j \<Longrightarrow> f (snd (cs ! i)) = None"
  shows "some_children (map (\<lambda>(i, c). (i, f c)) cs) = [(fst (cs ! j), m)]"
  using assms
proof (induction cs arbitrary: j)
  case (Cons p cs)
  show ?case
  proof (cases j)
    case 0
    have "f (snd q) = None" if "q \<in> set cs" for q
      using Cons(4) [of "Suc i" for i] that 0 by (metis in_set_conv_nth length_Cons nat.distinct(1) not_less_eq nth_Cons_Suc)
    then have "some_children (map (\<lambda>(i, c). (i, f c)) cs) = []"
      by (induction cs) (auto simp: case_prod_unfold)
    then show ?thesis
      using Cons(3) 0 by (simp add: case_prod_unfold)
  next
    case (Suc j')
    then show ?thesis
      using Cons(1) [of j'] Cons(2-4) Cons(4) [of 0] Cons(4) [of "Suc i" for i]
      by (fastforce simp: case_prod_unfold)
  qed
qed simp

lemma owner_path:
  assumes "inj_on (al_xOnly (tl_ark lib)) U" and "op \<in> U" and "radix \<le> 2 ^ 32"
  shows "Materialize lib tweak s input = Inr n \<Longrightarrow> struct_ok lib op radix s \<Longrightarrow>
    (\<Union>l \<in> set (struct_leaves s). set (st_coSigners l)) \<subseteq> U \<Longrightarrow> filter (owns k) (struct_leaves s) = [l] \<Longrightarrow>
    \<exists>m lf. ExtractPathForCoSigners [k] n = Some m \<and> GetLeafNodes m = [lf] \<and> leaf_view lf = struct_view l"
proof (induction s arbitrary: n input rule: struct_induct)
  case (Node cos chs amt script)
  let ?s = "StructNode cos chs amt script"
  have key: "k \<in> set (tn_coSigners n)"
    using materialized_cosigners [OF assms(1,2) Node(3,4,2), of k] Node(5) by simp
  let ?ex = "\<lambda>(i, c). (i, ExtractPathForCoSigners [k] c)"
  have ex: "ExtractPathForCoSigners [k] n = Some (TreeNode (tn_input n) (tn_outputs n) (tn_coSigners n)
      (some_children (map ?ex (tn_children n))) 0 (tn_signature n) (tn_finalKey n))"
    using key by (cases n) (simp add: ContainsCosigner_def)
  show ?case
  proof (cases "chs = []")
    case True
    have "tn_children n = []" "leaf_view n = struct_view ?s" "l = ?s"
      using Materialize_leaf [OF Node(2)] Materialize_fields(2) [OF Node(2)] True Node(5)
      by (auto simp: leaf_view_def struct_view_def split: if_splits)
    then show ?thesis
      by (simp add: ex some_children_def leaf_view_def)
  next
    case False
    obtain txid os where b: "spends_below lib tweak ?s input n txid os"
      using Materialize_branch [OF Node(2,3) _ assms(3)] False by auto
    have len: "length (tn_children n) = length chs"
      using branch_children_sorted [OF b Node(3) assms(3)] False by auto
    let ?cnt = "\<lambda>p. length (filter (owns k) (struct_leaves (snd p)))"
    have "length (filter (owns k) (struct_leaves ?s)) = sum_list (map ?cnt chs)"
      using False by (simp add: filter_concat length_concat comp_def case_prod_unfold)
    then have "sum_list (map ?cnt chs) = 1"
      using Node(5) by simp
    then obtain ys p zs where chs: "chs = ys @ p # zs" and one: "?cnt p = 1" and none: "\<forall>q \<in> set (ys @ zs). ?cnt q = 0"
      using sum_list_one by blast
    let ?j = "length ys"
    have j: "?j < length chs" "chs ! ?j = p"
      by (simp_all add: chs)
    have sub: "(\<Union>l \<in> set (struct_leaves (snd q)). set (st_coSigners l)) \<subseteq> U" if "q \<in> set chs" for q
      using Node(4) that False by (fastforce simp: case_prod_unfold)
    have gone: "ExtractPathForCoSigners [k] (snd (tn_children n ! i)) = None" if i: "i < length chs" "i \<noteq> ?j" for i
    proof -
      have "chs ! i \<in> set (ys @ zs)"
        using i by (auto simp: chs nth_append nth_Cons' )
      then have "filter (owns k) (struct_leaves (snd (chs ! i))) = []"
        using none by simp
      then show ?thesis
        using materialized_cosigners [OF assms(1,2) branch_nth(2) [OF b Node(3) i(1)] sub branch_nth(3) [OF b Node(3) i(1)], of k] i(1)
        by (intro extract_none) simp
    qed
    have skip: "concat (map (\<lambda>q. filter (owns k) (struct_leaves (snd q))) ys) = []"
      "concat (map (\<lambda>q. filter (owns k) (struct_leaves (snd q))) zs) = []"
      using none by auto
    have "filter (owns k) (struct_leaves ?s) = filter (owns k) (struct_leaves (snd p))"
      using False skip by (simp add: chs filter_concat case_prod_unfold comp_def del: concat_eq_Nil_conv)
    then have pl: "filter (owns k) (struct_leaves (snd (chs ! ?j))) = [l]"
      using Node(5) j by simp
    obtain m lf where m: "ExtractPathForCoSigners [k] (snd (tn_children n ! ?j)) = Some m" "GetLeafNodes m = [lf]"
      "leaf_view lf = struct_view l"
      using Node(1) [OF branch_nth(1,3,2) [OF b Node(3) j(1)] _ pl] sub [of "chs ! ?j"] j(1) by auto
    have "some_children (map ?ex (tn_children n)) = [(fst (tn_children n ! ?j), m)]"
      using one_child [of ?j "tn_children n" "ExtractPathForCoSigners [k]"] j(1) len gone m(1) by simp
    then show ?thesis
      using m by (simp add: ex in_order_def)
  qed
qed

section \<open>Assembled trees\<close>

lemma AssembleTree_Inr:
  assumes "AssembleTree lib fuel cfg rootInput (Some out) leaves = Some (Inr t)"
  obtains op radix f s n where "tc_operatorKey cfg = Some op" "2 \<le> radix" "int radix \<le> max 2 (tc_radix cfg)" "leaves \<noteq> []"
    "buildStructureRecursive lib op radix (Some f) fuel leaves = Some (Inr s)" "st_amount s = out_value out"
    "Materialize lib (tc_sweepTapscriptRoot cfg) s rootInput = Inr n"
    "t = \<lparr>tr_root = Some n, tr_batchOutpoint = rootInput, tr_batchOutput = Some out,
       tr_sweepTapscriptRoot = tc_sweepTapscriptRoot cfg, tr_sweepKey = None, tr_sweepDelay = 0\<rparr>"
proof -
  let ?radix = "if tc_radix cfg = 0 then DefaultRadix else tc_radix cfg"
  let ?f = "case tc_weightFn cfg of None \<Rightarrow> WeightByBtcAmount | Some f \<Rightarrow> f"
  have ne: "leaves \<noteq> []"
    using assms by (cases "leaves = []") (simp_all add: AssembleTree_def)
  obtain op where op: "tc_operatorKey cfg = Some op"
    using assms ne by (cases "tc_operatorKey cfg") (simp_all add: AssembleTree_def)
  have r: "\<not> (tc_radix cfg < DefaultRadix \<and> tc_radix cfg \<noteq> 0)"
    using assms ne op by (cases "tc_radix cfg < DefaultRadix \<and> tc_radix cfg \<noteq> 0") (simp_all add: AssembleTree_def)
  obtain m where m: "BuildStructure lib op (nat ?radix) (Some ?f) fuel leaves = Some m"
    and t: "bindR m (\<lambda>result. case result of
        None \<Rightarrow> Inl NilPointer
      | Some root \<Rightarrow>
          if st_amount root \<noteq> out_value out then Inl (TreeError ''leaf amounts sum must equal the output value'')
          else bindR (Materialize lib (tc_sweepTapscriptRoot cfg) root rootInput) (\<lambda>rootNode.
            Inr \<lparr>tr_root = Some rootNode, tr_batchOutpoint = rootInput, tr_batchOutput = Some out,
                 tr_sweepTapscriptRoot = tc_sweepTapscriptRoot cfg, tr_sweepKey = None, tr_sweepDelay = 0\<rparr>)) = Inr t"
    using assms ne op r by (auto simp: AssembleTree_def Let_def)
  obtain s n where s: "m = Inr (Some s)" "st_amount s = out_value out" "Materialize lib (tc_sweepTapscriptRoot cfg) s rootInput = Inr n"
    "t = \<lparr>tr_root = Some n, tr_batchOutpoint = rootInput, tr_batchOutput = Some out,
       tr_sweepTapscriptRoot = tc_sweepTapscriptRoot cfg, tr_sweepKey = None, tr_sweepDelay = 0\<rparr>"
    using t by (auto split: option.splits if_splits)
  have "buildStructureRecursive lib op (nat ?radix) (Some ?f) fuel leaves = Some (Inr s)"
    using m s(1) ne by (auto simp: BuildStructure_def)
  then show ?thesis
    using that [of op "nat ?radix" ?f s n] op r ne s by (auto simp: DefaultRadix_def)
qed

lemma leaf_total:
  assumes "mset (struct_leaves s) = mset (map (leaf_struct lib op) leaves)"
  shows "struct_total s = sum_list (map (\<lambda>l. sint (lf_amount l)) leaves)"
    and "set (struct_leaves s) = leaf_struct lib op ` set leaves"
    and "length (struct_leaves s) = length leaves"
proof -
  have "mset (map (\<lambda>l. sint (st_amount l)) (struct_leaves s)) = mset (map (\<lambda>l. sint (lf_amount l)) leaves)"
    using arg_cong [OF assms, of "image_mset (\<lambda>l. sint (st_amount l))"] by (simp add: multiset.map_comp comp_def leaf_struct_def)
  then show "struct_total s = sum_list (map (\<lambda>l. sint (lf_amount l)) leaves)"
    unfolding struct_total_def by (metis sum_mset_sum_list)
  show "set (struct_leaves s) = leaf_struct lib op ` set leaves"
    using arg_cong [OF assms, of set_mset] by simp
  show "length (struct_leaves s) = length leaves"
    using arg_cong [OF assms, of size] by simp
qed

lemma amounts_fit_leaves:
  assumes "mset (struct_leaves s) = mset (map (leaf_struct lib op) leaves)"
    and "\<forall>l \<in> set leaves. 0 \<le> sint (lf_amount l)" and "sum_list (map (\<lambda>l. sint (lf_amount l)) leaves) \<le> 2100000000000000"
  shows "amounts_fit s"
  using assms(2,3) leaf_total [OF assms(1)] by (auto simp: amounts_fit_def leaf_struct_def)

section \<open>Success\<close>

text \<open>
  Key aggregation and script construction do not fail on the keys of a tree: \<open>AggregateKeys\<close>
  fails only for an empty list or a degenerate sum, \<open>PayToTaprootScript\<close> never.
\<close>

definition keys_combine :: "treeLib \<Rightarrow> bool" where
  "keys_combine lib \<longleftrightarrow>
     (\<forall>ks root. ks \<noteq> [] \<longrightarrow> okR (tl_aggregate lib ks root)) \<and> (\<forall>k. okR (al_payToTaproot (tl_ark lib) k))"

lemma unique_loop_ne: "UniqueCosigners lib (k # ks) \<noteq> []"
  by (simp add: UniqueCosigners_def Let_def)

lemma struct_ok_cosigners: "struct_ok lib op radix s \<Longrightarrow> st_coSigners s \<noteq> []"
  by (cases s) (auto simp: leaf_struct_def branch_structure_def unique_loop_ne split: if_splits)

lemma ComputeFinalKey_total:
  assumes "keys_combine lib" and "cos \<noteq> []"
  shows "\<exists>k. ComputeFinalKey lib cos root = Inr k"
proof -
  obtain p where "tl_aggregate lib cos root = Inr p"
    using assms unfolding keys_combine_def okR_iff by blast
  then show ?thesis
    using assms(2) by (cases p) (auto simp: ComputeFinalKey_def split: list.splits)
qed

lemma branch_outputs_total:
  assumes "keys_combine lib"
  shows "\<forall>c \<in> set cs. st_coSigners c \<noteq> [] \<Longrightarrow> \<exists>outs. branch_outputs lib tweak cs = Inr outs"
proof (induction cs)
  case (Cons c cs)
  obtain outs where outs: "branch_outputs lib tweak cs = Inr outs"
    using Cons by auto
  obtain k where k: "ComputeFinalKey lib (st_coSigners c) tweak = Inr k"
    using ComputeFinalKey_total [OF assms] Cons(2) by force
  obtain sc where "al_payToTaproot (tl_ark lib) k = Inr sc"
    using assms unfolding keys_combine_def okR_iff by blast
  then show ?case
    using outs k by simp
qed simp

lemma collect_children_total:
  "\<forall>(i, r) \<in> set rs. \<exists>c. r = Inr c \<Longrightarrow> \<exists>l. collect_children rs = Inr l"
  by (induction rs) auto

lemma Materialize_total:
  assumes "keys_combine lib"
  shows "struct_ok lib' op radix s \<Longrightarrow> \<forall>l \<in> set (struct_leaves s). st_script l \<noteq> [] \<Longrightarrow>
    \<exists>n. Materialize lib tweak s input = Inr n"
proof (induction s arbitrary: input rule: struct_induct)
  case (Node cos chs amt script)
  obtain k where k: "ComputeFinalKey lib cos tweak = Inr k"
    using ComputeFinalKey_total [OF assms] struct_ok_cosigners [OF Node(2)] by force
  show ?case
  proof (cases "chs = []")
    case True
    then show ?thesis
      using k Node(3) by (simp add: materializeLeaf_def)
  next
    case False
    have child: "struct_ok lib' op radix c" "\<forall>l \<in> set (struct_leaves c). st_script l \<noteq> []" if "(i, c) \<in> set chs" for i c
    proof -
      show "struct_ok lib' op radix c"
        using Node(2) that False by auto
      have "set (struct_leaves c) \<subseteq> set (struct_leaves (StructNode cos chs amt script))"
        using that by force
      then show "\<forall>l \<in> set (struct_leaves c). st_script l \<noteq> []"
        using Node(3) by blast
    qed
    have "\<forall>c \<in> set (in_order chs). st_coSigners c \<noteq> []"
      using struct_ok_cosigners [OF child(1)] by (auto simp: in_order_def)
    then obtain outs where outs: "branch_outputs lib tweak (in_order chs) = Inr outs"
      using branch_outputs_total [OF assms] by blast
    then obtain txid where "TXID lib (TreeNode input outs cos [] amt None (Some k)) = Inr txid"
      by (auto simp: branch_outputs_Inr TXID_def ToTx_def)
    moreover have "\<exists>n. Materialize lib tweak c inp = Inr n" if "(i, c) \<in> set chs" for i c inp
      using Node(1) [OF that child [OF that]] .
    then have "\<exists>l. collect_children (sort_key fst (map (\<lambda>(i, c). (i, Materialize lib tweak c (inp i))) chs)) = Inr l" for inp
      by (intro collect_children_total) auto
    ultimately show ?thesis
      using False k outs by auto
  qed
qed

lemma struct_amount_word: "struct_ok lib op radix s \<Longrightarrow> st_amount s = sum_list (map st_amount (struct_leaves s))"
proof (induction s rule: struct_induct)
  case (Node cos chs amt script)
  show ?case
  proof (cases "chs = []")
    case False
    have "map (\<lambda>(_, c). st_amount c) chs = map (\<lambda>(_, c). sum_list (map st_amount (struct_leaves c))) chs"
      using Node False by auto
    then show ?thesis
      using Node(2) False
      by (simp add: branch_structure_def map_concat sum_list_concat comp_def case_prod_unfold del: map_eq_conv)
  qed simp
qed

text \<open>Enough fuel for the recursion is the number of leaves.\<close>

lemma AssembleTree_total:
  assumes "keys_combine lib" and "leaves \<noteq> []" and "tc_operatorKey cfg = Some op" and "2 \<le> tc_radix cfg" and "tc_weightFn cfg = None"
    and "\<forall>l \<in> set leaves. lf_coSignerKey l \<noteq> None \<and> lf_pkScript l \<noteq> [] \<and> 0 < sint (lf_amount l)"
    and "out_value out = sum_list (map lf_amount leaves)" and "length leaves \<le> fuel"
  shows "\<exists>t. AssembleTree lib fuel cfg rootInput (Some out) leaves = Some (Inr t)"
proof -
  let ?r = "nat (tc_radix cfg)"
  have r: "2 \<le> ?r"
    using assms(4) by simp
  have "weightless WeightByBtcAmount leaves = []"
    using assms(6) by (auto simp: weightless_def WeightByBtcAmount_def filter_empty_conv)
  then have "splits_by (Some WeightByBtcAmount) leaves"
    by (simp add: splits_by_def)
  then obtain x where "buildStructureRecursive lib op ?r (Some WeightByBtcAmount) fuel leaves = Some x"
    using build_returns [OF r _ assms(2,8)] by blast
  moreover have "all_keyed leaves"
    using assms(6) by (simp add: all_keyed_def)
  ultimately obtain s where s: "buildStructureRecursive lib op ?r (Some WeightByBtcAmount) fuel leaves = Some (Inr s)"
    using build_no_error [OF r _ assms(2)] by (cases x) blast+
  have ok: "struct_ok lib op ?r s" and leaves: "mset (struct_leaves s) = mset (map (leaf_struct lib op) leaves)"
    using build_shape [OF r assms(2) s] by auto
  have "mset (map st_amount (struct_leaves s)) = mset (map lf_amount leaves)"
    using arg_cong [OF leaves, of "image_mset st_amount"] by (simp add: multiset.map_comp comp_def leaf_struct_def)
  then have amt: "st_amount s = out_value out"
    unfolding struct_amount_word [OF ok] assms(7) by (metis sum_mset_sum_list)
  have "\<forall>l \<in> set (struct_leaves s). st_script l \<noteq> []"
    using leaf_total(2) [OF leaves] assms(6) by (auto simp: leaf_struct_def)
  then obtain n where "Materialize lib (tc_sweepTapscriptRoot cfg) s rootInput = Inr n"
    using Materialize_total [OF assms(1) ok] by blast
  then show ?thesis
    using s amt assms(2-5) by (simp add: AssembleTree_def BuildStructure_def DefaultRadix_def)
qed

section \<open>What an assembled tree is\<close>

text \<open>
  C33: A tree the assembler returns is valid: it conserves value from the batch output down,
  every output pays to the key of the transaction that spends it, every transaction ends in an
  anchor, there is one leaf transaction for each descriptor, paying its script and amount and
  signed by its owner and the operator, and there are fewer than two transactions per leaf.
\<close>

theorem assembled_tree_valid:
  assumes "AssembleTree lib fuel cfg rootInput (Some out) leaves = Some (Inr t)" and "tc_radix cfg \<le> 2 ^ 32"
    and "\<forall>l \<in> set leaves. 0 \<le> sint (lf_amount l)" and "sum_list (map (\<lambda>l. sint (lf_amount l)) leaves) \<le> 2100000000000000"
  shows "Verify lib (Some t) = None \<and> ValidateChildScripts lib (Some t) = None \<and> ValidateAnchors (Some t) = None \<and>
     (\<exists>root op. tr_root t = Some root \<and> tc_operatorKey cfg = Some op \<and>
        mset (map (\<lambda>n. (tn_coSigners n, tn_outputs n)) (GetLeafNodes root)) =
          mset (map (\<lambda>l. (UniqueCosigners lib [op, the (lf_coSignerKey l)],
            [Some \<lparr>out_value = lf_amount l, out_pkScript = lf_pkScript l\<rparr>, Some AnchorOutput])) leaves) \<and>
        NumTx root < 2 * length leaves)"
proof -
  obtain op radix f s n where op: "tc_operatorKey cfg = Some op" and r: "2 \<le> radix" "int radix \<le> max 2 (tc_radix cfg)"
    and ne: "leaves \<noteq> []" and b: "buildStructureRecursive lib op radix (Some f) fuel leaves = Some (Inr s)"
    and amt: "st_amount s = out_value out" and n: "Materialize lib (tc_sweepTapscriptRoot cfg) s rootInput = Inr n"
    and t: "t = \<lparr>tr_root = Some n, tr_batchOutpoint = rootInput, tr_batchOutput = Some out,
       tr_sweepTapscriptRoot = tc_sweepTapscriptRoot cfg, tr_sweepKey = None, tr_sweepDelay = 0\<rparr>"
    using AssembleTree_Inr [OF assms(1)] .
  have radix: "radix \<le> 2 ^ 32"
    using r assms(2) by (simp add: max_def split: if_splits)
  have ok: "struct_ok lib op radix s" and leaves: "mset (struct_leaves s) = mset (map (leaf_struct lib op) leaves)"
    using build_shape [OF r(1) ne b] by blast+
  have fit: "amounts_fit s"
    by (rule amounts_fit_leaves [OF leaves assms(3,4)])
  have "0 \<le> sint (out_value out)" "sint (out_value out) \<le> 2100000000000000"
    using struct_amount_exact [OF ok fit] fit amounts_fit_nonneg [OF fit] amt by (auto simp: amounts_fit_def)
  then have "Verify lib (Some t) = None"
    using materialized_values [OF n ok radix fit] amt by (simp add: Verify_None_iff t)
  moreover have "ValidateChildScripts lib (Some t) = None"
    using materialized_scripts [OF n ok radix] by (simp add: ValidateChildScripts_def t)
  moreover have "ValidateAnchors (Some t) = None"
    using materialized_nodes [OF n ok radix] by (simp add: ValidateAnchors_def t)
  moreover have "mset (map leaf_view (GetLeafNodes n)) = mset (map (\<lambda>l. struct_view (leaf_struct lib op l)) leaves)"
    using arg_cong [OF leaves, of "image_mset struct_view"] materialized_leaves [OF n ok radix]
    by (simp add: multiset.map_comp comp_def flip: mset_map)
  then have "mset (map (\<lambda>n. (tn_coSigners n, tn_outputs n)) (GetLeafNodes n)) =
      mset (map (\<lambda>l. (UniqueCosigners lib [op, the (lf_coSignerKey l)],
        [Some \<lparr>out_value = lf_amount l, out_pkScript = lf_pkScript l\<rparr>, Some AnchorOutput])) leaves)"
    unfolding leaf_view_def struct_view_def leaf_struct_def by simp
  moreover have "NumTx n < 2 * length leaves"
    using materialized_size [OF n ok radix] leaf_total(3) [OF leaves] by simp
  ultimately show ?thesis
    using op by (auto simp: t)
qed

lemma ex_keys_combine: "keys_combine ex_tx_lib"
  by (simp add: keys_combine_def ex_tx_lib_def ex_ark_def)

definition ex_tree_config :: treeConfig where
  "ex_tree_config = \<lparr>tc_operatorKey = Some [9], tc_sweepTapscriptRoot = [7], tc_radix = 2, tc_weightFn = None\<rparr>"

theorem assembled_tree_valid_witness:
  "\<exists>t. AssembleTree ex_tx_lib 2 ex_tree_config \<lparr>op_hash = 7, op_index = 0\<rparr> (Some \<lparr>out_value = 1000, out_pkScript = [0x51]\<rparr>)
       [ex_leaf_of 600 2, ex_leaf_of 400 3] = Some (Inr t) \<and>
     Verify ex_tx_lib (Some t) = None \<and> ValidateChildScripts ex_tx_lib (Some t) = None \<and> ValidateAnchors (Some t) = None"
proof -
  let ?A = "AssembleTree ex_tx_lib 2 ex_tree_config \<lparr>op_hash = 7, op_index = 0\<rparr> (Some \<lparr>out_value = 1000, out_pkScript = [0x51]\<rparr>)
       [ex_leaf_of 600 2, ex_leaf_of 400 3]"
  have "\<exists>t. ?A = Some (Inr t)"
    by (rule AssembleTree_total) (simp_all add: ex_tree_config_def ex_leaf_of_def ex_keys_combine)
  then obtain t where t: "?A = Some (Inr t)" ..
  show ?thesis
    using assembled_tree_valid [OF t] t by (auto simp: ex_tree_config_def ex_leaf_of_def)
qed

lemma validate_descriptors_ok:
  "validate_descriptors lib seen i vs = None \<Longrightarrow>
    (\<forall>v \<in> set vs. 0 < sint (vd_amount v) \<and> vd_pkScript v \<noteq> [] \<and> vd_coSignerKey v \<noteq> None) \<and>
    distinct (map (\<lambda>v. al_xOnly (tl_ark lib) (the (vd_coSignerKey v))) vs) \<and>
    (\<lambda>v. al_xOnly (tl_ark lib) (the (vd_coSignerKey v))) ` set vs \<inter> seen = {}"
  by (induction lib seen i vs rule: validate_descriptors.induct) (auto simp: Let_def split: if_splits option.splits)

end
