(* ===== verification/Tree_Batch.thy ===== *)
theory Tree_Batch
  imports Tree_Valid
begin

text \<open>
  The trees and outputs of a batch: what the owner of a VTXO can rely on when the operator
  builds the tree and the output of the commitment transaction from the same descriptors.
\<close>

section \<open>VTXO trees\<close>

definition owner_key :: "vtxoDescriptor \<Rightarrow> pubKey" where
  "owner_key v = the (vd_coSignerKey v)"

definition batch_total :: "vtxoDescriptor list \<Rightarrow> int" where
  "batch_total vtxos = sum_list (map (\<lambda>v. sint (vd_amount v)) vtxos)"

text \<open>The operator's key is not one of the owners' keys; the batch output refuses such owners.\<close>

definition operator_apart :: "treeLib \<Rightarrow> pubKey \<Rightarrow> vtxoDescriptor list \<Rightarrow> bool" where
  "operator_apart lib op vtxos \<longleftrightarrow> al_xOnly (tl_ark lib) op \<notin> (\<lambda>v. al_xOnly (tl_ark lib) (owner_key v)) ` set vtxos"

lemma ValidateVTXODescriptors_ok:
  assumes "ValidateVTXODescriptors lib vtxos = None"
  shows "vtxos \<noteq> []" and "\<forall>v \<in> set vtxos. 0 < sint (vd_amount v) \<and> vd_pkScript v \<noteq> [] \<and> vd_coSignerKey v \<noteq> None"
    and "distinct (map (\<lambda>v. al_xOnly (tl_ark lib) (owner_key v)) vtxos)"
  using assms validate_descriptors_ok [of lib "{}" 0 vtxos]
  by (auto simp: ValidateVTXODescriptors_def owner_key_def split: if_splits)

lemma keys_injective:
  assumes "distinct (map (\<lambda>v. al_xOnly (tl_ark lib) (owner_key v)) vtxos)" and "operator_apart lib op vtxos"
  shows "inj_on (al_xOnly (tl_ark lib)) (insert op (owner_key ` set vtxos))"
proof -
  have "inj_on (al_xOnly (tl_ark lib) \<circ> owner_key) (set vtxos)"
    using assms(1) by (simp add: distinct_map comp_def)
  then have "inj_on (al_xOnly (tl_ark lib)) (owner_key ` set vtxos)"
    by (rule inj_on_imageI)
  then show ?thesis
    using assms(2) by (auto simp: operator_apart_def inj_on_insert)
qed

definition vtxo_struct :: "treeLib \<Rightarrow> pubKey \<Rightarrow> vtxoDescriptor \<Rightarrow> structNode" where
  "vtxo_struct lib op v = leaf_struct lib op (ToLeafDescriptor v)"

lemma map_vtxo_struct: "map (vtxo_struct lib op) vtxos = map (leaf_struct lib op) (map ToLeafDescriptor vtxos)"
  by (simp add: vtxo_struct_def)

lemma BuildVTXOTree_Inr:
  assumes "BuildVTXOTree lib fuel batchOutpoint batchOutput vtxos (Some op) sweepKey sweepDelay radix = Some (Inr t)"
  obtains out leaf tweak r s n where "batchOutput = Some out" "sweepTapData lib sweepKey sweepDelay = Inr (leaf, tweak)"
    "ValidateVTXODescriptors lib vtxos = None" "int r \<le> radix" "struct_ok lib op r s"
    "mset (struct_leaves s) = mset (map (vtxo_struct lib op) vtxos)" "st_amount s = out_value out"
    "Materialize lib tweak s batchOutpoint = Inr n"
    "t = \<lparr>tr_root = Some n, tr_batchOutpoint = batchOutpoint, tr_batchOutput = Some out,
       tr_sweepTapscriptRoot = tweak, tr_sweepKey = None, tr_sweepDelay = 0\<rparr>"
proof -
  have valid: "ValidateVTXODescriptors lib vtxos = None" and radix: "2 \<le> radix"
    using assms by (auto simp: BuildVTXOTree_def split: option.splits if_splits)
  obtain leaf tweak where tweak: "sweepTapData lib sweepKey sweepDelay = Inr (leaf, tweak)"
    using assms valid radix by (cases "sweepTapData lib sweepKey sweepDelay") (auto simp: BuildVTXOTree_def Let_def split: if_splits)
  let ?cfg = "\<lparr>tc_operatorKey = Some op, tc_sweepTapscriptRoot = tweak, tc_radix = radix, tc_weightFn = None\<rparr>"
  let ?leaves = "SliceStable leaf_before (map ToLeafDescriptor vtxos)"
  have a: "AssembleTree lib fuel ?cfg batchOutpoint batchOutput ?leaves = Some (Inr t)"
    using assms valid radix tweak by (auto simp: BuildVTXOTree_def Let_def split: if_splits)
  have ne: "?leaves \<noteq> []"
    using ValidateVTXODescriptors_ok(1) [OF valid] length_SliceStable [of leaf_before "map ToLeafDescriptor vtxos"]
    by (metis length_0_conv length_map)
  obtain out where out: "batchOutput = Some out"
    using a ne by (cases batchOutput) (auto simp: AssembleTree_def)
  obtain op' r f s n where op: "tc_operatorKey ?cfg = Some op'" and r: "2 \<le> r" "int r \<le> max 2 (tc_radix ?cfg)"
    and b: "buildStructureRecursive lib op' r (Some f) fuel ?leaves = Some (Inr s)"
    and amt: "st_amount s = out_value out" and n: "Materialize lib (tc_sweepTapscriptRoot ?cfg) s batchOutpoint = Inr n"
    and t: "t = \<lparr>tr_root = Some n, tr_batchOutpoint = batchOutpoint, tr_batchOutput = Some out,
       tr_sweepTapscriptRoot = tc_sweepTapscriptRoot ?cfg, tr_sweepKey = None, tr_sweepDelay = 0\<rparr>"
    using AssembleTree_Inr [OF a [unfolded out]] .
  have op': "op' = op"
    using op by simp
  have "struct_ok lib op r s" "mset (struct_leaves s) = mset (map (leaf_struct lib op) ?leaves)"
    using build_shape [OF r(1) ne b] op' by blast+
  then show ?thesis
    using that [of out leaf tweak r s n] out tweak valid r radix amt n t
    by (simp add: multiset.map_comp comp_def vtxo_struct_def [abs_def])
qed

lemma vtxo_amounts_fit:
  assumes "mset (struct_leaves s) = mset (map (vtxo_struct lib op) vtxos)"
    and "\<forall>v \<in> set vtxos. 0 < sint (vd_amount v)" and "batch_total vtxos \<le> 2100000000000000"
  shows "amounts_fit s"
  using assms(2,3)
  by (intro amounts_fit_leaves [OF assms(1) [unfolded map_vtxo_struct]])
    (auto simp: ToLeafDescriptor_def batch_total_def comp_def intro: less_imp_le)

lemma filter_distinct_key: "distinct (map f xs) \<Longrightarrow> x \<in> set xs \<Longrightarrow> filter (\<lambda>y. f y = f x) xs = [x]"
proof (induction xs)
  case (Cons y ys)
  show ?case
  proof (cases "x = y")
    case True
    then show ?thesis
      using Cons(2) by (simp add: filter_empty_conv) (metis image_eqI)
  next
    case False
    then show ?thesis
      using Cons by auto
  qed
qed simp

lemma vtxo_cosigners:
  assumes "distinct (map (\<lambda>v. al_xOnly (tl_ark lib) (owner_key v)) vtxos)" and "operator_apart lib op vtxos" and "w \<in> set vtxos"
  shows "set (st_coSigners (vtxo_struct lib op w)) = {op, owner_key w}"
proof -
  have "inj_on (al_xOnly (tl_ark lib)) (set [op, owner_key w])"
    by (rule inj_on_subset [OF keys_injective [OF assms(1,2)]]) (use assms(3) in auto)
  then show ?thesis
    using set_UniqueCosigners [of lib "[op, owner_key w]"]
    by (simp add: vtxo_struct_def leaf_struct_def ToLeafDescriptor_def owner_key_def)
qed

text \<open>Every owner has exactly one leaf.\<close>

lemma one_leaf:
  assumes "mset (struct_leaves s) = mset (map (vtxo_struct lib op) vtxos)" and "v \<in> set vtxos"
    and "distinct (map (\<lambda>v. al_xOnly (tl_ark lib) (owner_key v)) vtxos)" and "operator_apart lib op vtxos"
  shows "filter (owns (owner_key v)) (struct_leaves s) = [vtxo_struct lib op v]"
proof -
  have ne: "owner_key v \<noteq> op"
    using assms(2,4) by (auto simp: operator_apart_def)
  have owns: "owns (owner_key v) (vtxo_struct lib op w) \<longleftrightarrow> owner_key w = owner_key v" if "w \<in> set vtxos" for w
    unfolding owns_def vtxo_cosigners [OF assms(3,4) that] using ne by auto
  have keys: "distinct (map owner_key vtxos)"
    using assms(3) distinct_map [of "al_xOnly (tl_ark lib)" "map owner_key vtxos"] by (simp only: map_map comp_def simp_thms)
  have "mset (filter (owns (owner_key v)) (struct_leaves s)) = filter_mset (owns (owner_key v)) (mset (map (vtxo_struct lib op) vtxos))"
    by (simp only: mset_filter assms(1))
  also have "\<dots> = mset (map (vtxo_struct lib op) (filter (owns (owner_key v) \<circ> vtxo_struct lib op) vtxos))"
    by (simp only: mset_filter [symmetric] filter_map)
  also have "filter (owns (owner_key v) \<circ> vtxo_struct lib op) vtxos = filter (\<lambda>w. owner_key w = owner_key v) vtxos"
    by (rule filter_cong) (simp_all only: comp_def owns)
  also have "\<dots> = [v]"
    by (rule filter_distinct_key [OF keys assms(2)])
  finally show ?thesis
    by (simp only: list.map mset_single_iff mset.simps add_mset_eq_single)
qed

lemma vtxo_cosigners_within:
  assumes "mset (struct_leaves s) = mset (map (vtxo_struct lib op) vtxos)"
    and "distinct (map (\<lambda>v. al_xOnly (tl_ark lib) (owner_key v)) vtxos)" and "operator_apart lib op vtxos"
  shows "(\<Union>l \<in> set (struct_leaves s). set (st_coSigners l)) \<subseteq> insert op (owner_key ` set vtxos)"
proof -
  have "set (struct_leaves s) = vtxo_struct lib op ` set vtxos"
    using arg_cong [OF assms(1), of set_mset] by simp
  then show ?thesis
    using vtxo_cosigners [OF assms(2,3)] by auto
qed

lemma BuildVTXOTree_total:
  assumes "keys_combine lib" and "ValidateVTXODescriptors lib vtxos = None" and "2 \<le> radix" and "sweepKey \<noteq> None"
    and "sweepTapData lib sweepKey sweepDelay = Inr (leaf, tweak)" and "out_value out = sum_list (map vd_amount vtxos)"
    and "length vtxos \<le> fuel"
  shows "\<exists>t. BuildVTXOTree lib fuel batchOutpoint (Some out) vtxos (Some op) sweepKey sweepDelay radix = Some (Inr t)"
proof -
  let ?leaves = "SliceStable leaf_before (map ToLeafDescriptor vtxos)"
  note v = ValidateVTXODescriptors_ok [OF assms(2)]
  have ne: "?leaves \<noteq> []"
    using v(1) length_SliceStable [of leaf_before "map ToLeafDescriptor vtxos"] by (metis length_0_conv length_map)
  have "mset (map lf_amount ?leaves) = mset (map vd_amount vtxos)"
    by (simp add: multiset.map_comp comp_def ToLeafDescriptor_def)
  then have amt: "out_value out = sum_list (map lf_amount ?leaves)"
    unfolding assms(6) by (metis sum_mset_sum_list)
  have "\<forall>l \<in> set ?leaves. lf_coSignerKey l \<noteq> None \<and> lf_pkScript l \<noteq> [] \<and> 0 < sint (lf_amount l)"
    using v(2) by (auto simp: ToLeafDescriptor_def)
  then have "\<exists>t. AssembleTree lib fuel \<lparr>tc_operatorKey = Some op, tc_sweepTapscriptRoot = tweak, tc_radix = radix, tc_weightFn = None\<rparr>
      batchOutpoint (Some out) ?leaves = Some (Inr t)"
    using assms(3,7) amt by (intro AssembleTree_total [OF assms(1) ne]) simp_all
  then show ?thesis
    using assms(2-5) by (simp add: BuildVTXOTree_def)
qed

section \<open>What the owners check\<close>

text \<open>
  Every owner's check succeeds on the tree the operator builds: for a batch within the money
  supply whose operator key is not an owner's key, the client that validates its path in the
  built tree with the key, script and amount of its descriptor accepts it.
\<close>

lemma owner_path_validates:
  assumes "BuildVTXOTree lib fuel batchOutpoint batchOutput vtxos (Some op) sweepKey sweepDelay radix = Some (Inr t)"
    and "radix \<le> 2 ^ 32" and "batch_total vtxos \<le> 2100000000000000" and "operator_apart lib op vtxos" and "v \<in> set vtxos"
  shows "okR (ValidatePath lib (vd_coSignerKey v) (ToLeafDescriptor v) (Some op) (Some t))"
proof -
  obtain out leaf tweak r s n where valid: "ValidateVTXODescriptors lib vtxos = None" and r: "int r \<le> radix"
    and ok: "struct_ok lib op r s" and leaves: "mset (struct_leaves s) = mset (map (vtxo_struct lib op) vtxos)"
    and amt: "st_amount s = out_value out" and n: "Materialize lib tweak s batchOutpoint = Inr n"
    and t: "t = \<lparr>tr_root = Some n, tr_batchOutpoint = batchOutpoint, tr_batchOutput = Some out,
       tr_sweepTapscriptRoot = tweak, tr_sweepKey = None, tr_sweepDelay = 0\<rparr>"
    using BuildVTXOTree_Inr [OF assms(1)] .
  have radix: "r \<le> 2 ^ 32"
    using r assms(2) by simp
  note v = ValidateVTXODescriptors_ok [OF valid]
  have fit: "amounts_fit s"
    by (rule vtxo_amounts_fit [OF leaves]) (use v(2) assms(3) in auto)
  have out: "0 \<le> sint (out_value out)" "sint (out_value out) \<le> 2100000000000000"
    using struct_amount_exact [OF ok fit] fit amounts_fit_nonneg [OF fit] amt by (auto simp: amounts_fit_def)
  note inj = keys_injective [OF v(3) assms(4)]
  obtain m lf where m: "ExtractPathForCoSigners [owner_key v] n = Some m" "GetLeafNodes m = [lf]"
    "leaf_view lf = struct_view (vtxo_struct lib op v)"
    using owner_path [OF inj _ radix n ok vtxo_cosigners_within [OF leaves v(3) assms(4)] one_leaf [OF leaves assms(5) v(3) assms(4)]]
    by auto
  have vals: "validateNodeValueConservation lib m batchOutpoint (out_value out) = None"
    using extract_value [OF m(1)] materialized_values [OF n ok radix fit] amt by simp
  have scripts: "validateNodeChildScripts lib tweak m = None"
    using extract_scripts [OF m(1) materialized_scripts [OF n ok radix]] .
  have "op \<in> set (tn_coSigners lf)"
    using m(3) vtxo_cosigners [OF v(3) assms(4,5)] by (simp add: leaf_view_def struct_view_def)
  then have "client_path lib (owner_key v) (ToLeafDescriptor v) op t m"
    using m vals scripts out
    by (auto simp: client_path_def t leaf_view_def struct_view_def vtxo_struct_def leaf_struct_def ToLeafDescriptor_def)
  moreover have "vd_coSignerKey v = Some (owner_key v)" "vd_pkScript v \<noteq> []"
    using v(2) assms(5) by (auto simp: owner_key_def)
  ultimately show ?thesis
    by (auto simp: okR_iff ValidatePath_Inr_iff ToLeafDescriptor_def)
qed

definition ex_vtxo_of :: "i64 \<Rightarrow> byte \<Rightarrow> vtxoDescriptor" where
  "ex_vtxo_of v k = \<lparr>vd_policyTemplate = [], vd_pkScript = [0x51, k], vd_amount = v, vd_coSignerKey = Some [k]\<rparr>"

lemma ex_sweep_data: "\<exists>leaf tweak. sweepTapData ex_tx_lib (Some [8]) 144 = Inr (leaf, tweak)"
  by (simp add: sweepTapData_def UnilateralCSVTimeoutTapLeaf_def ex_tx_lib_def ex_ark_def validateCSVLock_def
      SequenceLockTimeMask_def scriptChecksig_def)

section \<open>The output of the batch\<close>

lemma batch_loop_Inr:
  "batch_loop lib (al_xOnly (tl_ark lib) op) vtxos i seen signers sofar = Inr (signers', amount) \<Longrightarrow> 0 \<le> sint sofar \<Longrightarrow>
    signers' = signers @ unique_loop lib seen (map owner_key vtxos) \<and> amount = sofar + sum_list (map vd_amount vtxos) \<and>
    sint amount = sint sofar + batch_total vtxos \<and> operator_apart lib op vtxos"
proof (induction vtxos arbitrary: i seen signers sofar)
  case (Cons v vtxos)
  obtain key where key: "vd_coSignerKey v = Some key"
    using Cons(2) by (cases "vd_coSignerKey v") (auto split: if_splits)
  then have own: "owner_key v = key"
    by (simp add: owner_key_def)
  have amt: "0 \<le> sint (vd_amount v)" "sint sofar \<le> sint (max_int64 - vd_amount v)" and apart: "al_xOnly (tl_ark lib) key \<noteq> al_xOnly (tl_ark lib) op"
    using Cons(2) key by (auto simp: Let_def split: if_splits)
  have "sint (max_int64 - vd_amount v) = 2 ^ 63 - 1 - sint (vd_amount v)"
    using amt(1) sint_less [of "vd_amount v"] by (subst sint_sub64) (simp_all add: max_int64_def)
  then have add: "sint (sofar + vd_amount v) = sint sofar + sint (vd_amount v)"
    using amt Cons(3) by (intro sint_add64) auto
  let ?seen = "if al_xOnly (tl_ark lib) key \<in> seen then seen else insert (al_xOnly (tl_ark lib) key) seen"
  let ?signers = "if al_xOnly (tl_ark lib) key \<in> seen then signers else signers @ [key]"
  have "batch_loop lib (al_xOnly (tl_ark lib) op) vtxos (Suc i) ?seen ?signers (sofar + vd_amount v) = Inr (signers', amount)"
    using Cons(2) key by (auto simp: Let_def split: if_splits)
  then have "signers' = ?signers @ unique_loop lib ?seen (map owner_key vtxos) \<and>
      amount = sofar + vd_amount v + sum_list (map vd_amount vtxos) \<and>
      sint amount = sint (sofar + vd_amount v) + batch_total vtxos \<and> operator_apart lib op vtxos"
    by (rule Cons(1)) (use add amt Cons(3) in simp)
  then show ?case
    using own add apart by (auto simp: Let_def batch_total_def operator_apart_def add_ac)
qed (auto simp: batch_total_def operator_apart_def)

lemma BuildBatchOutput_Inr:
  assumes "BuildBatchOutput lib vtxos (Some op) sweepKey sweepDelay = Inr out"
  obtains leaf tweak k where "sweepKey \<noteq> None" "sweepTapData lib sweepKey sweepDelay = Inr (leaf, tweak)"
    "out_value out = sum_list (map vd_amount vtxos)" "sint (out_value out) = batch_total vtxos" "operator_apart lib op vtxos"
    "\<exists>pre. tl_aggregate lib (UniqueCosigners lib (op # map owner_key vtxos)) tweak = Inr (pre, k)"
    "al_payToTaproot (tl_ark lib) k = Inr (out_pkScript out)"
proof -
  let ?x = "al_xOnly (tl_ark lib) op"
  obtain leaf tweak signers amount pre k where sweep: "sweepKey \<noteq> None" "sweepTapData lib sweepKey sweepDelay = Inr (leaf, tweak)"
    and loop: "batch_loop lib ?x vtxos 0 {?x} [op] 0 = Inr (signers, amount)"
    and agg: "tl_aggregate lib signers tweak = Inr (pre, k)" and script: "al_payToTaproot (tl_ark lib) k = Inr (out_pkScript out)"
    and out: "out_value out = amount"
    using assms by (auto simp: BuildBatchOutput_def BuildBatchOutputSpec_def Let_def split: if_splits)
  have "signers = UniqueCosigners lib (op # map owner_key vtxos)" "amount = sum_list (map vd_amount vtxos)"
    "sint amount = batch_total vtxos" "operator_apart lib op vtxos"
    using batch_loop_Inr [OF loop] by (auto simp: UniqueCosigners_def Let_def)
  then show ?thesis
    using that [of leaf tweak k] sweep agg script out by auto
qed

end
