(* ===== verification/Batch_Schedule.thy ===== *)
theory Batch_Schedule
  imports Vtxo_FSM
begin

text \<open>
  Scheduled batches (\<open>lib/batchschedule/schedule.go\<close>, \<open>published.go\<close>): the timetable of an operator,
  the list of slots it publishes, and how a client picks one. An instant is the integer
  number of nanoseconds since the Unix epoch, a duration an integer number of nanoseconds;
  \<open>time_sub\<close> saturates at the range of int64 as \<open>Time.Sub\<close> does. All other arithmetic stays
  far inside that range, because instants end with the year 9999. SHA-256 is a parameter.
\<close>

section \<open>Instants\<close>

type_synonym goTime = int
type_synonym duration = int
type_synonym scheduleID = "byte list"

definition second :: duration where
  "second = 1000000000"

definition time_sub :: "goTime \<Rightarrow> goTime \<Rightarrow> duration" where
  "time_sub t u = max (- (2 ^ 63)) (min (2 ^ 63 - 1) (t - u))"

definition Unix :: "goTime \<Rightarrow> int" where
  "Unix t = t div second"

text \<open>The zero \<open>time.Time\<close>, the first instant of the year 1.\<close>

definition zeroTime :: goTime where
  "zeroTime = - 62135596800 * second"

definition MinRegistrationWindow :: duration where
  "MinRegistrationWindow = 10 * second"

definition MaxRegistrationWindow :: duration where
  "MaxRegistrationWindow = 300 * second"

definition maxUnixSecond :: int where
  "maxUnixSecond = 253402300799"

definition MaxPublishedSlots :: nat where
  "MaxPublishedSlots = 32"

definition MaxWakeMargin :: duration where
  "MaxWakeMargin = 2 * second"

definition isWholeSecond :: "goTime \<Rightarrow> bool" where
  "isWholeSecond t \<longleftrightarrow> t mod second = 0"

definition inRange :: "goTime \<Rightarrow> bool" where
  "inRange t \<longleftrightarrow> isWholeSecond t \<and> 0 < Unix t \<and> Unix t \<le> maxUnixSecond"

section \<open>Timetables\<close>

definition zeroScheduleID :: scheduleID where
  "zeroScheduleID = replicate 32 0"

definition IDFromBytes :: "byte list \<Rightarrow> string + scheduleID" where
  "IDFromBytes b = (if length b \<noteq> 32 then Inl ''schedule identity must be 32 bytes'' else Inr b)"

record schedule =
  sc_anchor :: goTime
  sc_interval :: duration
  sc_window :: duration
  sc_id :: scheduleID

record slot =
  sl_opens :: goTime
  sl_cutoff :: goTime

record selection =
  se_scheduleID :: scheduleID
  se_cutoff :: goTime

definition slot_Window :: "slot \<Rightarrow> duration" where
  "slot_Window s = time_sub (sl_cutoff s) (sl_opens s)"

definition Selection_Validate :: "selection \<Rightarrow> string option" where
  "Selection_Validate s =
     (if se_scheduleID s = zeroScheduleID then Some ''scheduled slot selection has no schedule identity''
      else if \<not> inRange (se_cutoff s) then Some ''scheduled slot selection has invalid cutoff''
      else None)"

definition Selection_Matches :: "selection \<Rightarrow> scheduleID \<Rightarrow> goTime \<Rightarrow> bool" where
  "Selection_Matches s schedId cutoff \<longleftrightarrow> se_scheduleID s = schedId \<and> se_cutoff s = cutoff"

definition SelectionFromUnix :: "scheduleID \<Rightarrow> u64 \<Rightarrow> string + selection" where
  "SelectionFromUnix schedId cutoffUnix =
     (if uint cutoffUnix > maxUnixSecond then Inl ''scheduled slot cutoff is out of range''
      else
        let s = \<lparr>se_scheduleID = schedId, se_cutoff = uint cutoffUnix * second\<rparr> in
        case Selection_Validate s of Some e \<Rightarrow> Inl e | None \<Rightarrow> Inr s)"

definition CutoffUnix :: "selection \<Rightarrow> u64" where
  "CutoffUnix s = word_of_int (Unix (se_cutoff s))"

definition schedulePreimage :: "goTime \<Rightarrow> duration \<Rightarrow> duration \<Rightarrow> string" where
  "schedulePreimage anchor interval window =
     ''batch-schedule-v1:'' @ dec_int (Unix anchor) @ '':'' @ dec_int (interval div second) @ '':'' @ dec_int (window div second)"

definition New :: "(string \<Rightarrow> byte list) \<Rightarrow> goTime \<Rightarrow> duration \<Rightarrow> duration \<Rightarrow> string + schedule" where
  "New sha256 anchor interval window =
     (if \<not> isWholeSecond anchor \<or> Unix anchor < 0 \<or> Unix anchor > maxUnixSecond
      then Inl ''anchor must be a whole UTC second from 1970 through 9999''
      else if interval \<le> 0 \<or> interval mod second \<noteq> 0 then Inl ''interval must be a positive whole number of seconds''
      else if window \<le> 0 \<or> window mod second \<noteq> 0 then Inl ''registration window must be a positive whole number of seconds''
      else if window < MinRegistrationWindow then Inl ''registration window is below minimum''
      else if window > interval then Inl ''registration window exceeds interval''
      else if window > MaxRegistrationWindow then Inl ''registration window exceeds maximum''
      else Inr \<lparr>sc_anchor = anchor, sc_interval = interval, sc_window = window,
                sc_id = sha256 (schedulePreimage anchor interval window)\<rparr>)"

definition slotAt :: "schedule \<Rightarrow> int \<Rightarrow> slot" where
  "slotAt s cutoffSec = \<lparr>sl_opens = cutoffSec * second - sc_window s, sl_cutoff = cutoffSec * second\<rparr>"

definition Schedule_Next :: "schedule \<Rightarrow> goTime \<Rightarrow> string + slot" where
  "Schedule_Next s after =
     (let sec = Unix after in
      if sec < 0 \<or> sec > maxUnixSecond then Inl ''time outside supported schedule range''
      else
        let anchor = Unix (sc_anchor s) in
        if sec < anchor then Inr (slotAt s anchor)
        else
          let interval = sc_interval s div second; delta = interval - (sec - anchor) mod interval in
          if delta > maxUnixSecond - sec then Inl ''next slot exceeds supported timestamp range''
          else Inr (slotAt s (sec + delta)))"

definition Schedule_At :: "schedule \<Rightarrow> goTime \<Rightarrow> string + slot" where
  "Schedule_At s cutoff =
     (let sec = Unix cutoff; anchor = Unix (sc_anchor s); interval = sc_interval s div second in
      if \<not> inRange cutoff then Inl ''cutoff is not a supported whole second''
      else if sec < anchor \<or> (sec - anchor) mod interval \<noteq> 0 then Inl ''cutoff does not belong to schedule''
      else Inr (slotAt s sec))"

section \<open>Published slots\<close>

record published =
  pb_id :: scheduleID
  pb_slots :: "slot list"
  pb_serverTime :: goTime
  pb_clockOffset :: duration

text \<open>The loop over the slots; \<open>None\<close> as the previous cutoff is the first round.\<close>

fun check_slots :: "goTime option \<Rightarrow> slot list \<Rightarrow> string option" where
  "check_slots prevCutoff [] = None"
| "check_slots prevCutoff (s # ss) =
     (if \<not> isWholeSecond (sl_opens s) \<or> Unix (sl_opens s) < 0 \<or> \<not> inRange (sl_cutoff s) \<or> \<not> sl_opens s < sl_cutoff s
      then Some ''invalid published slot''
      else if slot_Window s < MinRegistrationWindow then Some ''published slot window below minimum''
      else if slot_Window s > MaxRegistrationWindow then Some ''published slot window too long''
      else if (case prevCutoff of None \<Rightarrow> False | Some c \<Rightarrow> sl_opens s < c)
      then Some ''published slots overlap or are unordered''
      else check_slots (Some (sl_cutoff s)) ss)"

definition NewPublished :: "scheduleID \<Rightarrow> slot list \<Rightarrow> string + published" where
  "NewPublished schedId slots =
     (if schedId = zeroScheduleID \<or> slots = [] \<or> length slots > MaxPublishedSlots
      then Inl ''invalid published schedule identity or size''
      else case check_slots None slots of
        Some e \<Rightarrow> Inl e
      | None \<Rightarrow> Inr \<lparr>pb_id = schedId, pb_slots = slots, pb_serverTime = zeroTime, pb_clockOffset = 0\<rparr>)"

definition WithServerTime :: "published \<Rightarrow> goTime \<Rightarrow> published" where
  "WithServerTime p serverTime = p\<lparr>pb_serverTime := serverTime\<rparr>"

definition WithClockOffset :: "published \<Rightarrow> duration \<Rightarrow> published" where
  "WithClockOffset p offset = p\<lparr>pb_clockOffset := offset\<rparr>"

definition Published_Next :: "published \<Rightarrow> goTime \<Rightarrow> string + slot" where
  "Published_Next p after =
     (case find (\<lambda>s. after < sl_cutoff s) (pb_slots p) of
        Some s \<Rightarrow> Inr s
      | None \<Rightarrow> Inl ''published batch schedule exhausted'')"

definition EstimateClockOffset :: "goTime \<Rightarrow> goTime \<Rightarrow> goTime \<Rightarrow> duration" where
  "EstimateClockOffset serverTime sent received =
     (if serverTime = zeroTime \<or> received < sent then 0
      else
        let midpoint = sent + time_sub received sent div 2 in
        time_sub (serverTime + second div 2) midpoint)"

definition WakeBounds :: "duration \<Rightarrow> duration \<times> duration" where
  "WakeBounds window = (MaxWakeMargin, window div 2)"

section \<open>The slot of an attempt\<close>

text \<open>
  \<open>round/scheduled_registration.go\<close>. The random number generator is a parameter:
  \<open>jitter n\<close> is what \<open>rand.N\<close> draws below \<open>n\<close>.
\<close>

record scheduledAttempt =
  sa_selection :: selection
  sa_slot :: slot
  sa_clockOffset :: duration
  sa_wake :: goTime
  sa_margin :: duration

definition newScheduledAttempt :: "(int \<Rightarrow> int) \<Rightarrow> published \<Rightarrow> goTime \<Rightarrow> string + scheduledAttempt" where
  "newScheduledAttempt jitter p localNow =
     (let offset = pb_clockOffset p in
      bindR (Published_Next p (localNow + offset + MaxWakeMargin)) (\<lambda>s.
        let (lo, hi) = WakeBounds (slot_Window s); j = (if hi > lo then lo + jitter (hi - lo) else lo) in
        Inr \<lparr>sa_selection = \<lparr>se_scheduleID = pb_id p, se_cutoff = sl_cutoff s\<rparr>, sa_slot = s,
             sa_clockOffset = offset, sa_wake = sl_opens s + j, sa_margin = lo\<rparr>))"

text \<open>A draw below a positive bound stays below it.\<close>

definition jitter_law :: "(int \<Rightarrow> int) \<Rightarrow> bool" where
  "jitter_law jitter \<longleftrightarrow> (\<forall>n > 0. 0 \<le> jitter n \<and> jitter n < n)"

section \<open>Facts\<close>

lemma second_pos [simp]: "0 < second" "second \<noteq> 0" "0 \<le> second"
  by (simp_all add: second_def)

lemma Unix_mult [simp]: "Unix (n * second) = n"
  by (simp add: Unix_def second_def)

lemma isWholeSecond_mult [simp]: "isWholeSecond (n * second)"
  by (simp add: isWholeSecond_def)

lemma isWholeSecond_iff: "isWholeSecond t \<longleftrightarrow> t = Unix t * second"
  by (auto simp: isWholeSecond_def Unix_def) (metis mod_mult_self2_is_0)

text \<open>The timetables \<open>New\<close> makes, over whole seconds.\<close>

lemma New_Inr:
  assumes "New sha256 anchor interval window = Inr s"
  obtains a i w where "anchor = a * second" "interval = i * second" "window = w * second"
    "0 \<le> a" "a \<le> maxUnixSecond" "10 \<le> w" "w \<le> i" "w \<le> 300" "sc_anchor s = anchor" "sc_interval s = interval"
    "sc_window s = window" "sc_id s = sha256 (schedulePreimage anchor interval window)"
proof -
  have c: "isWholeSecond anchor" "0 \<le> Unix anchor" "Unix anchor \<le> maxUnixSecond" "second dvd interval" "second dvd window"
    "10 * second \<le> window" "window \<le> interval" "window \<le> 300 * second"
    "s = \<lparr>sc_anchor = anchor, sc_interval = interval, sc_window = window, sc_id = sha256 (schedulePreimage anchor interval window)\<rparr>"
    using assms by (auto simp: New_def MinRegistrationWindow_def MaxRegistrationWindow_def split: if_splits)
  obtain i w where iw: "interval = i * second" "window = w * second"
    using c(4,5) by (metis dvdE mult.commute)
  then have "10 \<le> w" "w \<le> i" "w \<le> 300"
    using c(6-8) by (simp_all add: second_def)
  then show thesis
    using c iw isWholeSecond_iff [of anchor] by (intro that [of "Unix anchor" i w]) simp_all
qed

text \<open>The cutoffs of a timetable, in seconds.\<close>

definition on_grid :: "schedule \<Rightarrow> int \<Rightarrow> bool" where
  "on_grid s c \<longleftrightarrow> (\<exists>n \<ge> 0. c = Unix (sc_anchor s) + n * (sc_interval s div second))"

lemma mod_next:
  fixes i :: int
  assumes "0 < i" "0 \<le> d"
  shows "\<exists>n \<ge> 0. d + (i - d mod i) = n * i" and "0 < i - d mod i" and "i - d mod i \<le> i"
proof -
  have "d + (i - d mod i) = (d div i + 1) * i"
    using div_mult_mod_eq [of d i] by (simp add: algebra_simps)
  moreover have "0 \<le> d div i + 1"
    using assms by (simp add: pos_imp_zdiv_nonneg_iff)
  ultimately show "\<exists>n \<ge> 0. d + (i - d mod i) = n * i" by blast
qed (use assms in \<open>simp_all add: pos_mod_bound pos_mod_sign\<close>)

lemma mod_least:
  fixes i :: int
  assumes "0 < i" "d < n * i"
  shows "d + (i - d mod i) \<le> n * i"
proof -
  have "d div i < n"
  proof (rule ccontr)
    assume "\<not> d div i < n"
    then have "n * i \<le> d div i * i" using assms(1) by (intro mult_right_mono) simp_all
    also have "\<dots> \<le> d" using assms(1) div_mult_mod_eq [of d i] pos_mod_sign [of i d] by linarith
    finally show False using assms(2) by simp
  qed
  then have "(d div i + 1) * i \<le> n * i"
    using assms(1) by (intro mult_right_mono) simp_all
  moreover have "(d div i + 1) * i = d + (i - d mod i)"
    using div_mult_mod_eq [of d i] by (simp add: algebra_simps)
  ultimately show ?thesis by simp
qed

text \<open>
  \<open>Next\<close> gives the least cutoff of the grid after the second of the instant.
\<close>

lemma Schedule_Next_least:
  assumes "New sha256 anchor interval window = Inr s" and "Schedule_Next s t = Inr sl"
  shows "\<exists>c. sl = slotAt s c \<and> on_grid s c \<and> Unix t < c \<and> c \<le> maxUnixSecond \<and>
           (\<forall>c'. on_grid s c' \<longrightarrow> Unix t < c' \<longrightarrow> c \<le> c')"
proof -
  obtain a i w where n: "anchor = a * second" "interval = i * second" "0 \<le> a" "a \<le> maxUnixSecond" "10 \<le> w" "w \<le> i"
    "sc_anchor s = anchor" "sc_interval s = interval"
    using New_Inr [OF assms(1)] by metis
  then have i: "0 < i" and A: "Unix (sc_anchor s) = a" and I: "sc_interval s div second = i"
    by simp_all
  show ?thesis
  proof (cases "Unix t < a")
    case True
    then have "sl = slotAt s a"
      using assms(2) A by (simp add: Schedule_Next_def Let_def split: if_splits)
    moreover have "on_grid s a"
      using A by (auto simp: on_grid_def intro!: exI [of _ 0])
    moreover have "\<forall>c'. on_grid s c' \<longrightarrow> a \<le> c'"
      using A I i by (auto simp: on_grid_def)
    ultimately show ?thesis using True n(4) by blast
  next
    case False
    define d where "d = Unix t - a"
    have sl: "sl = slotAt s (a + (d + (i - d mod i)))" and le: "a + (d + (i - d mod i)) \<le> maxUnixSecond"
      using assms(2) False A I by (auto simp: Schedule_Next_def Let_def d_def algebra_simps split: if_splits)
    have "0 \<le> d" using False by (simp add: d_def)
    note m = mod_next [OF i this]
    have "on_grid s (a + (d + (i - d mod i)))"
      using m(1) A I by (auto simp: on_grid_def)
    moreover have "Unix t < a + (d + (i - d mod i))"
      using m(2) by (simp add: d_def)
    moreover have "a + (d + (i - d mod i)) \<le> c'" if g: "on_grid s c'" "Unix t < c'" for c'
    proof -
      obtain k where "c' = a + k * i" using g(1) A I by (auto simp: on_grid_def)
      then show ?thesis using mod_least [OF i, of d k] g(2) by (simp add: d_def)
    qed
    ultimately show ?thesis using sl le by blast
  qed
qed

lemma Schedule_At_grid:
  assumes "New sha256 anchor interval window = Inr s" and "0 < c" and "c \<le> maxUnixSecond"
  shows "Schedule_At s (c * second) = Inr (slotAt s c) \<longleftrightarrow> on_grid s c"
proof -
  obtain a i w where n: "anchor = a * second" "interval = i * second" "0 \<le> a" "10 \<le> w" "w \<le> i"
    "sc_anchor s = anchor" "sc_interval s = interval"
    using New_Inr [OF assms(1)] by metis
  have "on_grid s c \<longleftrightarrow> a \<le> c \<and> (c - a) mod i = 0"
  proof
    assume "on_grid s c"
    then obtain m where "0 \<le> m" "c = a + m * i" using n by (auto simp: on_grid_def)
    then show "a \<le> c \<and> (c - a) mod i = 0" using n by simp
  next
    assume r: "a \<le> c \<and> (c - a) mod i = 0"
    then have "c = a + (c - a) div i * i" "0 \<le> (c - a) div i"
      using n by (auto simp: pos_imp_zdiv_nonneg_iff)
    then show "on_grid s c" using n unfolding on_grid_def by auto
  qed
  then show ?thesis
    using n assms(2,3) by (auto simp: Schedule_At_def inRange_def Let_def)
qed

text \<open>The slots of a published list, as the client may rely on them.\<close>

definition slot_ok :: "slot \<Rightarrow> bool" where
  "slot_ok s \<longleftrightarrow> isWholeSecond (sl_opens s) \<and> 0 \<le> sl_opens s \<and> inRange (sl_cutoff s) \<and>
     MinRegistrationWindow \<le> sl_cutoff s - sl_opens s \<and> sl_cutoff s - sl_opens s \<le> MaxRegistrationWindow"

lemma slot_Window_eq:
  assumes "0 \<le> sl_opens s" "sl_opens s < sl_cutoff s" "inRange (sl_cutoff s)"
  shows "slot_Window s = sl_cutoff s - sl_opens s \<or> MaxRegistrationWindow < slot_Window s \<and> MaxRegistrationWindow < sl_cutoff s - sl_opens s"
  using assms by (auto simp: slot_Window_def time_sub_def MaxRegistrationWindow_def second_def)

lemma Unix_nonneg: "Unix t < 0 \<longleftrightarrow> t < 0"
  by (simp add: Unix_def second_def) linarith

lemma slot_ok_iff:
  "slot_ok s \<longleftrightarrow> isWholeSecond (sl_opens s) \<and> \<not> Unix (sl_opens s) < 0 \<and> inRange (sl_cutoff s) \<and> sl_opens s < sl_cutoff s \<and>
     \<not> slot_Window s < MinRegistrationWindow \<and> \<not> slot_Window s > MaxRegistrationWindow" (is "?l \<longleftrightarrow> ?r")
proof
  assume l: ?l
  then have "sl_opens s < sl_cutoff s"
    by (simp add: slot_ok_def MinRegistrationWindow_def second_def)
  then show ?r
    using l slot_Window_eq [of s] by (auto simp: slot_ok_def Unix_nonneg)
next
  assume ?r
  then show ?l
    using slot_Window_eq [of s] by (auto simp: slot_ok_def Unix_nonneg)
qed

lemma slot_ok_less: "slot_ok s \<Longrightarrow> sl_opens s < sl_cutoff s"
  by (simp add: slot_ok_iff)

lemma check_slots_None:
  "check_slots prev ss = None \<longleftrightarrow>
     (\<forall>s \<in> set ss. slot_ok s) \<and> sorted_wrt (\<lambda>s s'. sl_cutoff s \<le> sl_opens s') ss \<and>
     (\<forall>c. prev = Some c \<longrightarrow> (\<forall>s \<in> set ss. c \<le> sl_opens s))"
proof (induction prev ss rule: check_slots.induct)
  case (2 prev s ss)
  note ok = slot_ok_iff [of s]
  show ?case
  proof (cases "slot_ok s \<and> (\<forall>c. prev = Some c \<longrightarrow> c \<le> sl_opens s)")
    case True
    have step: "check_slots prev (s # ss) = check_slots (Some (sl_cutoff s)) ss"
      using True ok by (cases prev) auto
    have "check_slots (Some (sl_cutoff s)) ss = None \<longleftrightarrow> (\<forall>s \<in> set ss. slot_ok s) \<and>
        sorted_wrt (\<lambda>s s'. sl_cutoff s \<le> sl_opens s') ss \<and> (\<forall>s' \<in> set ss. sl_cutoff s \<le> sl_opens s')"
      using 2 True ok by (cases prev) auto
    then show ?thesis
      unfolding step using True slot_ok_less [of s] by (cases prev) (auto, fastforce)
  next
    case False
    then have "check_slots prev (s # ss) \<noteq> None"
      using ok by (cases prev) auto
    then show ?thesis using False by auto
  qed
qed simp

lemma NewPublished_Inr:
  assumes "NewPublished schedId slots = Inr p"
  shows "pb_slots p = slots" and "pb_id p = schedId" and "\<forall>s \<in> set slots. slot_ok s"
    and "sorted_wrt (\<lambda>s s'. sl_cutoff s \<le> sl_opens s') slots"
  using assms check_slots_None [of None slots] by (auto simp: NewPublished_def split: if_splits option.splits)

text \<open>The slots an operator lists one after the other pass the client's check.\<close>

fun list_slots :: "schedule \<Rightarrow> nat \<Rightarrow> goTime \<Rightarrow> string + slot list" where
  "list_slots s 0 t = Inr []"
| "list_slots s (Suc n) t = bindR (Schedule_Next s t) (\<lambda>sl. bindR (list_slots s n (sl_cutoff sl)) (\<lambda>rest. Inr (sl # rest)))"

lemma grid_gap:
  assumes "New sha256 anchor interval window = Inr s" "on_grid s c" "on_grid s c'" "c < c'"
  shows "c * second \<le> c' * second - sc_window s"
proof -
  obtain a i w where n: "anchor = a * second" "interval = i * second" "window = w * second" "10 \<le> w" "w \<le> i"
    "sc_anchor s = anchor" "sc_interval s = interval" "sc_window s = window"
    using New_Inr [OF assms(1)] by metis
  obtain m m' where "c = a + m * i" "c' = a + m' * i"
    using assms(2,3) n by (auto simp: on_grid_def)
  with assms(4) n have "m < m'" by (simp add: mult_less_cancel_right)
  then have "(m + 1) * i \<le> m' * i" using n by (intro mult_right_mono) simp_all
  with \<open>c = _\<close> \<open>c' = _\<close> have "c + i \<le> c'" by (simp add: algebra_simps)
  with n have "c + w \<le> c'" by simp
  then have "(c + w) * second \<le> c' * second" by (intro mult_right_mono) (simp_all add: second_def)
  then show ?thesis using n by (simp add: algebra_simps)
qed

lemma list_slots_grid:
  assumes "New sha256 anchor interval window = Inr s" and "list_slots s n t = Inr ss"
  shows "(\<forall>sl \<in> set ss. \<exists>c. sl = slotAt s c \<and> on_grid s c \<and> Unix t < c \<and> c \<le> maxUnixSecond) \<and>
     sorted_wrt (\<lambda>sl sl'. sl_cutoff sl \<le> sl_opens sl') ss \<and> length ss = n"
  using assms(2)
proof (induction n arbitrary: t ss)
  case (Suc n)
  then obtain sl rest where r: "Schedule_Next s t = Inr sl" "list_slots s n (sl_cutoff sl) = Inr rest" "ss = sl # rest"
    by auto
  obtain c where c: "sl = slotAt s c" "on_grid s c" "Unix t < c" "c \<le> maxUnixSecond"
    using Schedule_Next_least [OF assms(1) r(1)] by blast
  have "sl_cutoff sl \<le> sl_opens sl'" if "sl' \<in> set rest" for sl'
  proof -
    obtain c' where "sl' = slotAt s c'" "on_grid s c'" "c < c'"
      using Suc.IH [OF r(2)] \<open>sl' \<in> set rest\<close> c(1) by (auto simp: slotAt_def)
    then show ?thesis using grid_gap [OF assms(1) c(2)] c(1) by (simp add: slotAt_def)
  qed
  moreover have "\<exists>c'. sl' = slotAt s c' \<and> on_grid s c' \<and> Unix t < c' \<and> c' \<le> maxUnixSecond" if "sl' \<in> set rest" for sl'
    using Suc.IH [OF r(2)] \<open>sl' \<in> set rest\<close> c(1,3) by (force simp: slotAt_def)
  ultimately show ?case using Suc.IH [OF r(2)] c r(3) by auto
qed simp

lemma operator_slots_accepted:
  assumes "New sha256 anchor interval window = Inr s" and "list_slots s n t = Inr ss"
    and "window \<le> anchor" and "sc_id s \<noteq> zeroScheduleID" and "0 < n" "n \<le> MaxPublishedSlots" and "0 \<le> t"
  shows "\<exists>p. NewPublished (sc_id s) ss = Inr p"
proof -
  obtain a i w where n: "anchor = a * second" "interval = i * second" "window = w * second" "10 \<le> w" "w \<le> i" "w \<le> 300"
    "sc_anchor s = anchor" "sc_interval s = interval" "sc_window s = window"
    using New_Inr [OF assms(1)] by metis
  have "slot_ok sl" if sl: "sl \<in> set ss" for sl
  proof -
    obtain c where c: "sl = slotAt s c" "on_grid s c" "Unix t < c" "c \<le> maxUnixSecond"
      using list_slots_grid [OF assms(1,2)] sl by blast
    have "a \<le> c" using c(2) n by (auto simp: on_grid_def)
    moreover have "w \<le> a" using assms(3) n by (simp add: second_def)
    moreover have "0 < c" using c(3) assms(7) Unix_nonneg [of t] by simp
    ultimately have "isWholeSecond (c * second - w * second)" "inRange (c * second)" "0 \<le> c * second - w * second"
      using c(4) by (simp_all add: inRange_def isWholeSecond_def left_diff_distrib [symmetric] zero_le_mult_iff
          del: left_diff_distrib)
    then show ?thesis
      using c(1) n by (auto simp: slot_ok_def slotAt_def MinRegistrationWindow_def MaxRegistrationWindow_def second_def)
  qed
  then show ?thesis
    using list_slots_grid [OF assms(1,2)] assms(4-6) check_slots_None [of None ss]
    by (auto simp: NewPublished_def split: option.splits)
qed

text \<open>An attempt wakes inside the first half of its window and leaves the margin at both ends.\<close>

definition attempt_ok :: "scheduledAttempt \<Rightarrow> bool" where
  "attempt_ok a \<longleftrightarrow> slot_ok (sa_slot a) \<and> sa_margin a = MaxWakeMargin \<and> sl_opens (sa_slot a) + MaxWakeMargin \<le> sa_wake a \<and>
     2 * (sa_wake a - sl_opens (sa_slot a)) < sl_cutoff (sa_slot a) - sl_opens (sa_slot a) \<and>
     se_cutoff (sa_selection a) = sl_cutoff (sa_slot a)"

lemma newScheduledAttempt_ok:
  assumes "newScheduledAttempt jitter p t = Inr a" and "jitter_law jitter" and "\<forall>s \<in> set (pb_slots p). slot_ok s"
  shows "attempt_ok a" and "sa_slot a \<in> set (pb_slots p)" and "se_scheduleID (sa_selection a) = pb_id p"
    and "sa_clockOffset a = pb_clockOffset p" and "t + pb_clockOffset p + MaxWakeMargin < sl_cutoff (sa_slot a)"
proof -
  obtain s where s: "find (\<lambda>s. t + pb_clockOffset p + MaxWakeMargin < sl_cutoff s) (pb_slots p) = Some s"
    and a: "a = \<lparr>sa_selection = \<lparr>se_scheduleID = pb_id p, se_cutoff = sl_cutoff s\<rparr>, sa_slot = s, sa_clockOffset = pb_clockOffset p,
      sa_wake = sl_opens s + (if slot_Window s div 2 > MaxWakeMargin then MaxWakeMargin + jitter (slot_Window s div 2 - MaxWakeMargin)
                              else MaxWakeMargin), sa_margin = MaxWakeMargin\<rparr>"
    using assms(1) by (auto simp: newScheduledAttempt_def Published_Next_def WakeBounds_def Let_def split: option.splits)
  have mem: "s \<in> set (pb_slots p)" and cut: "t + pb_clockOffset p + MaxWakeMargin < sl_cutoff s"
    using s by (auto simp: find_Some_iff)
  have ok: "slot_ok s" using mem assms(3) by blast
  then have w: "slot_Window s = sl_cutoff s - sl_opens s"
    using slot_Window_eq [of s] by (auto simp: slot_ok_def MinRegistrationWindow_def second_def)
  have "slot_Window s div 2 > MaxWakeMargin"
    using ok w by (auto simp: slot_ok_def MinRegistrationWindow_def MaxWakeMargin_def second_def)
  moreover from this have "0 \<le> jitter (slot_Window s div 2 - MaxWakeMargin)"
    "jitter (slot_Window s div 2 - MaxWakeMargin) < slot_Window s div 2 - MaxWakeMargin"
    using assms(2) unfolding jitter_law_def by (metis diff_gt_0_iff_gt)+
  ultimately show "attempt_ok a"
    using ok w by (auto simp: attempt_ok_def a)
  show "sa_slot a \<in> set (pb_slots p)" "se_scheduleID (sa_selection a) = pb_id p"
    "sa_clockOffset a = pb_clockOffset p" "t + pb_clockOffset p + MaxWakeMargin < sl_cutoff (sa_slot a)"
    using mem cut by (simp_all add: a)
qed

end
