(* ===== verification/Round_Types.thy ===== *)
theory Round_Types
  imports Tree_Batch Batch_Schedule
begin

text \<open>
  The data of a client's round (\<open>round/interfaces.go\<close>, \<open>round/states.go\<close>, \<open>round/events.go\<close>,
  \<open>round/outbox_messages.go\<close>, \<open>lib/types/boarding.go\<close>): what the client asks for, the quote
  of the operator, the states of the round, its events and messages, and the helpers that end
  a round and give reserved inputs back. Maps are association lists in the order in which
  Go's iteration happens to visit them. Trees carry no asset context, so an asset VTXO is
  refused where the code asks for one. Logging is not modelled.
\<close>

section \<open>Requests\<close>

text \<open>A \<open>RoundID\<close> is the 16 bytes of a UUID; the zero value stands for an unset one.\<close>

type_synonym roundID = "byte list"
type_synonym signerKey = "byte list"

definition NewSignerKey :: "arkLib \<Rightarrow> pubKey \<Rightarrow> signerKey" where
  "NewSignerKey lib pk = al_compressed lib pk"

definition zeroRoundID :: roundID where
  "zeroRoundID = replicate 16 0"

datatype vtxoOrigin =
    VTXOOriginUnknown
  | VTXOOriginRoundBoarding
  | VTXOOriginRoundRefresh
  | VTXOOriginRoundTransfer
  | VTXOOriginAutoRefresh

record vtxoRequest =
  vr_amount :: i64
  vr_isChange :: bool
  vr_fixedAmount :: bool
  vr_assetRef :: string
  vr_assetAmount :: u64
  vr_policyTemplate :: "byte list"
  vr_ownerKey :: "pubKey option"
  vr_signingKey :: "pubKey option"
  vr_origin :: vtxoOrigin
  vr_refreshSource :: "outPoint option"

record leaveRequest =
  lr_output :: "txOut option"
  lr_isChange :: bool
  lr_destinationOwnWallet :: bool

record forfeitReq =
  fq_vtxoOutpoint :: "outPoint option"
  fq_amount :: i64
  fq_authSpend :: "spendPath option"
  fq_forfeitSpend :: "spendPath option"

record boardingRequest =
  br_outpoint :: outPoint
  br_assetRef :: string
  br_policyTemplate :: "byte list"

record boardingIntent =
  bi_outpoint :: outPoint
  bi_amount :: i64
  bi_adopted :: bool
  bi_request :: boardingRequest

record intents =
  it_boarding :: "boardingIntent list"
  it_vtxos :: "vtxoRequest list"
  it_leaves :: "leaveRequest option list"
  it_forfeits :: "forfeitReq list"
  it_quotedLeaveAmounts :: "i64 list"

definition buildBoardingRequest :: "boardingIntent \<Rightarrow> boardingRequest" where
  "buildBoardingRequest i = bi_request i"

definition isEmpty :: "intents \<Rightarrow> bool" where
  "isEmpty i \<longleftrightarrow> it_boarding i = [] \<and> it_forfeits i = [] \<and> it_vtxos i = [] \<and> it_leaves i = []"

definition LeaveAmount :: "intents \<Rightarrow> nat \<Rightarrow> i64" where
  "LeaveAmount i idx =
     (if idx < length (it_quotedLeaveAmounts i) then it_quotedLeaveAmounts i ! idx
      else if length (it_leaves i) \<le> idx then 0
      else case it_leaves i ! idx of
        None \<Rightarrow> 0
      | Some leave \<Rightarrow> (case lr_output leave of None \<Rightarrow> 0 | Some out \<Rightarrow> out_value out))"

definition HasLocalOwner :: "vtxoRequest \<Rightarrow> bool" where
  "HasLocalOwner r \<longleftrightarrow> vr_ownerKey r \<noteq> None"

section \<open>Operator terms and quotes\<close>

record operatorTerms =
  ot_batchSchedule :: "published option"
  ot_pubKey :: "pubKey option"
  ot_vtxoExitDelay :: u32
  ot_dustLimit :: i64
  ot_minVTXOAmount :: i64
  ot_minConfirmations :: u32
  ot_vtxoConfirmations :: u32

definition MinVTXOAmountFloor :: "operatorTerms option \<Rightarrow> i64" where
  "MinVTXOAmountFloor terms =
     (case terms of
        None \<Rightarrow> 0
      | Some t \<Rightarrow> if sint (ot_minVTXOAmount t) < sint (ot_dustLimit t) then ot_dustLimit t else ot_minVTXOAmount t)"

definition VTXOTargetConfirmations :: "operatorTerms option \<Rightarrow> u32" where
  "VTXOTargetConfirmations terms =
     (case terms of
        None \<Rightarrow> 0
      | Some t \<Rightarrow> if ot_vtxoConfirmations t = 0 then ot_minConfirmations t else ot_vtxoConfirmations t)"

datatype quoteReason = QUOTE_OK | INSUFFICIENT_RESIDUAL | INVALID_CHANGE_DESIGNATION

record vtxoQuoteEntry =
  vq_pkScript :: "byte list"
  vq_amountSat :: i64
  vq_recipientKey :: "byte list"

record leaveQuoteEntry =
  lq_pkScript :: "byte list"
  lq_amountSat :: i64

record clientQuote =
  cq_quoteID :: "byte list"
  cq_sealPass :: u32
  cq_operatorFeeSat :: i64
  cq_vtxoQuotes :: "vtxoQuoteEntry list"
  cq_leaveQuotes :: "leaveQuoteEntry list"
  cq_quoteExpiresAt :: i64
  cq_rejectReason :: quoteReason

section \<open>The commitment transaction\<close>

text \<open>A PSBT: the unsigned transaction and the witness UTXO of each input.\<close>

record psbtPacket =
  pk_unsignedTx :: wireTx
  pk_witnessUtxos :: "txOut option list"

record connectorLeafInfo =
  ci_leafIndex :: int
  ci_connectorOutpoint :: outPoint
  ci_connectorPkScript :: "byte list"
  ci_connectorAmount :: i64
  ci_vtxoAmount :: i64
  ci_rootOutputIndex :: u32
  ci_numLeaves :: u32
  ci_radix :: u32

type_synonym vtxoTrees = "(int \<times> txTree option) list"
type_synonym clientTrees = "(signerKey \<times> txTree) list"
type_synonym forfeitMappings = "(outPoint \<times> connectorLeafInfo option) list"

section \<open>Errors\<close>

text \<open>
  \<open>Panic\<close> is a nil dereference or an index out of range; no handler recovers from it.
  \<open>Diverges\<close> stands for a call that does not return.
\<close>

datatype round_error =
    RoundError string
  | RoundLibError string
  | RoundAt string nat
  | TreeFailure tree_error
  | ArkFailure ark_error
  | ForfeitFailure forfeit_error
  | InRound string round_error
  | Panic
  | Diverges

definition roundLibR :: "string + 'a \<Rightarrow> round_error + 'a" where
  "roundLibR m = (case m of Inl e \<Rightarrow> Inl (RoundLibError e) | Inr x \<Rightarrow> Inr x)"

lemma roundLibR_Inr [simp]: "roundLibR m = Inr x \<longleftrightarrow> m = Inr x"
  by (cases m) (auto simp: roundLibR_def)

fun nil_pointer :: "tree_error \<Rightarrow> bool" where
  "nil_pointer NilPointer = True"
| "nil_pointer (InNode _ e) = nil_pointer e"
| "nil_pointer (InChild _ e) = nil_pointer e"
| "nil_pointer _ = False"

definition treeFailed :: "tree_error \<Rightarrow> round_error" where
  "treeFailed e = (if nil_pointer e then Panic else TreeFailure e)"

definition roundTreeR :: "tree_error + 'a \<Rightarrow> round_error + 'a" where
  "roundTreeR m = (case m of Inl e \<Rightarrow> Inl (treeFailed e) | Inr x \<Rightarrow> Inr x)"

lemma roundTreeR_Inr [simp]: "roundTreeR m = Inr x \<longleftrightarrow> m = Inr x"
  by (cases m) (auto simp: roundTreeR_def)

datatype roundFailureCode = RoundFailureUnknown | RoundFailureInsufficientOperatorFunds

fun IsTerminalForJob :: "roundFailureCode \<Rightarrow> bool" where
  "IsTerminalForJob RoundFailureInsufficientOperatorFunds = True"
| "IsTerminalForJob RoundFailureUnknown = False"

section \<open>Timeouts\<close>

datatype timeoutPhase =
    TimeoutPhaseScheduledRegistration
  | TimeoutPhaseRefreshRegistration
  | TimeoutPhaseForfeitCollection
  | TimeoutPhaseRegistration
  | TimeoutPhaseStatusReconcile
  | TimeoutPhaseFinalizeRetry
  | TimeoutPhaseAdmission

text \<open>
  A point in time: the wall clock and the monotonic clock of the process, in nanoseconds, as
  \<open>time.Now\<close> reads them.
\<close>

record instant =
  wall :: int
  mono :: int

record admissionDeadline =
  ad_expiresAt :: int
  ad_closed :: bool

record admissionBudget =
  ab_roundID :: roundID
  ab_deadline :: admissionDeadline
  ab_cutoff :: int

definition expired :: "admissionBudget \<Rightarrow> instant \<Rightarrow> bool" where
  "expired b now \<longleftrightarrow>
     ad_closed (ab_deadline b) \<or> ad_expiresAt (ab_deadline b) \<le> wall now \<or> \<not> mono now < ab_cutoff b"

definition admissionDeadlinePoll :: int where
  "admissionDeadlinePoll = 1000000000"

section \<open>Confirmed VTXOs\<close>

text \<open>The single ancestry fragment of a round VTXO is carried as its tree path and depth.\<close>

record clientVTXO =
  cv_outpoint :: outPoint
  cv_amount :: i64
  cv_policyTemplate :: "byte list"
  cv_pkScript :: "byte list"
  cv_expiry :: u32
  cv_ownerKey :: "pubKey option"
  cv_operatorKey :: "pubKey option"
  cv_treePath :: txTree
  cv_treeDepth :: u32
  cv_ancestryTxID :: hash
  cv_roundID :: roundID
  cv_origin :: vtxoOrigin
  cv_commitmentTxID :: hash
  cv_batchExpiry :: i32
  cv_createdHeight :: i32

record ledgerOutflow =
  lo_amountSat :: i64
  lo_kind :: string
  lo_index :: nat
  lo_proceedsOwnWallet :: bool
  lo_proceedsVout :: u32

section \<open>States\<close>

text \<open>MuSig2 sessions of the signer are handles.\<close>

type_synonym signerSession = "byte list"
type_synonym nonces = "(hash \<times> byte list) list"

record scheduledBatchWait =
  bw_opens :: goTime
  bw_cutoff :: goTime
  bw_plannedJoin :: goTime

record pendingAssembly =
  pa_batchWait :: scheduledBatchWait
  pa_boarding :: "boardingIntent list"
  pa_vtxos :: "vtxoRequest list"
  pa_forfeits :: "forfeitReq list"
  pa_leaves :: "leaveRequest option list"

record commitmentBuilt =
  cb_roundID :: roundID
  cb_tx :: psbtPacket
  cb_vtxoTreePaths :: vtxoTrees
  cb_treeCosignKey :: "pubKey option"
  cb_connectorOperatorKey :: "pubKey option"
  cb_sweepKey :: "pubKey option"
  cb_sweepDelay :: u32
  cb_flowVersion :: nat
  cb_forfeitKey :: "pubKey option"
  cb_forfeitMappings :: forfeitMappings

record commitmentReceived =
  cr_roundID :: roundID
  cr_commitmentTx :: psbtPacket
  cr_txid :: hash
  cr_vtxoTreePaths :: vtxoTrees
  cr_treeCosignKey :: "pubKey option"
  cr_connectorOperatorKey :: "pubKey option"
  cr_sweepKey :: "pubKey option"
  cr_sweepDelay :: u32
  cr_flowVersion :: nat
  cr_forfeitKey :: "pubKey option"
  cr_intents :: intents
  cr_quote :: "clientQuote option"

text \<open>
  The fields that \<open>CommitmentTxValidatedState\<close>, \<open>NoncesSentState\<close>, \<open>NoncesAggregatedState\<close>,
  \<open>PartialSigsSentState\<close>, \<open>ForfeitSignaturesCollectingState\<close> and \<open>InputSigSentState\<close> share and
  carry over. The connector mappings are the \<open>ForfeitMappings\<close> of the first four and the
  \<open>ExpectedForfeits\<close> of the fifth.
\<close>

record signingRound =
  sr_roundID :: roundID
  sr_commitmentTx :: psbtPacket
  sr_vtxoTreePaths :: vtxoTrees
  sr_sweepDelay :: u32
  sr_flowVersion :: nat
  sr_forfeitKey :: "pubKey option"
  sr_intents :: intents
  sr_clientTrees :: clientTrees
  sr_boardingInputIndices :: "(outPoint \<times> nat) list"
  sr_forfeitMappings :: forfeitMappings

record boardingFailed =
  bf_roundID :: "roundID option"
  bf_reason :: string
  bf_error :: "round_error option"
  bf_recoverable :: bool
  bf_failureCode :: roundFailureCode

record forfeitResponse =
  rp_vtxoOutpoint :: outPoint
  rp_forfeitTx :: "wireTx option"
  rp_signature :: signature
  rp_participantSigs :: "participantSig option list"
  rp_spendPath :: "spendPath option"

record inputSigSent =
  is_round :: signingRound
  is_inputSigs :: "(nat \<times> outPoint \<times> signature) list"
  is_forfeitedVTXOs :: "outPoint list"
  is_pendingFailure :: "boardingFailed option"
  is_reconcileProbes :: u32

text \<open>The round as \<open>CommitState\<close> stores it.\<close>

record roundCheckpoint =
  rc_roundID :: roundID
  rc_startHeight :: u32
  rc_sweepDelay :: u32
  rc_commitmentTx :: psbtPacket
  rc_vtxoTreePaths :: vtxoTrees
  rc_intents :: intents
  rc_flowVersion :: nat

record confirmation =
  cf_txid :: hash
  cf_blockHeight :: i32
  cf_blockHash :: hash
  cf_confirmations :: i32

datatype clientState =
    Idle
  | PendingRoundAssembly pendingAssembly
  | IntentSentState intents roundID
  | QuoteReceivedState roundID "clientQuote option" intents
  | RoundJoinedState roundID intents "clientQuote option"
  | CommitmentTxReceivedState commitmentReceived
  | CommitmentTxValidatedState signingRound
  | NoncesSentState signingRound "(signerKey \<times> signerSession) list"
  | NoncesAggregatedState signingRound "(signerKey \<times> signerSession) list" nonces
  | PartialSigsSentState signingRound "(signerKey \<times> signerSession) list"
  | ForfeitSignaturesCollectingState signingRound "(outPoint \<times> forfeitResponse) list"
  | InputSigSentState inputSigSent
  | ConfirmedState confirmation "clientVTXO list"
  | ClientFailedState string "round_error option" bool roundFailureCode
  | RecoveryInitiatedState outPoint hash string

section \<open>Events\<close>

datatype roundLifecycleStatus =
    ROUND_STATUS_UNSPECIFIED
  | ROUND_STATUS_IN_FLIGHT
  | ROUND_STATUS_BROADCAST
  | ROUND_STATUS_CONFIRMED
  | ROUND_STATUS_DEAD

datatype clientEvent =
    IntentPackage intents
  | IntentRequested
  | RoundJoined roundID
  | RegistrationTimedOut
  | AdmissionTimedOut roundID
  | JoinRoundQuoteReceived roundID "clientQuote option"
  | QuoteAccepted roundID "byte list"
  | QuoteRejected roundID "byte list" string
  | CommitmentTxBuilt commitmentBuilt
  | CommitmentTxValidated
  | GenerateNonces
  | NoncesAggregated nonces
  | GeneratePartialSigs
  | OperatorSigned "(hash \<times> signature) list"
  | AwaitingBoardingSigs roundID
  | ForfeitSignatureResponse forfeitResponse
  | ForfeitCollectionTimedOut roundID
  | StatusReconcileTimedOut roundID
  | RoundStatusReported roundID roundLifecycleStatus string
  | BoardingConfirmed confirmation
  | BoardingFailed boardingFailed
  | RecoveryInitiated outPoint hash string
  | RoundComplete

section \<open>Messages\<close>

record joinRoundRequest =
  jr_batchSlot :: "selection option"
  jr_boardingRequests :: "boardingRequest list"
  jr_vtxoRequests :: "vtxoRequest list"
  jr_forfeitRequests :: "forfeitReq list"
  jr_leaveRequests :: "leaveRequest option list"
  jr_identifier :: pubKey
  jr_auth :: "byte list option"

record vtxoCreated =
  vc_vtxos :: "clientVTXO list"
  vc_outflows :: "ledgerOutflow list"
  vc_roundID :: string
  vc_commitmentTxID :: hash
  vc_batchExpiry :: i32
  vc_createdHeight :: i32
  vc_operatorFeeSat :: i64
  vc_operatorFeeType :: string

datatype clientOutMsg =
    JoinRoundRequest joinRoundRequest
  | JoinRoundAcceptOutbox roundID "byte list"
  | JoinRoundRejectOutbox roundID "byte list" string
  | SubmitNoncesRequest roundID "(signerKey \<times> nonces) list"
  | SubmitPartialSigRequest roundID "(signerKey \<times> nonces) list"
  | SubmitForfeitSigRequest roundID "(nat \<times> outPoint \<times> signature) list"
  | SubmitVTXOForfeitSigsToServer roundID "(outPoint \<times> forfeitResponse) list"
  | ForfeitRequestToVTXO outPoint forfeitRequest
  | ForfeitConfirmedToVTXO outPoint hash i32
  | RegisterConfirmationRequest hash "byte list option" u32 u32
  | VTXOCreatedNotification vtxoCreated
  | RoundCompletedNotification roundID confirmation
  | RoundCheckpointedNotification roundID
  | StartTimeoutReq string timeoutPhase int
  | CancelTimeoutReq string timeoutPhase
  | ReleaseForfeitReservation "outPoint list" string
  | DropCustomForfeitReservation "outPoint list"
  | RoundFailedNotification "roundID option" string bool "round_error option"
  | TerminalJobFailedNotification "roundID option" "outPoint list" roundFailureCode string
  | QueryRoundStatusOutbox roundID

record clientTransition =
  ct_next :: clientState
  ct_internal :: "clientEvent list"
  ct_outbox :: "clientOutMsg list"

section \<open>The environment\<close>

text \<open>The writes of a round to its stores that succeeded, in order.\<close>

datatype storeWrite =
    AdmissionConstrained roundID
  | AdmissionClosed roundID
  | StateCommitted roundCheckpoint inputSigSent
  | VTXOsSaved "clientVTXO list"

text \<open>
  \<open>ClientEnvironment\<close> as one event sees it: the clock, which stands still meanwhile, the
  operator's terms, limits and timeouts, and the answers of the wallet, the signer, the stores
  and the operator's discovery. \<open>re_terms\<close>, \<open>re_admission\<close> and \<open>re_scheduled\<close> are the fields a handler writes;
  \<open>re_journal\<close> records the writes to the stores. Signatures of boarding inputs and the proof of a join
  request are made by the wallet.
\<close>

record roundEnv =
  re_lib :: treeLib
  re_now :: instant
  re_terms :: operatorTerms
  re_admission :: "admissionBudget option"
  re_scheduled :: "scheduledAttempt option"
  re_journal :: "storeWrite list"
  re_maxOperatorFee :: i64
  re_startHeight :: u32
  re_disableJoinRequestAuth :: bool
  re_forfeitCollectionTimeout :: int
  re_admissionTimeout :: int
  re_registrationTimeout :: int
  re_statusReconcileTimeout :: int
  re_roundKey :: string
  re_roundIDString :: "roundID \<Rightarrow> string"
  re_termsSource :: "(string + operatorTerms option) option"
  re_jitter :: "int \<Rightarrow> int"
  re_vtxoStore :: "(outPoint \<Rightarrow> string + i64) option"
  re_deriveNextKey :: "nat \<Rightarrow> string + pubKey"
  re_deriveIdentifier :: "string + pubKey"
  re_buildJoinRoundAuth :: "pubKey \<Rightarrow> selection option \<Rightarrow> intents \<Rightarrow> forfeitReq list \<Rightarrow> string + byte list"
  re_constrainAdmissionDeadline :: "roundID \<Rightarrow> int \<Rightarrow> string + admissionDeadline"
  re_closeAdmissionDeadline :: "roundID \<Rightarrow> string option"
  re_createSessions :: "(signerKey \<times> pubKey \<times> txTree) list \<Rightarrow> string + (signerKey \<times> signerSession \<times> nonces) list"
  re_registerAggNonces :: "signerSession \<Rightarrow> nonces \<Rightarrow> string option"
  re_sign :: "(signerKey \<times> signerSession) list \<Rightarrow> string + (signerKey \<times> nonces) list"
  re_cleanup :: "signerSession \<Rightarrow> string option"
  re_serializeSignature :: "signature \<Rightarrow> byte list"
  re_signBoardingInput :: "wireTx \<Rightarrow> nat \<Rightarrow> boardingIntent \<Rightarrow> prevouts \<Rightarrow> string + signature"
  re_taprootKeyNoScript :: "pubKey \<Rightarrow> pubKey"
  re_commitState :: "roundCheckpoint \<Rightarrow> inputSigSent \<Rightarrow> string option"
  re_isOwnedScript :: "(byte list \<Rightarrow> string + bool) option"
  re_saveVTXOs :: "clientVTXO list \<Rightarrow> string option"

abbreviation re_ark :: "roundEnv \<Rightarrow> arkLib" where
  "re_ark env \<equiv> tl_ark (re_lib env)"

end
