(* ===== verification/Round_Quote.thy ===== *)
theory Round_Quote
  imports Round_Types
begin

text \<open>
  The seal-time fee handshake of \<open>round/transitions.go\<close>: the change marker the client puts on
  its requests, and the acceptance policy for the quote of the operator. Amounts are int64
  and add with wrap-around.
\<close>

section \<open>Requested scripts\<close>

definition Request_EffectivePolicyTemplate :: "vtxoRequest \<Rightarrow> ark_error + byte list" where
  "Request_EffectivePolicyTemplate r =
     (if vr_policyTemplate r = [] then Inl (ArkError ''vtxo request policy template must be provided'')
      else Inr (vr_policyTemplate r))"

definition Request_DecodePolicyTemplate :: "arkLib \<Rightarrow> vtxoRequest \<Rightarrow> ark_error + policyTemplate" where
  "Request_DecodePolicyTemplate lib r = bindR (Request_EffectivePolicyTemplate r) (DecodePolicyTemplate lib)"

definition Request_DecodeStandardPolicyTemplate :: "arkLib \<Rightarrow> vtxoRequest \<Rightarrow> ark_error + standardVTXOParams" where
  "Request_DecodeStandardPolicyTemplate lib r =
     bindR (Request_DecodePolicyTemplate lib r) (\<lambda>template. DecodeStandardVTXOParams lib (Some template))"

definition Request_EffectivePkScript :: "arkLib \<Rightarrow> vtxoRequest \<Rightarrow> ark_error + byte list" where
  "Request_EffectivePkScript lib r = bindR (Request_DecodePolicyTemplate lib r) (\<lambda>template. PkScript lib (Some template))"

section \<open>The change marker\<close>

text \<open>The first index of an element with a property.\<close>

fun first_index :: "('a \<Rightarrow> bool) \<Rightarrow> 'a list \<Rightarrow> nat option" where
  "first_index P [] = None"
| "first_index P (x # xs) = (if P x then Some 0 else map_option Suc (first_index P xs))"

definition leave_marked :: "leaveRequest option \<Rightarrow> bool" where
  "leave_marked l = (case l of None \<Rightarrow> False | Some l \<Rightarrow> lr_isChange l)"

definition clear_vtxos :: "nat option \<Rightarrow> vtxoRequest list \<Rightarrow> vtxoRequest list" where
  "clear_vtxos keep rs = map (\<lambda>(i, r). if Some i = keep then r else r\<lparr>vr_isChange := False\<rparr>) (enumerate 0 rs)"

definition clear_leaves :: "nat option \<Rightarrow> leaveRequest option list \<Rightarrow> leaveRequest option list" where
  "clear_leaves keep ls =
     map (\<lambda>(i, l). if Some i = keep then l else map_option (\<lambda>l. l\<lparr>lr_isChange := False\<rparr>) l) (enumerate 0 ls)"

fun largest_vtxo :: "nat \<Rightarrow> vtxoRequest list \<Rightarrow> (nat \<times> i64) option \<Rightarrow> nat option" where
  "largest_vtxo i [] best = map_option fst best"
| "largest_vtxo i (r # rs) best =
     (if vr_fixedAmount r \<or> (case best of None \<Rightarrow> False | Some (_, amount) \<Rightarrow> sint (vr_amount r) \<le> sint amount)
      then largest_vtxo (Suc i) rs best
      else largest_vtxo (Suc i) rs (Some (i, vr_amount r)))"

definition designateChangeMarker ::
  "vtxoRequest list \<Rightarrow> leaveRequest option list \<Rightarrow> vtxoRequest list \<times> leaveRequest option list" where
  "designateChangeMarker vtxoReqs leaveReqs =
     (let firstVTXOIdx = first_index (\<lambda>r. vr_isChange r \<and> \<not> vr_fixedAmount r) vtxoReqs;
          firstFixedVTXOIdx = first_index (\<lambda>r. vr_isChange r \<and> vr_fixedAmount r) vtxoReqs;
          firstLeaveIdx = first_index leave_marked leaveReqs;
          leaveMarkers = length (filter leave_marked leaveReqs);
          nonFixedMarkerCount = length (filter (\<lambda>r. vr_isChange r \<and> \<not> vr_fixedAmount r) vtxoReqs) + leaveMarkers;
          markerCount = length (filter vr_isChange vtxoReqs) + leaveMarkers
      in if markerCount > 1 \<and> nonFixedMarkerCount > 0
         then (clear_vtxos firstVTXOIdx vtxoReqs,
               clear_leaves (if firstVTXOIdx = None then firstLeaveIdx else None) leaveReqs)
         else if markerCount > 1 \<and> firstFixedVTXOIdx \<noteq> None
         then (clear_vtxos firstFixedVTXOIdx vtxoReqs, clear_leaves None leaveReqs)
         else if markerCount = 1 then (vtxoReqs, leaveReqs)
         else if length vtxoReqs + length leaveReqs \<le> 1 then (vtxoReqs, leaveReqs)
         else case largest_vtxo 0 vtxoReqs None of
           Some i \<Rightarrow> (vtxoReqs[i := (vtxoReqs ! i)\<lparr>vr_isChange := True\<rparr>], leaveReqs)
         | None \<Rightarrow>
             (case leaveReqs of
                Some l # ls \<Rightarrow> (vtxoReqs, Some (l\<lparr>lr_isChange := True\<rparr>) # ls)
              | _ \<Rightarrow> (vtxoReqs, leaveReqs)))"

section \<open>Echoes\<close>

definition singleOutputFixed :: "intents \<Rightarrow> bool" where
  "singleOutputFixed i =
     (case (it_vtxos i, it_leaves i) of ([r], []) \<Rightarrow> vr_fixedAmount r | _ \<Rightarrow> False)"

definition implicitChange :: "intents \<Rightarrow> bool" where
  "implicitChange i \<longleftrightarrow> length (it_vtxos i) + length (it_leaves i) = 1 \<and> \<not> singleOutputFixed i"

text \<open>The checks of one entry; \<open>Some\<close> is the reason it is refused.\<close>

definition check_vtxo_echo :: "arkLib \<Rightarrow> bool \<Rightarrow> vtxoRequest \<times> vtxoQuoteEntry \<Rightarrow> string option" where
  "check_vtxo_echo lib implicit = (\<lambda>(req, entry).
     case Request_EffectivePkScript lib req of
       Inl e \<Rightarrow> Some ''vtxo pkScript derivation''
     | Inr intentScript \<Rightarrow>
         if vq_pkScript entry \<noteq> intentScript then Some ''vtxo pkScript echo mismatch''
         else if vq_recipientKey entry \<noteq> (case vr_signingKey req of None \<Rightarrow> [] | Some k \<Rightarrow> al_compressed lib k)
         then Some ''vtxo recipient key echo mismatch''
         else if vr_fixedAmount req \<and> vr_isChange req then Some ''vtxo fixed amount cannot be change''
         else if \<not> implicit \<and> \<not> vr_isChange req \<and> vq_amountSat entry \<noteq> vr_amount req
         then Some ''vtxo non-change amount differs from intent target''
         else None)"

definition check_leave_echo :: "bool \<Rightarrow> leaveRequest option \<times> leaveQuoteEntry \<Rightarrow> string option" where
  "check_leave_echo implicit = (\<lambda>(req, entry).
     case req of
       None \<Rightarrow> Some ''leave intent missing output''
     | Some leave \<Rightarrow>
         (case lr_output leave of
            None \<Rightarrow> Some ''leave intent missing output''
          | Some out \<Rightarrow>
              if lq_pkScript entry \<noteq> out_pkScript out then Some ''leave pkScript echo mismatch''
              else if \<not> implicit \<and> \<not> lr_isChange leave \<and> lq_amountSat entry \<noteq> out_value out
              then Some ''leave non-change amount differs from intent target''
              else None))"

definition validateQuoteEchoes :: "arkLib \<Rightarrow> intents \<Rightarrow> clientQuote \<Rightarrow> string option" where
  "validateQuoteEchoes lib i quote =
     (if length (cq_vtxoQuotes quote) \<noteq> length (it_vtxos i) then Some ''quote vtxo entries differ from intent vtxos''
      else if length (cq_leaveQuotes quote) \<noteq> length (it_leaves i) then Some ''quote leave entries differ from intent leaves''
      else
        thenErr (firstErr (check_vtxo_echo lib (implicitChange i)) (zip (it_vtxos i) (cq_vtxoQuotes quote)))
          (firstErr (check_leave_echo (implicitChange i)) (zip (it_leaves i) (cq_leaveQuotes quote))))"

section \<open>The realised fee\<close>

text \<open>\<open>computeTotalForfeitAmount\<close>: the store is the source of the amounts when there is one.\<close>

fun computeTotalForfeitAmount ::
  "(outPoint \<Rightarrow> string + i64) option \<Rightarrow> forfeitReq list \<Rightarrow> i64 \<Rightarrow> round_error + i64" where
  "computeTotalForfeitAmount store [] sofar = Inr sofar"
| "computeTotalForfeitAmount store (f # fs) sofar =
     (case store of
        Some get \<Rightarrow>
          (case fq_vtxoOutpoint f of
             None \<Rightarrow> Inl Panic
           | Some op \<Rightarrow>
               bindR (wrapR (InRound ''forfeit amount lookup'') (roundLibR (get op))) (\<lambda>amount.
                 computeTotalForfeitAmount store fs (sofar + amount)))
      | None \<Rightarrow>
          if fq_amount f \<noteq> 0 then computeTotalForfeitAmount store fs (sofar + fq_amount f)
          else Inl (RoundError ''no store and no embedded amount''))"

fun sum_amounts :: "string \<Rightarrow> i64 list \<Rightarrow> i64 \<Rightarrow> round_error + i64" where
  "sum_amounts what [] sofar = Inr sofar"
| "sum_amounts what (a # as) sofar = (if sint a < 0 then Inl (RoundError what) else sum_amounts what as (sofar + a))"

definition realisedQuoteFee ::
  "(outPoint \<Rightarrow> string + i64) option \<Rightarrow> intents \<Rightarrow> clientQuote \<Rightarrow> round_error + i64" where
  "realisedQuoteFee store i quote =
     bindR (sum_amounts ''negative boarding input amount'' (map bi_amount (it_boarding i)) 0) (\<lambda>boarding.
     bindR (computeTotalForfeitAmount store (it_forfeits i) 0) (\<lambda>forfeitAmt.
     bindR (sum_amounts ''negative vtxo output amount'' (map vq_amountSat (cq_vtxoQuotes quote)) 0) (\<lambda>vtxos.
     bindR (sum_amounts ''negative leave output amount'' (map lq_amountSat (cq_leaveQuotes quote)) vtxos) (\<lambda>outputsSat.
       Inr (boarding + forfeitAmt - outputsSat)))))"

section \<open>The decision\<close>

fun quoteRejectReason :: "quoteReason \<Rightarrow> string" where
  "quoteRejectReason INSUFFICIENT_RESIDUAL = ''server rejected intent: INSUFFICIENT_RESIDUAL''"
| "quoteRejectReason INVALID_CHANGE_DESIGNATION = ''server rejected intent: INVALID_CHANGE_DESIGNATION''"
| "quoteRejectReason QUOTE_OK = ''server rejected intent: QUOTE_OK''"

definition hasManualIntents :: "intents \<Rightarrow> bool" where
  "hasManualIntents i \<longleftrightarrow>
     it_boarding i \<noteq> [] \<or> it_leaves i \<noteq> [] \<or> (\<exists>r \<in> set (it_vtxos i). vr_origin r \<noteq> VTXOOriginAutoRefresh)"

text \<open>\<open>autoRefreshValue\<close> without the total, which is only logged.\<close>

definition hasAutoRefresh :: "intents \<Rightarrow> bool" where
  "hasAutoRefresh i \<longleftrightarrow> (\<exists>r \<in> set (it_vtxos i). vr_origin r = VTXOOriginAutoRefresh)"

definition unix :: "instant \<Rightarrow> int" where
  "unix t = wall t div 1000000000"

definition quote_expired :: "roundEnv \<Rightarrow> clientQuote \<Rightarrow> bool" where
  "quote_expired env quote \<longleftrightarrow> 0 < sint (cq_quoteExpiresAt quote) \<and> sint (cq_quoteExpiresAt quote) \<le> unix (re_now env)"

text \<open>\<open>evaluateQuote\<close> up to the event it returns: the reason of a refusal, if any.\<close>

definition quote_refusal :: "roundEnv \<Rightarrow> intents \<Rightarrow> clientQuote \<Rightarrow> round_error + string option" where
  "quote_refusal env i quote =
     (let feeCap = sint (re_maxOperatorFee env); minVTXO = sint (MinVTXOAmountFloor (Some (re_terms env))) in
      if cq_rejectReason quote \<noteq> QUOTE_OK then Inr (Some (quoteRejectReason (cq_rejectReason quote)))
      else if sint (cq_operatorFeeSat quote) < 0 then Inr (Some ''operator fee is negative'')
      else if quote_expired env quote then Inr (Some ''quote expired'')
      else if feeCap \<le> 0 then Inr (Some ''operator fee cap is unset: refusing to sign'')
      else if sint (cq_operatorFeeSat quote) > feeCap then Inr (Some ''operator fee exceeds cap'')
      else case validateQuoteEchoes (re_ark env) i quote of
        Some reason \<Rightarrow> Inr (Some reason)
      | None \<Rightarrow>
          if minVTXO > 0 \<and> (\<exists>e \<in> set (cq_vtxoQuotes quote). sint (vq_amountSat e) < minVTXO)
          then Inr (Some ''quoted vtxo amount is below operator minimum'')
          else case realisedQuoteFee (re_vtxoStore env) i quote of
            Inl Panic \<Rightarrow> Inl Panic
          | Inl e \<Rightarrow> Inr (Some ''realised fee computation failed'')
          | Inr realised \<Rightarrow>
              if sint realised < 0 then Inr (Some ''realised fee is negative'')
              else if sint realised > feeCap then Inr (Some ''realised operator fee exceeds cap'')
              else if realised \<noteq> cq_operatorFeeSat quote then Inr (Some ''quoted operator_fee_sat disagrees with realised fee'')
              else if hasAutoRefresh i \<and> realised \<noteq> 0
              then Inr (Some (if hasManualIntents i
                              then ''automatic refresh requires zero fee; mixed manual/automatic round''
                              else ''automatic refresh requires zero fee''))
              else Inr None)"

definition evaluateQuote :: "roundEnv \<Rightarrow> roundID \<Rightarrow> intents \<Rightarrow> clientQuote option \<Rightarrow> round_error + clientEvent" where
  "evaluateQuote env roundID i quote =
     (case quote of
        None \<Rightarrow> Inr (QuoteRejected roundID (replicate 32 0) ''nil quote'')
      | Some q \<Rightarrow>
          bindR (quote_refusal env i q) (\<lambda>r.
            Inr (case r of
                   Some reason \<Rightarrow> QuoteRejected roundID (cq_quoteID q) reason
                 | None \<Rightarrow> QuoteAccepted roundID (cq_quoteID q))))"

end
