(* ===== verification/Round_Commitment.thy ===== *)
theory Round_Commitment
  imports Round_Quote
begin

text \<open>
  What a client checks of the commitment transaction and the trees the operator
  sends (\<open>round/transitions.go\<close>, \<open>round/sweep_policy.go\<close>, \<open>round/validation.go\<close>), before any nonce or signature leaves it.
  The unsigned transaction of a PSBT is present: the parser refuses a packet without one.
\<close>

section \<open>Inputs and leave outputs\<close>

text \<open>Writing an entry of a Go map.\<close>

definition put :: "'k \<Rightarrow> 'v \<Rightarrow> ('k \<times> 'v) list \<Rightarrow> ('k \<times> 'v) list" where
  "put k v m = (k, v) # filter (\<lambda>(k', _). k' \<noteq> k) m"

definition MaxReasonableDelay :: u32 where
  "MaxReasonableDelay = 52560"

definition ValidateDelayParameters :: "u32 \<Rightarrow> u32 \<Rightarrow> round_error option" where
  "ValidateDelayParameters sweepDelay vtxoExitDelay =
     (if sweepDelay = 0 then Some (RoundError ''sweep delay is zero'')
      else if vtxoExitDelay = 0 then Some (RoundError ''VTXO exit delay is zero'')
      else if sweepDelay \<le> vtxoExitDelay then Some (RoundError ''sweep delay must be greater than VTXO exit delay'')
      else if sweepDelay > MaxReasonableDelay then Some (RoundError ''sweep delay exceeds maximum reasonable value'')
      else if vtxoExitDelay > MaxReasonableDelay then Some (RoundError ''VTXO exit delay exceeds maximum reasonable value'')
      else None)"

definition outpointToIdx :: "txIn list \<Rightarrow> (outPoint \<times> nat) list" where
  "outpointToIdx ins = fold (\<lambda>(i, txIn). put (in_prevout txIn) i) (enumerate 0 ins) []"

definition validateBoardingInputs :: "wireTx \<Rightarrow> boardingIntent list \<Rightarrow> round_error + (outPoint \<times> nat) list" where
  "validateBoardingInputs commitmentTx intents =
     (if intents = [] then Inl (RoundError ''no boarding intents to validate'')
      else
        let indices = outpointToIdx (wt_ins commitmentTx) in
        case firstErr (\<lambda>intent. if map_of indices (br_outpoint (bi_request intent)) = None
                                then Some (RoundError ''boarding UTXO not found in commitment tx'') else None) intents of
          Some e \<Rightarrow> Inl e
        | None \<Rightarrow> Inr indices)"

text \<open>
  The map of counts is the list of the outputs still to be found: an output of the
  transaction takes one of them away.
\<close>

fun expectedOutputs :: "nat \<Rightarrow> i64 list option \<Rightarrow> leaveRequest option list \<Rightarrow> round_error + (i64 \<times> byte list) list" where
  "expectedOutputs i amounts [] = Inr []"
| "expectedOutputs i amounts (leave # leaves) =
     (case leave of
        None \<Rightarrow> Inl Panic
      | Some l \<Rightarrow>
          (case lr_output l of
             None \<Rightarrow> Inl Panic
           | Some out \<Rightarrow>
               let v = (case amounts of
                          None \<Rightarrow> out_value out
                        | Some as \<Rightarrow> if i < length as then as ! i else out_value out)
               in bindR (expectedOutputs (Suc i) amounts leaves) (\<lambda>rest. Inr ((v, out_pkScript out) # rest))))"

definition validateLeaveOutputs :: "wireTx \<Rightarrow> leaveRequest option list \<Rightarrow> i64 list option \<Rightarrow> round_error option" where
  "validateLeaveOutputs commitmentTx leaves expectedAmounts =
     (if leaves = [] then None
      else case expectedOutputs 0 expectedAmounts leaves of
        Inl e \<Rightarrow> Some e
      | Inr expected \<Rightarrow>
          if fold (\<lambda>txOut. remove1 (out_value txOut, out_pkScript txOut)) (wt_outs commitmentTx) expected = [] then None
          else Some (RoundError ''leave output not found in commitment tx''))"

definition quoteVTXOAmount :: "clientQuote option \<Rightarrow> nat \<Rightarrow> vtxoRequest \<Rightarrow> round_error + i64" where
  "quoteVTXOAmount quote i r =
     (case quote of
        None \<Rightarrow> Inr (vr_amount r)
      | Some q \<Rightarrow> if i < length (cq_vtxoQuotes q) then Inr (vq_amountSat (cq_vtxoQuotes q ! i)) else Inl Panic)"

definition quoteLeaveAmounts :: "clientQuote option \<Rightarrow> leaveRequest option list \<Rightarrow> round_error + i64 list option" where
  "quoteLeaveAmounts quote leaves =
     (case quote of
        None \<Rightarrow> Inr None
      | Some q \<Rightarrow>
          if length leaves \<le> length (cq_leaveQuotes q)
          then Inr (Some (map lq_amountSat (take (length leaves) (cq_leaveQuotes q)))) else Inl Panic)"

section \<open>VTXO trees\<close>

definition verifyVTXOTreeRoot :: "treeLib \<Rightarrow> wireTx \<Rightarrow> hash \<Rightarrow> int \<Rightarrow> txTree option \<Rightarrow> round_error option" where
  "verifyVTXOTreeRoot lib commitmentTx commitmentTxID outputIdx vtxoTree =
     (case vtxoTree of
        None \<Rightarrow> Some (RoundError ''nil tree'')
      | Some t \<Rightarrow>
          (case (tr_root t, tr_batchOutput t) of
             (None, _) \<Rightarrow> Some (RoundError ''nil tree root'')
           | (_, None) \<Rightarrow> Some (RoundError ''nil batch output'')
           | (Some root, Some batchOutput) \<Rightarrow>
               if tn_coSigners root = [] then Some (RoundError ''tree root has no cosigners'')
               else if outputIdx \<noteq> uint (op_index (tr_batchOutpoint t))
               then Some (RoundError ''map key does not match batch outpoint index'')
               else if op_hash (tr_batchOutpoint t) \<noteq> commitmentTxID
               then Some (RoundError ''batch outpoint hash does not match commitment txid'')
               else if op_index (tr_batchOutpoint t) \<ge> of_nat (length (wt_outs commitmentTx))
               then Some (RoundError ''batch outpoint index out of range'')
               else
                 let committed = wt_outs commitmentTx ! unat (op_index (tr_batchOutpoint t)) in
                 if out_value committed \<noteq> out_value batchOutput
                 then Some (RoundError ''committed output value differs from batch output value'')
                 else if out_pkScript committed \<noteq> out_pkScript batchOutput
                 then Some (RoundError ''committed output script does not match batch output script'')
                 else case ComputeFinalKey lib (tn_coSigners root) (tr_sweepTapscriptRoot t) of
                   Inl e \<Rightarrow> Some (treeFailed e)
                 | Inr finalKey \<Rightarrow>
                     (case al_payToTaproot (tl_ark lib) finalKey of
                        Inl e \<Rightarrow> Some (RoundLibError e)
                      | Inr rootScript \<Rightarrow>
                          if rootScript \<noteq> out_pkScript committed
                          then Some (RoundError ''committed output script does not match the recomputed tree root'')
                          else thenErr (map_option treeFailed (ValidateChildScripts lib (Some t)))
                                 (map_option treeFailed (ValidateValueConservation lib (Some t))))))"

definition validateVTXOTreeBinding :: "treeLib \<Rightarrow> wireTx \<Rightarrow> vtxoTrees \<Rightarrow> round_error option" where
  "validateVTXOTreeBinding lib commitmentTx trees =
     firstErr (\<lambda>(outputIdx, vtxoTree).
       verifyVTXOTreeRoot lib commitmentTx (tl_txHash lib commitmentTx) outputIdx vtxoTree) trees"

definition validateRoundSweepPolicy :: "treeLib \<Rightarrow> pubKey option \<Rightarrow> u32 \<Rightarrow> vtxoTrees \<Rightarrow> round_error option" where
  "validateRoundSweepPolicy lib sweepKey sweepDelay trees =
     (if sweepKey = None then Some (RoundError ''sweep key must be provided'')
      else if sweepDelay = 0 then Some (RoundError ''sweep delay must be positive'')
      else case UnilateralCSVTimeoutTapLeaf (tl_ark lib) sweepKey sweepDelay of
        Inl e \<Rightarrow> Some (InRound ''build sweep leaf'' (ArkFailure e))
      | Inr sweepLeaf \<Rightarrow>
          let sweepRoot = hashBytes (TapHash (tl_ark lib) sweepLeaf) in
          firstErr (\<lambda>(outputIdx, vtxoTree).
            case vtxoTree of
              None \<Rightarrow> Some (RoundError ''vtxo tree is nil'')
            | Some t \<Rightarrow>
                if sweepRoot \<noteq> tr_sweepTapscriptRoot t
                then Some (RoundError ''sweep root does not match the advertised key and delay'') else None) trees)"

text \<open>Trees carry no asset context here, so a request for an asset is refused.\<close>

definition validateRequestedVTXO ::
  "treeLib \<Rightarrow> txTree option \<Rightarrow> vtxoRequest \<Rightarrow> i64 \<Rightarrow> pubKey option \<Rightarrow> round_error + txTree" where
  "validateRequestedVTXO lib vtxoTree request expectedAmount operatorKey =
     bindR (wrapR (\<lambda>e. InRound ''derive VTXO script'' (ArkFailure e)) (Request_EffectivePkScript (tl_ark lib) request)) (\<lambda>pkScript.
       if vr_assetRef request = []
       then roundTreeR (ValidatePath lib (vr_signingKey request)
              \<lparr>lf_pkScript = pkScript, lf_amount = expectedAmount, lf_coSignerKey = vr_signingKey request\<rparr> operatorKey vtxoTree)
       else Inl (RoundError ''asset VTXO requires an asset tree''))"

text \<open>
  The search for the tree of a request: the first tree that validates, or else the last
  error; no tree at all leaves both nil.
\<close>

fun find_tree ::
  "treeLib \<Rightarrow> vtxoRequest \<Rightarrow> i64 \<Rightarrow> pubKey option \<Rightarrow> vtxoTrees \<Rightarrow> round_error + txTree option \<Rightarrow> round_error + txTree option" where
  "find_tree lib r amount op [] sofar = sofar"
| "find_tree lib r amount op ((_, t) # ts) sofar =
     (case validateRequestedVTXO lib t r amount op of
        Inl e \<Rightarrow> if e = Panic then Inl Panic else find_tree lib r amount op ts (Inl e)
      | Inr ct \<Rightarrow> Inr (Some ct))"

section \<open>Connectors\<close>

definition maxConnectorTreeLeaves :: u32 where
  "maxConnectorTreeLeaves = 65536"

definition maxConnectorTreeRadix :: u32 where
  "maxConnectorTreeRadix = 1024"

text \<open>A nil output of the leaf is a nil dereference.\<close>

fun leaf_output :: "string \<Rightarrow> txOut option list \<Rightarrow> txOut option \<Rightarrow> round_error + txOut option" where
  "leaf_output multiple [] found = Inr found"
| "leaf_output multiple (None # outs) found = Inl Panic"
| "leaf_output multiple (Some out # outs) found =
     (if out_pkScript out = AnchorPkScript then leaf_output multiple outs found
      else if found \<noteq> None then Inl (RoundError multiple)
      else leaf_output multiple outs (Some out))"

definition connectorLeafOutput :: "treeNode \<Rightarrow> round_error + txOut" where
  "connectorLeafOutput leaf =
     bindR (leaf_output ''connector leaf has multiple non-anchor outputs'' (tn_outputs leaf) None) (\<lambda>found.
       case found of
         None \<Rightarrow> Inl (RoundError ''connector leaf has no non-anchor output'')
       | Some out \<Rightarrow> Inr out)"

text \<open>The checks of the scalars, before anything is built.\<close>

definition check_connector_scalars :: "wireTx \<Rightarrow> connectorLeafInfo \<Rightarrow> round_error option" where
  "check_connector_scalars commitmentTx info =
     (if ci_rootOutputIndex info \<ge> of_nat (length (wt_outs commitmentTx))
      then Some (RoundError ''root output index out of range'')
      else if ci_numLeaves info = 0 then Some (RoundError ''num leaves must be positive'')
      else if ci_numLeaves info > maxConnectorTreeLeaves then Some (RoundError ''num leaves exceeds maximum'')
      else if ci_radix info < 2 then Some (RoundError ''radix must be at least 2'')
      else if ci_radix info > maxConnectorTreeRadix then Some (RoundError ''radix exceeds maximum'')
      else if ci_leafIndex info < 0 \<or> ci_leafIndex info \<ge> uint (ci_numLeaves info)
      then Some (RoundError ''leaf index out of range'')
      else if sint (ci_connectorAmount info) \<le> 0 then Some (RoundError ''connector leaf amount must be positive'')
      else if uint (ci_numLeaves info) > (2 ^ 63 - 1) div sint (ci_connectorAmount info)
      then Some (RoundError ''num leaves and leaf amount overflow int64'')
      else if out_value (wt_outs commitmentTx ! unat (ci_rootOutputIndex info)) \<noteq> ucast (ci_numLeaves info) * ci_connectorAmount info
      then Some (RoundError ''root output value differs from num leaves * leaf amount'')
      else None)"

text \<open>The leaf of the rebuilt tree that the operator assigned.\<close>

definition check_connector_leaf :: "treeLib \<Rightarrow> connectorLeafInfo \<Rightarrow> treeNode \<Rightarrow> round_error option" where
  "check_connector_leaf lib info leaf =
     (case GetNonAnchorOutpoint lib leaf of
        Inl e \<Rightarrow> Some (treeFailed e)
      | Inr gotOutpoint \<Rightarrow>
          if gotOutpoint \<noteq> ci_connectorOutpoint info
          then Some (RoundError ''assigned connector outpoint is not the leaf of the reconstructed tree'')
          else case connectorLeafOutput leaf of
            Inl e \<Rightarrow> Some e
          | Inr gotOutput \<Rightarrow>
              if out_value gotOutput \<noteq> ci_connectorAmount info
              then Some (RoundError ''connector leaf value differs from assigned amount'')
              else if out_pkScript gotOutput \<noteq> ci_connectorPkScript info
              then Some (RoundError ''connector leaf script does not match assigned connector script'')
              else None)"

text \<open>
  The tree is rebuilt with as much fuel as it has leaves; the radix is at
  least two, so that is enough.
\<close>

definition connector_tree :: "treeLib \<Rightarrow> wireTx \<Rightarrow> hash \<Rightarrow> pubKey \<Rightarrow> connectorLeafInfo \<Rightarrow> (tree_error + txTree) option" where
  "connector_tree lib commitmentTx commitmentTxID operatorKey info =
     (let rootOutput = wt_outs commitmentTx ! unat (ci_rootOutputIndex info) in
      BuildConnectorTree lib (unat (ci_numLeaves info)) \<lparr>op_hash = commitmentTxID, op_index = ci_rootOutputIndex info\<rparr>
        (Some rootOutput)
        \<lparr>cd_pkScript = out_pkScript rootOutput, cd_numLeaves = uint (ci_numLeaves info), cd_amount = ci_connectorAmount info\<rparr>
        (Some operatorKey) (uint (ci_radix info)))"

definition verifyConnectorLeaf :: "treeLib \<Rightarrow> wireTx \<Rightarrow> hash \<Rightarrow> pubKey \<Rightarrow> connectorLeafInfo \<Rightarrow> round_error option" where
  "verifyConnectorLeaf lib commitmentTx commitmentTxID operatorKey info =
     thenErr (check_connector_scalars commitmentTx info)
       (case connector_tree lib commitmentTx commitmentTxID operatorKey info of
          None \<Rightarrow> Some Diverges
        | Some (Inl e) \<Rightarrow> Some (treeFailed e)
        | Some (Inr connTree) \<Rightarrow>
            thenErr (map_option treeFailed (Verify lib (Some connTree)))
              (case tr_root connTree of
                 None \<Rightarrow> Some Panic
               | Some root \<Rightarrow>
                   let leaves = GetLeafNodes root in
                   if length leaves \<noteq> unat (ci_numLeaves info)
                   then Some (RoundError ''reconstructed tree has another number of leaves'')
                   else check_connector_leaf lib info (leaves ! nat (ci_leafIndex info))))"

definition validateConnectorAncestry :: "treeLib \<Rightarrow> wireTx \<Rightarrow> pubKey option \<Rightarrow> forfeitMappings \<Rightarrow> round_error option" where
  "validateConnectorAncestry lib commitmentTx operatorKey mappings =
     (if mappings = [] then None
      else case operatorKey of
        None \<Rightarrow> Some (RoundError ''operator key is nil'')
      | Some key \<Rightarrow>
          firstErr (\<lambda>(vtxoOutpoint, info).
            case info of
              None \<Rightarrow> Some (RoundError ''nil connector info'')
            | Some i \<Rightarrow> verifyConnectorLeaf lib commitmentTx (tl_txHash lib commitmentTx) key i) mappings)"

section \<open>Forfeit requests\<close>

text \<open>The index of the local requests; a later request for an outpoint replaces an earlier one.\<close>

definition forfeitRequestMap :: "forfeitReq list \<Rightarrow> (outPoint \<times> forfeitReq) list" where
  "forfeitRequestMap requests =
     fold (\<lambda>r m. case fq_vtxoOutpoint r of None \<Rightarrow> m | Some op \<Rightarrow> put op r m) requests []"

fun populate :: "(outPoint \<times> forfeitReq) list \<Rightarrow> forfeitMappings \<Rightarrow> round_error + forfeitMappings" where
  "populate index [] = Inr []"
| "populate index ((op, info) # ms) =
     (case info of
        None \<Rightarrow> Inl (RoundError ''nil connector info'')
      | Some i \<Rightarrow>
          (case map_of index op of
             None \<Rightarrow> Inl (RoundError ''missing local forfeit request'')
           | Some req \<Rightarrow>
               if sint (fq_amount req) \<le> 0 then Inl (RoundError ''invalid local forfeit amount'')
               else bindR (populate index ms) (\<lambda>rest. Inr ((op, Some (i\<lparr>ci_vtxoAmount := fq_amount req\<rparr>)) # rest))))"

definition populateForfeitMappingAmounts :: "forfeitMappings \<Rightarrow> forfeitReq list \<Rightarrow> round_error + forfeitMappings" where
  "populateForfeitMappingAmounts mappings requests = populate (forfeitRequestMap requests) mappings"

section \<open>All checks\<close>

text \<open>A refusal: the reason of the failed state, its error, and whether the round may be tried again.\<close>

type_synonym refusal = "string \<times> round_error \<times> bool"

definition refuse :: "string \<Rightarrow> bool \<Rightarrow> round_error option \<Rightarrow> refusal option" where
  "refuse reason recoverable e = map_option (\<lambda>e. (reason, e, recoverable)) e"

definition refuseR :: "string \<Rightarrow> bool \<Rightarrow> round_error + 'a \<Rightarrow> refusal + 'a" where
  "refuseR reason recoverable m = wrapR (\<lambda>e. (reason, e, recoverable)) m"

definition toR :: "'e option \<Rightarrow> 'e + unit" where
  "toR e = (case e of None \<Rightarrow> Inr () | Some e \<Rightarrow> Inl e)"

fun client_trees ::
  "treeLib \<Rightarrow> commitmentReceived \<Rightarrow> pubKey option \<Rightarrow> nat \<Rightarrow> vtxoRequest list \<Rightarrow> clientTrees \<Rightarrow> refusal + clientTrees" where
  "client_trees lib s treeCosignKey i [] trees = Inr trees"
| "client_trees lib s treeCosignKey i (r # rs) trees =
     bindR (refuseR ''VTXT validation failed for VTXO request'' False
             (bindR (quoteVTXOAmount (cr_quote s) i r) (\<lambda>expectedAmount.
                find_tree lib r expectedAmount treeCosignKey (cr_vtxoTreePaths s) (Inr None)))) (\<lambda>found.
       case found of
         None \<Rightarrow> Inl (''no client tree found for VTXO request'', RoundError ''VTXO tree not found'', False)
       | Some clientTree \<Rightarrow>
           (case vr_signingKey r of
              None \<Rightarrow> Inl ([], Panic, False)
            | Some key \<Rightarrow>
                client_trees lib s treeCosignKey (Suc i) rs
                  (put (NewSignerKey (tl_ark lib) key)
                     (clientTree\<lparr>tr_sweepKey := cr_sweepKey s, tr_sweepDelay := cr_sweepDelay s\<rparr>) trees)))"

definition commitment_checks ::
  "roundEnv \<Rightarrow> commitmentReceived \<Rightarrow> forfeitMappings \<Rightarrow> refusal + (outPoint \<times> nat) list \<times> clientTrees" where
  "commitment_checks env s mappings =
     (let lib = re_lib env; tx = pk_unsignedTx (cr_commitmentTx s); i = cr_intents s;
          treeCosignKey = (case cr_treeCosignKey s of None \<Rightarrow> ot_pubKey (re_terms env) | Some k \<Rightarrow> Some k);
          connectorOperatorKey = (case cr_connectorOperatorKey s of None \<Rightarrow> ot_pubKey (re_terms env) | Some k \<Rightarrow> Some k)
      in
      bindR (toR (refuse ''invalid round sweep delay'' False
                    (ValidateDelayParameters (cr_sweepDelay s) (ot_vtxoExitDelay (re_terms env))))) (\<lambda>_.
      bindR (if it_boarding i = [] then Inr []
             else refuseR ''commitment tx validation failed'' True (validateBoardingInputs tx (it_boarding i))) (\<lambda>indices.
      bindR (if it_leaves i = [] then Inr ()
             else refuseR ''leave output validation failed'' True
               (bindR (quoteLeaveAmounts (cr_quote s) (it_leaves i)) (\<lambda>leaveAmounts.
                  toR (validateLeaveOutputs tx (it_leaves i) leaveAmounts)))) (\<lambda>_.
      bindR (toR (refuse ''VTXO tree commitment binding failed'' False
                    (validateVTXOTreeBinding lib tx (cr_vtxoTreePaths s)))) (\<lambda>_.
      bindR (toR (refuse ''invalid round sweep policy'' False
                    (validateRoundSweepPolicy lib (cr_sweepKey s) (cr_sweepDelay s) (cr_vtxoTreePaths s)))) (\<lambda>_.
      bindR (client_trees lib s treeCosignKey 0 (it_vtxos i) []) (\<lambda>clientTrees.
      bindR (toR (refuse ''anchor output validation failed'' False
                    (firstErr (\<lambda>(outputIdx, t). map_option treeFailed (ValidateAnchors t)) (cr_vtxoTreePaths s)))) (\<lambda>_.
      bindR (toR (refuse ''connector ancestry validation failed'' False
                    (validateConnectorAncestry lib tx connectorOperatorKey mappings))) (\<lambda>_.
        Inr (indices, clientTrees))))))))))"

end
