(* ===== verification/Round_Quote_Facts.thy ===== *)
theory Round_Quote_Facts
  imports Round_Quote
begin

text \<open>
  What the fee handshake guarantees: at most one output of a round may take the fee, and an
  accepted quote costs exactly the fee it declares, which is within the client's cap.
\<close>

section \<open>The change marker\<close>

definition change_markers :: "vtxoRequest list \<Rightarrow> leaveRequest option list \<Rightarrow> nat" where
  "change_markers vs ls = length (filter vr_isChange vs) + length (filter leave_marked ls)"

lemma first_index_None: "first_index P xs = None \<longleftrightarrow> filter P xs = []"
  by (induction xs) auto

lemma first_index_Some: "first_index P xs = Some i \<Longrightarrow> i < length xs \<and> P (xs ! i)"
  by (induction xs arbitrary: i) (auto split: if_splits)

lemma filter_enumerate_one:
  assumes "\<And>i x. \<not> P (g i x)" and "i < k + length xs" and "k \<le> i"
  shows "filter P (map (\<lambda>(j, x). if Some j = Some i then x else g j x) (enumerate k xs)) =
     (if P (xs ! (i - k)) then [xs ! (i - k)] else [])"
  using assms(2,3)
proof (induction xs arbitrary: k)
  case (Cons x xs)
  show ?case
  proof (cases "i = k")
    case True
    have "filter P (map (\<lambda>(j, x). if Some j = Some i then x else g j x) (enumerate (Suc k) xs)) = []"
      using True assms(1) by (auto simp: filter_empty_conv in_set_enumerate_eq)
    then show ?thesis
      using True by simp
  next
    case False
    then have "i - k = Suc (i - Suc k)"
      using Cons(3) by simp
    then have "xs ! (i - Suc k) = (x # xs) ! (i - k)"
      by simp
    then show ?thesis
      using Cons(1) [of "Suc k"] Cons(2,3) False assms(1) by simp
  qed
qed simp

lemma clear_vtxos_None: "filter vr_isChange (clear_vtxos None vs) = []"
  by (auto simp: clear_vtxos_def filter_empty_conv)

lemma clear_vtxos_Some:
  "i < length vs \<Longrightarrow> filter vr_isChange (clear_vtxos (Some i) vs) = (if vr_isChange (vs ! i) then [vs ! i] else [])"
  unfolding clear_vtxos_def
  using filter_enumerate_one [of vr_isChange "\<lambda>j r. r\<lparr>vr_isChange := False\<rparr>" i 0 vs] by simp

lemma clear_leaves_None: "filter leave_marked (clear_leaves None ls) = []"
  by (auto simp: clear_leaves_def filter_empty_conv leave_marked_def split: option.splits)

lemma clear_leaves_Some:
  "i < length ls \<Longrightarrow> filter leave_marked (clear_leaves (Some i) ls) = (if leave_marked (ls ! i) then [ls ! i] else [])"
  unfolding clear_leaves_def
  using filter_enumerate_one [of leave_marked "\<lambda>j. map_option (\<lambda>l. l\<lparr>lr_isChange := False\<rparr>)" i 0 ls]
  by (simp add: leave_marked_def split: option.splits)

text \<open>Requests up to their markers.\<close>

abbreviation unmarked_vtxo :: "vtxoRequest \<Rightarrow> vtxoRequest" where
  "unmarked_vtxo r \<equiv> r\<lparr>vr_isChange := False\<rparr>"

abbreviation unmarked_leave :: "leaveRequest option \<Rightarrow> leaveRequest option" where
  "unmarked_leave \<equiv> map_option (\<lambda>l. l\<lparr>lr_isChange := False\<rparr>)"

lemma clear_vtxos_same: "map unmarked_vtxo (clear_vtxos keep vs) = map unmarked_vtxo vs"
  by (intro nth_equalityI) (auto simp: clear_vtxos_def nth_enumerate_eq)

lemma clear_leaves_same: "map unmarked_leave (clear_leaves keep ls) = map unmarked_leave ls"
  by (intro nth_equalityI) (auto simp: clear_leaves_def nth_enumerate_eq option.map_comp comp_def)

text \<open>The loop for the largest output that may shrink.\<close>

lemma largest_vtxo_spec:
  assumes "largest_vtxo (length pre) rs best = Some i" and "\<forall>(j, a) \<in> set_option best. j < length pre \<and> \<not> vr_fixedAmount (pre ! j) \<and>
      a = vr_amount (pre ! j) \<and> (\<forall>r \<in> set pre. \<not> vr_fixedAmount r \<longrightarrow> sint (vr_amount r) \<le> sint a)"
    and "best = None \<Longrightarrow> \<forall>r \<in> set pre. vr_fixedAmount r"
  shows "i < length (pre @ rs) \<and> \<not> vr_fixedAmount ((pre @ rs) ! i) \<and>
    (\<forall>r \<in> set (pre @ rs). \<not> vr_fixedAmount r \<longrightarrow> sint (vr_amount r) \<le> sint (vr_amount ((pre @ rs) ! i)))"
  using assms
proof (induction rs arbitrary: pre best)
  case Nil
  then show ?case
    by (cases best) auto
next
  case (Cons r rs)
  let ?skip = "vr_fixedAmount r \<or> (case best of None \<Rightarrow> False | Some (_, amount) \<Rightarrow> sint (vr_amount r) \<le> sint amount)"
  show ?case
  proof (cases ?skip)
    case True
    then have "largest_vtxo (length (pre @ [r])) rs best = Some i"
      using Cons(2) by simp
    then show ?thesis
      using Cons(1) [of "pre @ [r]" best] Cons(3,4) True
      by (cases best) (auto simp: nth_append)
  next
    case False
    then have "largest_vtxo (length (pre @ [r])) rs (Some (length pre, vr_amount r)) = Some i"
      using Cons(2) by simp
    then show ?thesis
      using Cons(1) [of "pre @ [r]" "Some (length pre, vr_amount r)"] Cons(3,4) False
      by (cases best) (fastforce simp: nth_append)+
  qed
qed

lemma largest_vtxo_None: "largest_vtxo k rs best = None \<longleftrightarrow> best = None \<and> (\<forall>r \<in> set rs. vr_fixedAmount r)"
  by (induction rs arbitrary: k best) (auto split: option.splits)

lemma set_update_marker:
  assumes "i < length vs" and "\<forall>r \<in> set vs. \<not> vr_isChange r"
  shows "filter vr_isChange (vs[i := (vs ! i)\<lparr>vr_isChange := True\<rparr>]) = [(vs ! i)\<lparr>vr_isChange := True\<rparr>]"
proof -
  have "vs[i := x] = take i vs @ x # drop (Suc i) vs" for x
    using assms(1) by (rule upd_conv_take_nth_drop)
  moreover have "filter vr_isChange (take i vs) = []" "filter vr_isChange (drop (Suc i) vs) = []"
    using assms(2) set_take_subset [of i vs] set_drop_subset [of "Suc i" vs] by (auto simp: filter_empty_conv)
  ultimately show ?thesis
    by simp
qed

text \<open>No marker yet and more than one output.\<close>

lemma designate_fresh:
  assumes "change_markers vs ls = 0" and "2 \<le> length vs + length ls"
  shows "designateChangeMarker vs ls =
     (case largest_vtxo 0 vs None of
        Some i \<Rightarrow> (vs[i := (vs ! i)\<lparr>vr_isChange := True\<rparr>], ls)
      | None \<Rightarrow> (case ls of Some l # ls' \<Rightarrow> (vs, Some (l\<lparr>lr_isChange := True\<rparr>) # ls') | _ \<Rightarrow> (vs, ls)))"
  using assms by (simp add: designateChangeMarker_def change_markers_def Let_def)

lemma designate_fresh_marks:
  assumes "change_markers vs ls = 0" and "2 \<le> length vs + length ls" and "designateChangeMarker vs ls = (vs', ls')"
  shows "map unmarked_vtxo vs' = map unmarked_vtxo vs \<and> map unmarked_leave ls' = map unmarked_leave ls \<and>
     change_markers vs' ls' \<le> 1 \<and>
     ((\<exists>r \<in> set vs. \<not> vr_fixedAmount r) \<or> (ls \<noteq> [] \<and> None \<notin> set ls) \<longrightarrow> change_markers vs' ls' = 1) \<and>
     (\<forall>r \<in> set vs'. vr_isChange r \<longrightarrow>
        \<not> vr_fixedAmount r \<and> (\<forall>r' \<in> set vs. \<not> vr_fixedAmount r' \<longrightarrow> sint (vr_amount r') \<le> sint (vr_amount r)))"
proof -
  have none: "\<forall>r \<in> set vs. \<not> vr_isChange r" "\<forall>l \<in> set ls. \<not> leave_marked l"
    "filter vr_isChange vs = []" "filter leave_marked ls = []"
    using assms(1) by (auto simp: change_markers_def filter_empty_conv)
  show ?thesis
  proof (cases "largest_vtxo 0 vs None")
    case (Some i)
    have i: "i < length vs" "\<not> vr_fixedAmount (vs ! i)"
      "\<forall>r \<in> set vs. \<not> vr_fixedAmount r \<longrightarrow> sint (vr_amount r) \<le> sint (vr_amount (vs ! i))"
      using largest_vtxo_spec [of "[]" vs None i] Some by auto
    have res: "vs' = vs[i := (vs ! i)\<lparr>vr_isChange := True\<rparr>]" "ls' = ls"
      using assms(3) designate_fresh [OF assms(1,2)] Some by auto
    have "map unmarked_vtxo vs' = map unmarked_vtxo vs"
      using i(1) by (intro nth_equalityI) (auto simp: res nth_list_update)
    moreover have "filter vr_isChange vs' = [(vs ! i)\<lparr>vr_isChange := True\<rparr>]"
      unfolding res by (rule set_update_marker [OF i(1) none(1)])
    moreover from this have "r = (vs ! i)\<lparr>vr_isChange := True\<rparr>" if "r \<in> set vs'" "vr_isChange r" for r
    proof -
      have "r \<in> set (filter vr_isChange vs')"
        using that by simp
      then show ?thesis
        using \<open>filter vr_isChange vs' = _\<close> by simp
    qed
    ultimately show ?thesis
      using i none(4) by (force simp: change_markers_def res)
  next
    case None
    then have fixed: "\<forall>r \<in> set vs. vr_fixedAmount r"
      by (simp add: largest_vtxo_None)
    show ?thesis
    proof (cases "\<exists>l ls0. ls = Some l # ls0")
      case True
      then obtain l ls0 where ls: "ls = Some l # ls0"
        by blast
      have res: "vs' = vs" "ls' = Some (l\<lparr>lr_isChange := True\<rparr>) # ls0"
        using assms(3) designate_fresh [OF assms(1,2)] None ls by auto
      show ?thesis
        using none ls by (auto simp: res change_markers_def leave_marked_def)
    next
      case False
      then have res: "vs' = vs" "ls' = ls"
        using assms(3) designate_fresh [OF assms(1,2)] None by (auto split: list.splits option.splits)
      have "\<not> (ls \<noteq> [] \<and> None \<notin> set ls)"
        using False by (cases ls) (auto simp: not_None_eq)
      then show ?thesis
        using none fixed by (auto simp: res change_markers_def)
    qed
  qed
qed

text \<open>More than one marker: all but the first that may shrink are cleared.\<close>

lemma designate_many:
  assumes "1 < change_markers vs ls" and "designateChangeMarker vs ls = (vs', ls')"
  shows "map unmarked_vtxo vs' = map unmarked_vtxo vs \<and> map unmarked_leave ls' = map unmarked_leave ls \<and>
     change_markers vs' ls' = 1"
proof -
  let ?v = "first_index (\<lambda>r. vr_isChange r \<and> \<not> vr_fixedAmount r) vs"
  let ?f = "first_index (\<lambda>r. vr_isChange r \<and> vr_fixedAmount r) vs"
  let ?l = "first_index leave_marked ls"
  have many: "1 < length (filter vr_isChange vs) + length (filter leave_marked ls)"
    using assms(1) by (simp add: change_markers_def)
  show ?thesis
  proof (cases ?v)
    case (Some i)
    then have i: "i < length vs" "vr_isChange (vs ! i)"
      using first_index_Some by blast+
    have "filter (\<lambda>r. vr_isChange r \<and> \<not> vr_fixedAmount r) vs \<noteq> []"
      using Some by (metis first_index_None option.distinct(1))
    then have "vs' = clear_vtxos (Some i) vs" "ls' = clear_leaves None ls"
      using assms(2) many Some by (auto simp: designateChangeMarker_def Let_def)
    then show ?thesis
      using clear_vtxos_Some [OF i(1)] i(2) clear_leaves_None [of ls]
      by (simp add: clear_vtxos_same clear_leaves_same change_markers_def)
  next
    case None
    then have nv: "filter (\<lambda>r. vr_isChange r \<and> \<not> vr_fixedAmount r) vs = []"
      by (simp only: first_index_None)
    show ?thesis
    proof (cases ?l)
      case (Some j)
      then have j: "j < length ls" "leave_marked (ls ! j)"
        using first_index_Some by blast+
      have "filter leave_marked ls \<noteq> []"
        using Some by (metis first_index_None option.distinct(1))
      then have "vs' = clear_vtxos None vs" "ls' = clear_leaves (Some j) ls"
        using assms(2) many None Some by (auto simp: designateChangeMarker_def Let_def)
      then show ?thesis
        using clear_leaves_Some [OF j(1)] j(2) clear_vtxos_None [of vs]
        by (simp add: clear_vtxos_same clear_leaves_same change_markers_def)
    next
      case leaves: None
      then have nl: "filter leave_marked ls = []"
        by (simp only: first_index_None)
      then obtain r where r: "r \<in> set vs" "vr_isChange r" "vr_fixedAmount r"
        using many nv by (metis (mono_tags, lifting) add_0_right filter_empty_conv less_nat_zero_code list.size(3))
      then obtain k where k: "?f = Some k"
        using first_index_None [of "\<lambda>r. vr_isChange r \<and> vr_fixedAmount r" vs] by (cases ?f) (auto simp: filter_empty_conv)
      then have k': "k < length vs" "vr_isChange (vs ! k)"
        using first_index_Some by blast+
      have "vs' = clear_vtxos (Some k) vs" "ls' = clear_leaves None ls"
        using assms(2) many nv nl k by (auto simp: designateChangeMarker_def Let_def)
      then show ?thesis
        using clear_vtxos_Some [OF k'(1)] k'(2) clear_leaves_None [of ls]
        by (simp add: clear_vtxos_same clear_leaves_same change_markers_def)
    qed
  qed
qed

lemma designate_at_most_one:
  assumes "designateChangeMarker vs ls = (vs', ls')"
  shows "change_markers vs' ls' \<le> 1"
proof -
  consider "1 < change_markers vs ls" | "change_markers vs ls = 0" "2 \<le> length vs + length ls" |
    "change_markers vs ls \<le> 1" "change_markers vs ls = 1 \<or> length vs + length ls \<le> 1"
    by linarith
  then show ?thesis
  proof cases
    case 1
    then show ?thesis
      using designate_many [OF 1 assms] by simp
  next
    case 2
    then show ?thesis
      using designate_fresh_marks [OF 2 assms] by simp
  next
    case 3
    then have "vs' = vs" "ls' = ls"
      using assms by (auto simp: designateChangeMarker_def change_markers_def Let_def split: if_splits)
    then show ?thesis
      using 3 by simp
  qed
qed

text \<open>
  C40: The change marker is made unique without touching anything else of the requests: at most
  one output is marked afterwards, a single marker set by the caller stays, an intent
  with several outputs of which one may shrink has exactly one, and a marker the client
  chooses itself is on a largest VTXO that may shrink.
\<close>

theorem designateChangeMarker_unique:
  assumes "designateChangeMarker vs ls = (vs', ls')"
  shows "map unmarked_vtxo vs' = map unmarked_vtxo vs \<and> map unmarked_leave ls' = map unmarked_leave ls \<and>
     change_markers vs' ls' \<le> 1 \<and> (change_markers vs ls = 1 \<longrightarrow> vs' = vs \<and> ls' = ls) \<and>
     (2 \<le> length vs + length ls \<and> ((\<exists>r \<in> set vs. \<not> vr_fixedAmount r) \<or> (ls \<noteq> [] \<and> None \<notin> set ls)) \<longrightarrow>
        change_markers vs' ls' = 1) \<and>
     (change_markers vs ls = 0 \<longrightarrow> (\<forall>r \<in> set vs'. vr_isChange r \<longrightarrow> \<not> vr_fixedAmount r \<and>
        (\<forall>r' \<in> set vs. \<not> vr_fixedAmount r' \<longrightarrow> sint (vr_amount r') \<le> sint (vr_amount r))))"
proof -
  consider "1 < change_markers vs ls" | "change_markers vs ls = 1" |
    "change_markers vs ls = 0" "2 \<le> length vs + length ls" | "change_markers vs ls = 0" "length vs + length ls \<le> 1"
    by linarith
  then show ?thesis
  proof cases
    case 1
    then show ?thesis
      using designate_many [OF 1 assms] by simp
  next
    case 2
    then have "vs' = vs" "ls' = ls"
      using assms by (auto simp: designateChangeMarker_def change_markers_def Let_def)
    then show ?thesis
      using 2 by simp
  next
    case 3
    then show ?thesis
      using designate_fresh_marks [OF 3 assms] by simp
  next
    case 4
    then have "vs' = vs" "ls' = ls"
      using assms by (auto simp: designateChangeMarker_def change_markers_def Let_def)
    then show ?thesis
      using 4 by (auto simp: change_markers_def filter_empty_conv)
  qed
qed

definition ex_round_request :: "i64 \<Rightarrow> vtxoRequest" where
  "ex_round_request a = \<lparr>vr_amount = a, vr_isChange = False, vr_fixedAmount = False, vr_assetRef = [], vr_assetAmount = 0,
     vr_policyTemplate = [], vr_ownerKey = None, vr_signingKey = None, vr_origin = VTXOOriginRoundBoarding,
     vr_refreshSource = None\<rparr>"

theorem designateChangeMarker_unique_witness:
  "change_markers [ex_round_request 5, (ex_round_request 9)\<lparr>vr_isChange := True\<rparr>] [] \<le> 1"
  using designateChangeMarker_unique [of "[ex_round_request 5, ex_round_request 9]" "[]"
      "[ex_round_request 5, (ex_round_request 9)\<lparr>vr_isChange := True\<rparr>]" "[]"]
  by (simp add: designateChangeMarker_def ex_round_request_def leave_marked_def)

section \<open>An accepted quote\<close>

text \<open>What the client brings into the round and what the quote gives back, over the integers.\<close>

definition forfeit_value :: "(outPoint \<Rightarrow> string + i64) option \<Rightarrow> forfeitReq \<Rightarrow> int" where
  "forfeit_value store f =
     (case store of
        None \<Rightarrow> sint (fq_amount f)
      | Some get \<Rightarrow> (case fq_vtxoOutpoint f of None \<Rightarrow> 0 | Some op \<Rightarrow> (case get op of Inl e \<Rightarrow> 0 | Inr a \<Rightarrow> sint a)))"

definition contribution :: "(outPoint \<Rightarrow> string + i64) option \<Rightarrow> intents \<Rightarrow> int" where
  "contribution store i =
     (\<Sum>b \<leftarrow> it_boarding i. sint (bi_amount b)) + (\<Sum>f \<leftarrow> it_forfeits i. forfeit_value store f)"

definition quoted_total :: "clientQuote \<Rightarrow> int" where
  "quoted_total q = (\<Sum>e \<leftarrow> cq_vtxoQuotes q. sint (vq_amountSat e)) + (\<Sum>e \<leftarrow> cq_leaveQuotes q. sint (lq_amountSat e))"

definition leave_target :: "leaveRequest option \<Rightarrow> int" where
  "leave_target l = (case l of None \<Rightarrow> 0 | Some l \<Rightarrow> (case lr_output l of None \<Rightarrow> 0 | Some out \<Rightarrow> sint (out_value out)))"

definition target_total :: "intents \<Rightarrow> int" where
  "target_total i =
     (\<Sum>r \<leftarrow> filter (\<lambda>r. \<not> vr_isChange r) (it_vtxos i). sint (vr_amount r)) +
     (\<Sum>l \<leftarrow> filter (\<lambda>l. \<not> leave_marked l) (it_leaves i). leave_target l)"

text \<open>An entry of the quote answers its request.\<close>

definition vtxo_echoed :: "arkLib \<Rightarrow> bool \<Rightarrow> vtxoRequest \<Rightarrow> vtxoQuoteEntry \<Rightarrow> bool" where
  "vtxo_echoed lib implicit r e \<longleftrightarrow>
     Request_EffectivePkScript lib r = Inr (vq_pkScript e) \<and>
     vq_recipientKey e = (case vr_signingKey r of None \<Rightarrow> [] | Some k \<Rightarrow> al_compressed lib k) \<and>
     \<not> (vr_fixedAmount r \<and> vr_isChange r) \<and>
     (\<not> implicit \<and> \<not> vr_isChange r \<longrightarrow> vq_amountSat e = vr_amount r)"

definition leave_echoed :: "bool \<Rightarrow> leaveRequest option \<Rightarrow> leaveQuoteEntry \<Rightarrow> bool" where
  "leave_echoed implicit l e \<longleftrightarrow>
     (\<exists>leave out. l = Some leave \<and> lr_output leave = Some out \<and> lq_pkScript e = out_pkScript out \<and>
        (\<not> implicit \<and> \<not> lr_isChange leave \<longrightarrow> lq_amountSat e = out_value out))"

lemma check_vtxo_echo_None: "check_vtxo_echo lib implicit (r, e) = None \<longleftrightarrow> vtxo_echoed lib implicit r e"
  by (auto simp: check_vtxo_echo_def vtxo_echoed_def split: sum.splits)

lemma check_leave_echo_None: "check_leave_echo implicit (l, e) = None \<longleftrightarrow> leave_echoed implicit l e"
  by (auto simp: check_leave_echo_def leave_echoed_def split: option.splits)

lemma validateQuoteEchoes_None:
  "validateQuoteEchoes lib i q = None \<longleftrightarrow>
     list_all2 (vtxo_echoed lib (implicitChange i)) (it_vtxos i) (cq_vtxoQuotes q) \<and>
     list_all2 (leave_echoed (implicitChange i)) (it_leaves i) (cq_leaveQuotes q)"
  by (auto simp: validateQuoteEchoes_def list_all2_iff check_vtxo_echo_None check_leave_echo_None
      split: prod.splits)

lemma sum_amounts_Inr:
  "sum_amounts what as sofar = Inr t \<longleftrightarrow> (\<forall>a \<in> set as. 0 \<le> sint a) \<and> t = sofar + sum_list as"
  by (induction what as sofar rule: sum_amounts.induct) (auto simp: add.assoc)

lemma of_int_sum_sint: "(of_int (\<Sum>x \<leftarrow> xs. sint (f x :: i64)) :: i64) = sum_list (map f xs)"
  by (induction xs) simp_all

lemma computeTotalForfeitAmount_Inr:
  "computeTotalForfeitAmount store fs sofar = Inr t \<Longrightarrow>
     t = sofar + of_int (\<Sum>f \<leftarrow> fs. forfeit_value store f)"
  by (induction store fs sofar rule: computeTotalForfeitAmount.induct)
    (auto simp: forfeit_value_def bindR_def wrapR_def roundLibR_def add.assoc split: option.splits sum.splits if_splits)

lemma realisedQuoteFee_Inr:
  assumes "realisedQuoteFee store i q = Inr fee"
  shows "fee = of_int (contribution store i - quoted_total q)"
    and "\<forall>b \<in> set (it_boarding i). 0 \<le> sint (bi_amount b)"
    and "\<forall>e \<in> set (cq_vtxoQuotes q). 0 \<le> sint (vq_amountSat e)"
    and "\<forall>e \<in> set (cq_leaveQuotes q). 0 \<le> sint (lq_amountSat e)"
  using assms
  by (auto simp: realisedQuoteFee_def sum_amounts_Inr contribution_def quoted_total_def of_int_sum_sint
      dest!: computeTotalForfeitAmount_Inr)

lemma accepted_facts:
  assumes "evaluateQuote env rid i (Some q) = Inr (QuoteAccepted rid' qid)"
  shows "validateQuoteEchoes (re_ark env) i q = None \<and> \<not> quote_expired env q \<and>
     realisedQuoteFee (re_vtxoStore env) i q = Inr (cq_operatorFeeSat q) \<and>
     0 \<le> sint (cq_operatorFeeSat q) \<and> sint (cq_operatorFeeSat q) \<le> sint (re_maxOperatorFee env) \<and>
     (hasAutoRefresh i \<longrightarrow> cq_operatorFeeSat q = 0)"
  using assms
  by (auto simp: evaluateQuote_def quote_refusal_def Let_def
      split: option.splits if_splits sum.splits round_error.splits)

lemma quoted_bound:
  fixes f :: "'e \<Rightarrow> int"
  shows "list_all2 (\<lambda>r e. \<not> P r \<longrightarrow> f e = g r) rs es \<Longrightarrow> \<forall>e \<in> set es. f e \<le> M \<Longrightarrow>
     sum_list (map f es) \<le> sum_list (map g (filter (\<lambda>r. \<not> P r) rs)) + int (length (filter P rs)) * M"
  by (induction rule: list_all2_induct) (auto simp: algebra_simps)

lemma sint64_bounds: "sint (w :: i64) \<le> 2 ^ 63 - 1"
  using sint_lt [of w] by simp

lemma quoted_total_bound:
  assumes "list_all2 (vtxo_echoed lib (implicitChange i)) (it_vtxos i) (cq_vtxoQuotes q)"
    and "list_all2 (leave_echoed (implicitChange i)) (it_leaves i) (cq_leaveQuotes q)"
    and "change_markers (it_vtxos i) (it_leaves i) \<le> 1"
    and "0 \<le> cap" and "cap < 2 ^ 63" and "cap + target_total i < 2 ^ 63"
  shows "quoted_total q + cap < 2 ^ 64"
proof (cases "implicitChange i")
  case True
  then consider r where "it_vtxos i = [r]" "it_leaves i = []" | l where "it_vtxos i = []" "it_leaves i = [l]"
    by (cases "it_vtxos i"; cases "it_leaves i") (auto simp: implicitChange_def)
  then show ?thesis
  proof cases
    case 1
    then obtain e where "cq_vtxoQuotes q = [e]" "cq_leaveQuotes q = []"
      using assms(1,2) by (auto simp: list_all2_Cons1)
    then show ?thesis
      using assms(5) sint64_bounds [of "vq_amountSat e"] by (simp add: quoted_total_def)
  next
    case 2
    then obtain e where "cq_vtxoQuotes q = []" "cq_leaveQuotes q = [e]"
      using assms(1,2) by (auto simp: list_all2_Cons1)
    then show ?thesis
      using assms(5) sint64_bounds [of "lq_amountSat e"] by (simp add: quoted_total_def)
  qed
next
  case False
  let ?M = "2 ^ 63 - 1 :: int"
  have "(\<Sum>e \<leftarrow> cq_vtxoQuotes q. sint (vq_amountSat e)) \<le>
      (\<Sum>r \<leftarrow> filter (\<lambda>r. \<not> vr_isChange r) (it_vtxos i). sint (vr_amount r)) +
      int (length (filter vr_isChange (it_vtxos i))) * ?M"
    using assms(1) False
    by (intro quoted_bound) (auto simp: vtxo_echoed_def sint64_bounds [simplified] elim!: list_all2_mono)
  moreover have "(\<Sum>e \<leftarrow> cq_leaveQuotes q. sint (lq_amountSat e)) \<le>
      (\<Sum>l \<leftarrow> filter (\<lambda>l. \<not> leave_marked l) (it_leaves i). leave_target l) +
      int (length (filter leave_marked (it_leaves i))) * ?M"
    using assms(2) False
    by (intro quoted_bound)
      (auto simp: leave_echoed_def leave_marked_def leave_target_def sint64_bounds [simplified] elim!: list_all2_mono)
  moreover have "int (length (filter vr_isChange (it_vtxos i))) * ?M + int (length (filter leave_marked (it_leaves i))) * ?M
      = int (change_markers (it_vtxos i) (it_leaves i)) * ?M"
    by (simp add: change_markers_def distrib_right)
  moreover have "int (change_markers (it_vtxos i) (it_leaves i)) * ?M \<le> 1 * ?M"
    using assms(3) by (intro mult_right_mono) simp_all
  ultimately show ?thesis
    using assms(6) by (simp add: quoted_total_def target_total_def)
qed

lemma of_int_sint_exact:
  fixes w :: i64
  assumes "w = of_int x" and "- (2 ^ 64) < x - sint w" and "x - sint w < 2 ^ 64"
  shows "x = sint w"
proof -
  have "(of_int (x - sint w) :: i64) = 0"
    using assms(1) by simp
  then have "2 ^ 64 dvd x - sint w"
    using word_of_int_eq_0_iff [where 'a = 64, of "x - sint w"] by simp
  then show ?thesis
    using assms(2,3) zdvd_not_zless [of "x - sint w" "2 ^ 64"] zdvd_not_zless [of "sint w - x" "2 ^ 64"]
    by (metis dvd_minus_iff eq_iff_diff_eq_0 linorder_neqE_linordered_idom minus_diff_eq neg_0_less_iff_less
        neg_less_iff_less minus_minus)
qed

text \<open>
  C39: A quote the client accepts is fair over the integers, whatever the int64
  additions of the code wrap to: what the client contributes is what the quote returns plus the quoted fee, the
  fee is between zero and the client's cap, and zero when the round carries an automatic
  refresh; every output has the requested script, and every output but the one
  change output the requested amount. The requests are the ones the client
  designated its change output on, its contribution does not exceed the money supply, and the targets
  and the cap stay in the int64 range.
\<close>

theorem accepted_quote_fair:
  assumes "evaluateQuote env rid i (Some q) = Inr (QuoteAccepted rid' qid)"
    and "designateChangeMarker vs ls = (it_vtxos i, it_leaves i)"
    and "\<forall>f \<in> set (it_forfeits i). 0 \<le> forfeit_value (re_vtxoStore env) f"
    and "contribution (re_vtxoStore env) i \<le> 21 * 10 ^ 14"
    and "sint (re_maxOperatorFee env) + target_total i < 2 ^ 63"
  shows "contribution (re_vtxoStore env) i = quoted_total q + sint (cq_operatorFeeSat q) \<and>
     0 \<le> sint (cq_operatorFeeSat q) \<and> sint (cq_operatorFeeSat q) \<le> sint (re_maxOperatorFee env) \<and>
     (hasAutoRefresh i \<longrightarrow> cq_operatorFeeSat q = 0) \<and> \<not> quote_expired env q \<and>
     list_all2 (vtxo_echoed (re_ark env) (implicitChange i)) (it_vtxos i) (cq_vtxoQuotes q) \<and>
     list_all2 (leave_echoed (implicitChange i)) (it_leaves i) (cq_leaveQuotes q)"
proof -
  note acc = accepted_facts [OF assms(1)]
  let ?c = "contribution (re_vtxoStore env) i" and ?fee = "sint (cq_operatorFeeSat q)"
  have echo: "list_all2 (vtxo_echoed (re_ark env) (implicitChange i)) (it_vtxos i) (cq_vtxoQuotes q)"
    "list_all2 (leave_echoed (implicitChange i)) (it_leaves i) (cq_leaveQuotes q)"
    using acc by (simp_all add: validateQuoteEchoes_None)
  note fee = realisedQuoteFee_Inr [of "re_vtxoStore env" i q "cq_operatorFeeSat q"]
  have "0 \<le> ?c"
    using acc fee(2) assms(3) unfolding contribution_def by (auto intro!: add_nonneg_nonneg sum_list_nonneg)
  moreover have "0 \<le> quoted_total q"
    using acc fee(3,4) unfolding quoted_total_def by (auto intro!: add_nonneg_nonneg sum_list_nonneg)
  moreover have "quoted_total q + sint (re_maxOperatorFee env) < 2 ^ 64"
    using acc assms(5) sint_lt [of "re_maxOperatorFee env"]
    by (intro quoted_total_bound [OF echo designate_at_most_one [OF assms(2)]]) auto
  ultimately have "?c - quoted_total q = ?fee"
    using acc assms(4) fee(1) by (intro of_int_sint_exact) auto
  then show ?thesis
    using acc echo by simp
qed

text \<open>An environment for the examples: no stores, and a signer and a wallet that always answer.\<close>

definition ex_round_env :: roundEnv where
  "ex_round_env =
     \<lparr>re_lib = ex_tx_lib, re_now = \<lparr>wall = 10, mono = 10\<rparr>,
      re_terms = \<lparr>ot_batchSchedule = None, ot_pubKey = Some [9], ot_vtxoExitDelay = 144, ot_dustLimit = 10, ot_minVTXOAmount = 10,
        ot_minConfirmations = 1, ot_vtxoConfirmations = 1\<rparr>,
      re_admission = None, re_scheduled = None, re_journal = [],
      re_maxOperatorFee = 50, re_startHeight = 100, re_disableJoinRequestAuth = True,
      re_forfeitCollectionTimeout = 60, re_admissionTimeout = 60, re_registrationTimeout = 60,
      re_statusReconcileTimeout = 60, re_roundKey = ''round'', re_roundIDString = (\<lambda>r. ''id''),
      re_termsSource = None, re_jitter = (\<lambda>n. 0), re_vtxoStore = None,
      re_deriveNextKey = (\<lambda>n. Inr [of_nat n]), re_deriveIdentifier = Inr [1],
      re_buildJoinRoundAuth = (\<lambda>k sel i fs. Inr []),
      re_constrainAdmissionDeadline = (\<lambda>r t. Inr \<lparr>ad_expiresAt = t, ad_closed = False\<rparr>),
      re_closeAdmissionDeadline = (\<lambda>r. None),
      re_createSessions = (\<lambda>ks. Inr (map (\<lambda>(k, _, _). (k, [1], [])) ks)),
      re_registerAggNonces = (\<lambda>h ns. None), re_sign = (\<lambda>ss. Inr (map (\<lambda>(k, _). (k, [])) ss)),
      re_cleanup = (\<lambda>h. None), re_serializeSignature = (\<lambda>s. s),
      re_signBoardingInput = (\<lambda>tx n b p. Inr [1]), re_taprootKeyNoScript = (\<lambda>k. k),
      re_commitState = (\<lambda>c s. None), re_isOwnedScript = None, re_saveVTXOs = (\<lambda>vs. None)\<rparr>"

definition ex_leave :: "i64 \<Rightarrow> byte \<Rightarrow> leaveRequest option" where
  "ex_leave v b = Some \<lparr>lr_output = Some \<lparr>out_value = v, out_pkScript = [b]\<rparr>, lr_isChange = False, lr_destinationOwnWallet = False\<rparr>"

definition ex_boarding :: boardingIntent where
  "ex_boarding = \<lparr>bi_outpoint = \<lparr>op_hash = 5, op_index = 1\<rparr>, bi_amount = 1000, bi_adopted = False,
     bi_request = \<lparr>br_outpoint = \<lparr>op_hash = 5, op_index = 1\<rparr>, br_assetRef = [], br_policyTemplate = []\<rparr>\<rparr>"

definition ex_intents :: intents where
  "ex_intents = \<lparr>it_boarding = [ex_boarding], it_vtxos = [],
     it_leaves = [map_option (\<lambda>l. l\<lparr>lr_isChange := True\<rparr>) (ex_leave 600 1), ex_leave 400 2],
     it_forfeits = [], it_quotedLeaveAmounts = []\<rparr>"

definition ex_quote :: clientQuote where
  "ex_quote = \<lparr>cq_quoteID = [1], cq_sealPass = 0, cq_operatorFeeSat = 30, cq_vtxoQuotes = [],
     cq_leaveQuotes = [\<lparr>lq_pkScript = [1], lq_amountSat = 570\<rparr>, \<lparr>lq_pkScript = [2], lq_amountSat = 400\<rparr>],
     cq_quoteExpiresAt = 0, cq_rejectReason = QUOTE_OK\<rparr>"

lemmas ex_quote_defs = ex_round_env_def ex_leave_def ex_boarding_def ex_intents_def ex_quote_def

lemma ex_quote_accepted: "evaluateQuote ex_round_env [7] ex_intents (Some ex_quote) = Inr (QuoteAccepted [7] [1])"
  by (simp add: ex_quote_defs evaluateQuote_def quote_refusal_def quote_expired_def unix_def MinVTXOAmountFloor_def
      validateQuoteEchoes_def check_leave_echo_def implicitChange_def singleOutputFixed_def realisedQuoteFee_def
      hasAutoRefresh_def bindR_def thenErr_def)

theorem accepted_quote_fair_witness:
  "contribution None ex_intents = quoted_total ex_quote + 30 \<and> contribution None ex_intents = 1000"
proof -
  have "designateChangeMarker [] [ex_leave 600 1, ex_leave 400 2] = (it_vtxos ex_intents, it_leaves ex_intents)"
    by (simp add: ex_quote_defs designateChangeMarker_def leave_marked_def)
  then show ?thesis
    using accepted_quote_fair [OF ex_quote_accepted]
    by (simp add: ex_quote_defs contribution_def target_total_def leave_marked_def leave_target_def)
qed

end
