(* ===== verification/Round_Commitment_Facts.thy ===== *)
theory Round_Commitment_Facts
  imports Round_Commitment Round_Quote_Facts "HOL-Library.Multiset"
begin

text \<open>
  What the checks of a commitment transaction establish for the client, and that a batch built by
  the operator's own builders passes them.
\<close>

section \<open>Maps, inputs and leaves\<close>

lemma map_of_put [simp]: "map_of (put k v m) = (map_of m)(k \<mapsto> v)"
proof
  have "map_of (filter (\<lambda>(k', _). k' \<noteq> k) m) x = (if x = k then None else map_of m x)" for x
    by (induction m) auto
  then show "map_of (put k v m) x = ((map_of m)(k \<mapsto> v)) x" for x
    by (simp add: put_def)
qed

lemma put_mem: "(k', v') \<in> set (put k v m) \<Longrightarrow> (k', v') = (k, v) \<or> (k', v') \<in> set m"
  by (auto simp: put_def)

lemma put_keys [simp]: "fst ` set (put k v m) = insert k (fst ` set m)"
  by (force simp: put_def)

lemma indices_of_inputs:
  "map_of (fold (\<lambda>(i, txIn). put (in_prevout txIn) i) xs m) op = Some j \<Longrightarrow>
     map_of m op = Some j \<or> (\<exists>txIn. (j, txIn) \<in> set xs \<and> in_prevout txIn = op)"
proof (induction xs arbitrary: m)
  case (Cons x xs)
  obtain i txIn where x: "x = (i, txIn)"
    by fastforce
  then show ?case
    using Cons(1) [of "put (in_prevout txIn) i m"] Cons(2) by (auto split: if_splits)
qed simp

lemma outpointToIdx_Some:
  assumes "map_of (outpointToIdx ins) op = Some j"
  shows "j < length ins \<and> in_prevout (ins ! j) = op"
  using indices_of_inputs [OF assms [unfolded outpointToIdx_def]] by (auto simp: in_set_enumerate_eq)

lemma validateBoardingInputs_Inr:
  assumes "validateBoardingInputs tx bs = Inr indices" and "b \<in> set bs"
  obtains j where "map_of indices (br_outpoint (bi_request b)) = Some j" "j < length (wt_ins tx)"
    "in_prevout (wt_ins tx ! j) = br_outpoint (bi_request b)"
proof -
  have "indices = outpointToIdx (wt_ins tx)" "map_of indices (br_outpoint (bi_request b)) \<noteq> None"
    using assms by (auto simp: validateBoardingInputs_def Let_def split: if_splits option.splits)
  then show ?thesis
    using that outpointToIdx_Some by blast
qed

text \<open>The outputs that the leave requests of a client are owed.\<close>

definition leave_script :: "leaveRequest option \<Rightarrow> byte list" where
  "leave_script l = out_pkScript (the (lr_output (the l)))"

definition owed_leaves :: "clientQuote option \<Rightarrow> leaveRequest option list \<Rightarrow> (i64 \<times> byte list) list" where
  "owed_leaves quote leaves =
     (case quote of
        None \<Rightarrow> map (\<lambda>l. (out_value (the (lr_output (the l))), leave_script l)) leaves
      | Some q \<Rightarrow> map (\<lambda>(l, e). (lq_amountSat e, leave_script l)) (zip leaves (cq_leaveQuotes q)))"

lemma mset_fold_remove1: "mset (fold (\<lambda>x. remove1 (f x)) xs ys) = mset ys - mset (map f xs)"
  by (induction xs arbitrary: ys) simp_all

lemma expectedOutputs_None:
  "expectedOutputs i None ls = Inr es \<Longrightarrow> es = map (\<lambda>l. (out_value (the (lr_output (the l))), leave_script l)) ls"
  by (induction ls arbitrary: i es) (auto simp: Let_def leave_script_def split: option.splits)

lemma expectedOutputs_Some:
  "expectedOutputs i (Some as) ls = Inr es \<Longrightarrow> i + length ls \<le> length as \<Longrightarrow>
     es = map (\<lambda>(l, a). (a, leave_script l)) (zip ls (drop i as))"
  by (induction ls arbitrary: i es)
    (auto simp: Let_def leave_script_def Cons_nth_drop_Suc [symmetric] split: option.splits)

lemma leaves_paid:
  assumes "quoteLeaveAmounts quote leaves = Inr amounts" and "validateLeaveOutputs tx leaves amounts = None" and "leaves \<noteq> []"
  shows "mset (owed_leaves quote leaves) \<subseteq># mset (map (\<lambda>o'. (out_value o', out_pkScript o')) (wt_outs tx))"
proof -
  obtain es where es: "expectedOutputs 0 amounts leaves = Inr es"
    and none: "fold (\<lambda>txOut. remove1 (out_value txOut, out_pkScript txOut)) (wt_outs tx) es = []"
    using assms(2,3) by (auto simp: validateLeaveOutputs_def split: sum.splits if_splits)
  have "mset es - mset (map (\<lambda>o'. (out_value o', out_pkScript o')) (wt_outs tx)) = {#}"
    using none mset_fold_remove1 [of "\<lambda>o'. (out_value o', out_pkScript o')" "wt_outs tx" es] by simp
  then have "mset es \<subseteq># mset (map (\<lambda>o'. (out_value o', out_pkScript o')) (wt_outs tx))"
    by (simp only: Diff_eq_empty_iff_mset)
  moreover have "es = owed_leaves quote leaves"
  proof (cases quote)
    case None
    then show ?thesis
      using assms(1) es by (auto simp: quoteLeaveAmounts_def owed_leaves_def dest: expectedOutputs_None)
  next
    case (Some q)
    then have len: "length leaves \<le> length (cq_leaveQuotes q)"
      and am: "amounts = Some (map lq_amountSat (take (length leaves) (cq_leaveQuotes q)))"
      using assms(1) by (auto simp: quoteLeaveAmounts_def split: if_splits)
    have "es = map (\<lambda>(l, a). (a, leave_script l)) (zip leaves (map lq_amountSat (take (length leaves) (cq_leaveQuotes q))))"
      using expectedOutputs_Some [OF es [unfolded am]] len by simp
    also have "\<dots> = owed_leaves quote leaves"
      using len by (auto simp: Some owed_leaves_def zip_map2 intro!: nth_equalityI)
    finally show ?thesis .
  qed
  ultimately show ?thesis
    by simp
qed

section \<open>Trees\<close>

lemma verifyVTXOTreeRoot_None:
  assumes "verifyVTXOTreeRoot lib tx txid k vt = None"
  obtains t root out where "vt = Some t" "tr_root t = Some root" "tr_batchOutput t = Some out"
    "k = uint (op_index (tr_batchOutpoint t))" "op_hash (tr_batchOutpoint t) = txid"
    "unat (op_index (tr_batchOutpoint t)) < length (wt_outs tx)"
    "wt_outs tx ! unat (op_index (tr_batchOutpoint t)) = out"
    "childScript lib (tr_sweepTapscriptRoot t) root = Inr (out_pkScript out)"
    "validateNodeChildScripts lib (tr_sweepTapscriptRoot t) root = None" "ValidateValueConservation lib (Some t) = None"
proof -
  obtain t root out where t: "vt = Some t" "tr_root t = Some root" "tr_batchOutput t = Some out"
    using assms by (auto simp: verifyVTXOTreeRoot_def split: option.splits)
  let ?i = "op_index (tr_batchOutpoint t)" and ?n = "length (wt_outs tx)"
  have i: "k = uint ?i" "op_hash (tr_batchOutpoint t) = txid" "?i < of_nat ?n"
    using assms t by (auto simp: verifyVTXOTreeRoot_def not_le split: if_splits)
  have "unat ?i < unat (of_nat ?n :: u32)"
    using i(3) by (simp add: word_less_nat_alt)
  also have "\<dots> \<le> ?n"
    by (simp add: unat_of_nat)
  finally have "unat ?i < ?n" .
  moreover obtain fk where "ComputeFinalKey lib (tn_coSigners root) (tr_sweepTapscriptRoot t) = Inr fk"
    "al_payToTaproot (tl_ark lib) fk = Inr (out_pkScript out)" "wt_outs tx ! unat ?i = out"
    using assms t i
    by (auto simp: verifyVTXOTreeRoot_def Let_def not_le split: if_splits sum.splits intro!: txOut.equality)
  moreover have "ValidateChildScripts lib (Some t) = None" "ValidateValueConservation lib (Some t) = None"
    using assms t i by (auto simp: verifyVTXOTreeRoot_def Let_def not_le split: if_splits sum.splits)
  ultimately show ?thesis
    using that [OF t i(1,2)] t by (auto simp: childScript_def ValidateChildScripts_def)
qed

lemma sweep_policy_None:
  assumes "validateRoundSweepPolicy lib key delay trees = None" and "(k, Some t) \<in> set trees"
  shows "\<exists>leaf. sweepTapData lib key delay = Inr (leaf, tr_sweepTapscriptRoot t)"
  using assms
  by (auto simp: validateRoundSweepPolicy_def sweepTapData_def wrapR_def Let_def split: if_splits sum.splits dest!: bspec)

lemma find_tree_Inr:
  "find_tree lib r amount op ts sofar = Inr (Some ct) \<Longrightarrow> sofar = Inr (Some ct) \<or>
     (\<exists>(k, t) \<in> set ts. validateRequestedVTXO lib t r amount op = Inr ct)"
proof (induction ts arbitrary: sofar)
  case (Cons x ts)
  obtain k t where x: "x = (k, t)"
    by fastforce
  show ?case
  proof (cases "validateRequestedVTXO lib t r amount op")
    case (Inl e)
    then show ?thesis
      using Cons(1) [of "Inl e"] Cons(2) x by (auto split: if_splits)
  next
    case (Inr ct')
    then show ?thesis
      using Cons(2) x by simp
  qed
qed simp

lemma validateRequestedVTXO_Inr:
  assumes "validateRequestedVTXO lib vt r amount op = Inr ct"
  obtains t key operator script m where "vt = Some t" "vr_signingKey r = Some key" "op = Some operator"
    "Request_EffectivePkScript (tl_ark lib) r = Inr script"
    "client_path lib key \<lparr>lf_pkScript = script, lf_amount = amount, lf_coSignerKey = Some key\<rparr> operator t m"
    "ct = t\<lparr>tr_root := Some m\<rparr>"
proof -
  obtain script where script: "Request_EffectivePkScript (tl_ark lib) r = Inr script"
    and v: "ValidatePath lib (vr_signingKey r)
      \<lparr>lf_pkScript = script, lf_amount = amount, lf_coSignerKey = vr_signingKey r\<rparr> op vt = Inr ct"
    using assms by (auto simp: validateRequestedVTXO_def wrapR_def split: sum.splits if_splits)
  obtain t where t: "vt = Some t"
    using v by (cases vt) (simp_all add: ValidatePath_def)
  obtain key where key: "vr_signingKey r = Some key"
    using v t by (cases "vr_signingKey r") (simp_all add: ValidatePath_def VerifyVTXOPath_def)
  obtain operator where op: "op = Some operator"
    using v t key by (cases op)
      (auto simp: ValidatePath_def split: option.splits sum.splits list.splits if_splits)
  show ?thesis
    using that [OF t key op script] v unfolding t key op ValidatePath_Inr_iff by blast
qed

lemma extract_outputs:
  "ExtractPathForCoSigners ks n = Some m \<Longrightarrow> m' \<in> set (NodesIter m) \<Longrightarrow> \<exists>n' \<in> set (NodesIter n). tn_outputs m' = tn_outputs n'"
proof (induction n arbitrary: m m' rule: tree_induct)
  case (Node inp outs cos chs amt sg fk)
  note ex = extract_SomeE [OF Node(2)]
  have same: "tn_outputs m = outs"
    and kids: "tn_children m = some_children (map (\<lambda>(i, c). (i, ExtractPathForCoSigners ks c)) chs)"
    by (rule ex; simp)+
  show ?case
    using Node(3) Node(1) unfolding set_NodesIter [of m] set_NodesIter [of "TreeNode inp outs cos chs amt sg fk"]
    by (auto simp: same kids) blast+
qed

lemma check_anchor_None: "check_anchor n = None \<Longrightarrow> tn_outputs n \<noteq> [] \<and> last (tn_outputs n) = Some AnchorOutput"
  by (auto simp: check_anchor_def AnchorOutput_def split: if_splits option.splits intro!: txOut.equality)

text \<open>
  What a client is owed by a tree: the path of its request spends an output of the commitment
  transaction, each transaction of the path is funded in full by the one before it
  and has an anchor, the client co-signs all of them, and the last one pays the
  requested script the amount of the accepted quote. The trees' timeout
  branch is the advertised key and delay.
\<close>

definition treeCosigner :: "roundEnv \<Rightarrow> commitmentReceived \<Rightarrow> pubKey option" where
  "treeCosigner env s = (case cr_treeCosignKey s of None \<Rightarrow> ot_pubKey (re_terms env) | Some k \<Rightarrow> Some k)"

definition pays_request :: "roundEnv \<Rightarrow> commitmentReceived \<Rightarrow> nat \<Rightarrow> txTree \<Rightarrow> bool" where
  "pays_request env s i ct \<longleftrightarrow>
     (let r = it_vtxos (cr_intents s) ! i; tx = pk_unsignedTx (cr_commitmentTx s); lib = re_lib env in
      \<exists>key operator script amount root leaf tweak k.
        vr_signingKey r = Some key \<and> treeCosigner env s = Some operator \<and>
        Request_EffectivePkScript (tl_ark lib) r = Inr script \<and> quoteVTXOAmount (cr_quote s) i r = Inr amount \<and>
        tr_root ct = Some root \<and> sweepTapData lib (cr_sweepKey s) (cr_sweepDelay s) = Inr (leaf, tweak) \<and>
        k < length (wt_outs tx) \<and>
        funded_path lib tweak \<lparr>op_hash = tl_txHash lib tx, op_index = of_nat k\<rparr> (wt_outs tx ! k) (NodesIter root) \<and>
        (\<forall>node \<in> set (NodesIter root). key \<in> set (tn_coSigners node) \<and> last (tn_outputs node) = Some AnchorOutput) \<and>
        operator \<in> set (tn_coSigners (last (NodesIter root))) \<and>
        tn_outputs (last (NodesIter root)) = [Some \<lparr>out_value = amount, out_pkScript = script\<rparr>, Some AnchorOutput])"

lemma validated_pays:
  assumes "validateVTXOTreeBinding (re_lib env) (pk_unsignedTx (cr_commitmentTx s)) (cr_vtxoTreePaths s) = None"
    and "validateRoundSweepPolicy (re_lib env) (cr_sweepKey s) (cr_sweepDelay s) (cr_vtxoTreePaths s) = None"
    and "\<forall>(k, t) \<in> set (cr_vtxoTreePaths s). ValidateAnchors t = None"
    and "(k, vt) \<in> set (cr_vtxoTreePaths s)" and "quoteVTXOAmount (cr_quote s) i (it_vtxos (cr_intents s) ! i) = Inr amount"
    and "validateRequestedVTXO (re_lib env) vt (it_vtxos (cr_intents s) ! i) amount (treeCosigner env s) = Inr ct"
    and "tr_root ct' = tr_root ct"
  shows "pays_request env s i ct'"
proof -
  let ?lib = "re_lib env" and ?tx = "pk_unsignedTx (cr_commitmentTx s)" and ?r = "it_vtxos (cr_intents s) ! i"
  obtain t key operator script m where t: "vt = Some t" and key: "vr_signingKey ?r = Some key"
    and operator: "treeCosigner env s = Some operator" and script: "Request_EffectivePkScript (tl_ark ?lib) ?r = Inr script"
    and path: "client_path ?lib key \<lparr>lf_pkScript = script, lf_amount = amount, lf_coSignerKey = Some key\<rparr> operator t m"
    and ct: "ct = t\<lparr>tr_root := Some m\<rparr>"
    using validateRequestedVTXO_Inr [OF assms(6)] .
  have "verifyVTXOTreeRoot ?lib ?tx (tl_txHash ?lib ?tx) k vt = None"
    using assms(1,4) by (auto simp: validateVTXOTreeBinding_def)
  then obtain root out where root: "tr_root t = Some root" and out: "tr_batchOutput t = Some out"
    and hash: "op_hash (tr_batchOutpoint t) = tl_txHash ?lib ?tx"
    and idx: "unat (op_index (tr_batchOutpoint t)) < length (wt_outs ?tx)" "wt_outs ?tx ! unat (op_index (tr_batchOutpoint t)) = out"
    and rootScript: "childScript ?lib (tr_sweepTapscriptRoot t) root = Inr (out_pkScript out)"
    using t by (auto elim: verifyVTXOTreeRoot_None)
  have m: "ExtractPathForCoSigners [key] root = Some m"
    using path root by (auto simp: client_path_def)
  have "childScript ?lib (tr_sweepTapscriptRoot t) m = Inr (out_pkScript out)"
    by (rule extract_SomeE [OF m]) (metis childScript_cong rootScript)
  note funded = client_path_funded [OF path out this]
  have "tr_batchOutpoint t = \<lparr>op_hash = tl_txHash ?lib ?tx, op_index = of_nat (unat (op_index (tr_batchOutpoint t)))\<rparr>"
    using hash by (simp add: outPoint.equality)
  then have funded_tx: "funded_path ?lib (tr_sweepTapscriptRoot t)
      \<lparr>op_hash = tl_txHash ?lib ?tx, op_index = of_nat (unat (op_index (tr_batchOutpoint t)))\<rparr>
      (wt_outs ?tx ! unat (op_index (tr_batchOutpoint t))) (NodesIter m)"
    using funded idx(2) by metis
  have "\<forall>n \<in> set (NodesIter root). check_anchor n = None"
    using assms(3,4) t root by (auto simp: ValidateAnchors_def ForEach_None)
  then have anchors: "\<forall>node \<in> set (NodesIter m). last (tn_outputs node) = Some AnchorOutput"
    using extract_outputs [OF m] check_anchor_None by fastforce
  obtain anchor where leafOuts: "tn_outputs (last (NodesIter m)) = [Some \<lparr>out_value = amount, out_pkScript = script\<rparr>, Some anchor]"
    using funded by auto
  moreover have "last (tn_outputs (last (NodesIter m))) = Some AnchorOutput"
    using anchors by simp
  ultimately have outs: "tn_outputs (last (NodesIter m)) = [Some \<lparr>out_value = amount, out_pkScript = script\<rparr>, Some AnchorOutput]"
    by simp
  have nodes: "\<forall>node \<in> set (NodesIter m). key \<in> set (tn_coSigners node) \<and> last (tn_outputs node) = Some AnchorOutput"
    and leafOp: "operator \<in> set (tn_coSigners (last (NodesIter m)))"
    using funded anchors by auto
  obtain leaf where sweep: "sweepTapData ?lib (cr_sweepKey s) (cr_sweepDelay s) = Inr (leaf, tr_sweepTapscriptRoot t)"
    using sweep_policy_None [OF assms(2)] assms(4) t by blast
  have ctRoot: "tr_root ct' = Some m"
    using assms(7) ct by simp
  show ?thesis
    unfolding pays_request_def Let_def
    by (intro exI conjI, rule key, rule operator, rule script, rule assms(5), rule ctRoot, rule sweep, rule idx(1),
        rule funded_tx, rule nodes, rule leafOp, rule outs)
qed

section \<open>All checks\<close>

text \<open>The tree that the search found for a request.\<close>

definition found_for :: "treeLib \<Rightarrow> commitmentReceived \<Rightarrow> pubKey option \<Rightarrow> nat \<Rightarrow> vtxoRequest \<Rightarrow> txTree \<Rightarrow> bool" where
  "found_for lib s op i r ct \<longleftrightarrow>
     (\<exists>amount k t ct0. quoteVTXOAmount (cr_quote s) i r = Inr amount \<and> (k, t) \<in> set (cr_vtxoTreePaths s) \<and>
        validateRequestedVTXO lib t r amount op = Inr ct0 \<and>
        ct = ct0\<lparr>tr_sweepKey := cr_sweepKey s, tr_sweepDelay := cr_sweepDelay s\<rparr>)"

lemma client_trees_step:
  assumes "client_trees lib s op i (r # rs) trees = Inr trees'"
  obtains key ct where "vr_signingKey r = Some key" "found_for lib s op i r ct"
    "client_trees lib s op (Suc i) rs (put (NewSignerKey (tl_ark lib) key) ct trees) = Inr trees'"
proof -
  obtain amount ct0 key where "quoteVTXOAmount (cr_quote s) i r = Inr amount"
    and found: "find_tree lib r amount op (cr_vtxoTreePaths s) (Inr None) = Inr (Some ct0)" and key: "vr_signingKey r = Some key"
    and rest: "client_trees lib s op (Suc i) rs (put (NewSignerKey (tl_ark lib) key)
      (ct0\<lparr>tr_sweepKey := cr_sweepKey s, tr_sweepDelay := cr_sweepDelay s\<rparr>) trees) = Inr trees'"
    using assms by (auto simp: refuseR_def wrapR_def split: sum.splits option.splits)
  moreover from this obtain k t where "(k, t) \<in> set (cr_vtxoTreePaths s)" "validateRequestedVTXO lib t r amount op = Inr ct0"
    using find_tree_Inr [OF found] by auto
  ultimately show ?thesis
    using that [OF key _ rest] by (auto simp: found_for_def)
qed

lemma client_trees_Inr:
  "client_trees lib s op i rs trees = Inr trees' \<Longrightarrow>
     (\<forall>j < length rs. \<exists>key ct. vr_signingKey (rs ! j) = Some key \<and> NewSignerKey (tl_ark lib) key \<in> fst ` set trees' \<and>
        found_for lib s op (i + j) (rs ! j) ct) \<and>
     fst ` set trees \<subseteq> fst ` set trees' \<and>
     (\<forall>(k, ct) \<in> set trees'. (k, ct) \<in> set trees \<or> (\<exists>j < length rs. \<exists>key. vr_signingKey (rs ! j) = Some key \<and>
        k = NewSignerKey (tl_ark lib) key \<and> found_for lib s op (i + j) (rs ! j) ct))"
proof (induction rs arbitrary: i trees)
  case (Cons r rs)
  obtain key ct where key: "vr_signingKey r = Some key" and ct: "found_for lib s op i r ct"
    and rest: "client_trees lib s op (Suc i) rs (put (NewSignerKey (tl_ark lib) key) ct trees) = Inr trees'"
    using client_trees_step [OF Cons(2)] .
  note ih = Cons(1) [OF rest]
  have "\<exists>key ct. vr_signingKey ((r # rs) ! j) = Some key \<and> NewSignerKey (tl_ark lib) key \<in> fst ` set trees' \<and>
        found_for lib s op (i + j) ((r # rs) ! j) ct" if "j < length (r # rs)" for j
    using that ih key ct by (cases j) auto
  moreover have "(k, c) \<in> set trees \<or> (\<exists>j < length (r # rs). \<exists>key. vr_signingKey ((r # rs) ! j) = Some key \<and>
        k = NewSignerKey (tl_ark lib) key \<and> found_for lib s op (i + j) ((r # rs) ! j) c)" if kc: "(k, c) \<in> set trees'" for k c
  proof -
    consider "(k, c) \<in> set (put (NewSignerKey (tl_ark lib) key) ct trees)" |
      j key where "j < length rs" "vr_signingKey (rs ! j) = Some key" "k = NewSignerKey (tl_ark lib) key"
        "found_for lib s op (Suc i + j) (rs ! j) c"
      using ih kc by blast
    then show ?thesis
    proof cases
      case 1
      then show ?thesis
        using put_mem [OF 1] key ct by (auto intro: exI [of _ 0])
    next
      case 2
      then show ?thesis
        by (intro disjI2 exI [of _ "Suc j"]) auto
    qed
  qed
  ultimately show ?case
    using ih by auto
qed simp

text \<open>
  C36: What a client can rely on once it has accepted a commitment transaction: it spends each
  of the client's boarding inputs, at the recorded index; it has an output for every leave
  request, with the quoted amount, even when several are alike; every VTXO request is paid by
  a funded path from an output of the transaction to a leaf with the quoted
  amount; the trees the client goes on to sign are such paths; and the operator's timeout
  is later than the exit delay.
\<close>

theorem accepted_commitment_pays:
  assumes "commitment_checks env s mappings = Inr (indices, trees)"
  shows "let tx = pk_unsignedTx (cr_commitmentTx s); i = cr_intents s; lib = re_lib env in
     (\<forall>b \<in> set (it_boarding i). \<exists>j < length (wt_ins tx). map_of indices (br_outpoint (bi_request b)) = Some j \<and>
        in_prevout (wt_ins tx ! j) = br_outpoint (bi_request b)) \<and>
     mset (owed_leaves (cr_quote s) (it_leaves i)) \<subseteq># mset (map (\<lambda>o'. (out_value o', out_pkScript o')) (wt_outs tx)) \<and>
     (\<forall>n < length (it_vtxos i). \<exists>key ct. vr_signingKey (it_vtxos i ! n) = Some key \<and>
        NewSignerKey (tl_ark lib) key \<in> fst ` set trees \<and> pays_request env s n ct) \<and>
     (\<forall>(k, ct) \<in> set trees. \<exists>n < length (it_vtxos i). \<exists>key. vr_signingKey (it_vtxos i ! n) = Some key \<and>
        k = NewSignerKey (tl_ark lib) key \<and> pays_request env s n ct) \<and>
     ot_vtxoExitDelay (re_terms env) < cr_sweepDelay s"
proof -
  let ?tx = "pk_unsignedTx (cr_commitmentTx s)" and ?i = "cr_intents s" and ?lib = "re_lib env"
  have boarding: "it_boarding ?i \<noteq> [] \<longrightarrow> validateBoardingInputs ?tx (it_boarding ?i) = Inr indices"
    and leaves: "it_leaves ?i \<noteq> [] \<longrightarrow> (\<exists>as. quoteLeaveAmounts (cr_quote s) (it_leaves ?i) = Inr as \<and>
      validateLeaveOutputs ?tx (it_leaves ?i) as = None)"
    and binding: "validateVTXOTreeBinding ?lib ?tx (cr_vtxoTreePaths s) = None"
    and sweep: "validateRoundSweepPolicy ?lib (cr_sweepKey s) (cr_sweepDelay s) (cr_vtxoTreePaths s) = None"
    and trees: "client_trees ?lib s (treeCosigner env s) 0 (it_vtxos ?i) [] = Inr trees"
    and anchors: "\<forall>(k, t) \<in> set (cr_vtxoTreePaths s). ValidateAnchors t = None"
    and delay: "ValidateDelayParameters (cr_sweepDelay s) (ot_vtxoExitDelay (re_terms env)) = None"
    using assms
    by (auto simp: commitment_checks_def Let_def toR_def refuse_def refuseR_def wrapR_def treeCosigner_def
        split: option.splits sum.splits if_splits)
  have pays: "pays_request env s n ct" if "found_for ?lib s (treeCosigner env s) n (it_vtxos ?i ! n) ct" for n ct
    using that validated_pays [OF binding sweep anchors] by (auto simp: found_for_def)
  have "\<forall>b \<in> set (it_boarding ?i). \<exists>j < length (wt_ins ?tx). map_of indices (br_outpoint (bi_request b)) = Some j \<and>
        in_prevout (wt_ins ?tx ! j) = br_outpoint (bi_request b)"
    using boarding by (metis empty_iff list.set(1) validateBoardingInputs_Inr)
  moreover have "mset (owed_leaves (cr_quote s) (it_leaves ?i)) \<subseteq># mset (map (\<lambda>o'. (out_value o', out_pkScript o')) (wt_outs ?tx))"
  proof (cases "it_leaves ?i = []")
    case True
    then show ?thesis
      by (simp add: owed_leaves_def split: option.split)
  next
    case False
    then show ?thesis
      using leaves leaves_paid by blast
  qed
  moreover have "ot_vtxoExitDelay (re_terms env) < cr_sweepDelay s"
    using delay by (auto simp: ValidateDelayParameters_def split: if_splits)
  ultimately show ?thesis
    using client_trees_Inr [OF trees] pays unfolding Let_def by fastforce
qed

section \<open>Connectors\<close>

text \<open>
  A list of nodes that spends its way down from an output: each transaction spends an
  output of the one before it.
\<close>

fun spend_chain :: "treeLib \<Rightarrow> outPoint \<Rightarrow> treeNode list \<Rightarrow> bool" where
  "spend_chain lib op [] \<longleftrightarrow> True"
| "spend_chain lib op (n # ns) \<longleftrightarrow> tn_input n = op \<and>
     (\<exists>tx. ToTx n = Inr tx \<and> (\<exists>i < length (wt_outs tx). spend_chain lib \<lparr>op_hash = tl_txHash lib tx, op_index = of_nat i\<rparr> ns))"

lemma leaves_below:
  "set (GetLeafNodes n) = (if tn_children n = [] then {n} else \<Union>(i, c) \<in> set (tn_children n). set (GetLeafNodes c))"
  by (cases n) (auto simp: in_order_def split_beta)

lemma leaf_chain:
  "validateNodeValueConservation lib n op v = None \<Longrightarrow> leaf \<in> set (GetLeafNodes n) \<Longrightarrow>
     \<exists>ns. spend_chain lib op (n # ns) \<and> last (n # ns) = leaf"
proof (induction n arbitrary: op v rule: tree_induct)
  case (Node inp outs cos chs amt sg fk)
  let ?n = "TreeNode inp outs cos chs amt sg fk"
  obtain txid tx where inp: "inp = op" and outs: "outs \<noteq> []" and txid: "txid = tl_txHash lib tx" and tx: "ToTx ?n = Inr tx"
    and kids: "\<And>i c. (i, c) \<in> set chs \<Longrightarrow> unat i < length outs \<and>
        (\<exists>output. outs ! unat i = Some output \<and>
           validateNodeValueConservation lib c \<lparr>op_hash = txid, op_index = i\<rparr> (out_value output) = None)"
    using Node(2) unfolding value_conserved_iff [of lib ?n] by (auto simp: TXID_ok)
  have len: "length (wt_outs tx) = length outs"
    using ToTx_ok [OF tx] by simp
  show ?case
  proof (cases "chs = []")
    case True
    then have "leaf = ?n"
      using Node(3) unfolding leaves_below [of ?n] by simp
    then show ?thesis
      using inp tx len outs by (intro exI [of _ "[]"]) auto
  next
    case False
    then obtain i c where c: "(i, c) \<in> set chs" "leaf \<in> set (GetLeafNodes c)"
      using Node(3) unfolding leaves_below [of ?n] by auto
    obtain o1 :: txOut where o: "unat i < length outs"
      "validateNodeValueConservation lib c \<lparr>op_hash = txid, op_index = i\<rparr> (out_value o1) = None"
      using kids [OF c(1)] by blast
    obtain ns where ns: "spend_chain lib \<lparr>op_hash = txid, op_index = i\<rparr> (c # ns)" "last (c # ns) = leaf"
      using Node(1) [OF c(1) o(2) c(2)] by blast
    have "spend_chain lib \<lparr>op_hash = tl_txHash lib tx, op_index = of_nat (unat i)\<rparr> (c # ns)"
      using ns(1) txid by (simp del: spend_chain.simps)
    then have "spend_chain lib op (?n # c # ns)"
      using inp tx o(1) len unfolding spend_chain.simps(2) [of lib op ?n] by auto
    then show ?thesis
      using ns(2) by (intro exI [of _ "c # ns"]) (simp del: spend_chain.simps)
  qed
qed

lemma check_connector_scalars_None:
  assumes "check_connector_scalars tx info = None"
  shows "unat (ci_rootOutputIndex info) < length (wt_outs tx)" and "0 < unat (ci_numLeaves info)"
    and "unat (ci_numLeaves info) \<le> 2 ^ 16" and "2 \<le> uint (ci_radix info)" and "uint (ci_radix info) \<le> 2 ^ 10"
    and "0 \<le> ci_leafIndex info" and "nat (ci_leafIndex info) < unat (ci_numLeaves info)" and "0 < sint (ci_connectorAmount info)"
proof -
  have "ci_rootOutputIndex info < of_nat (length (wt_outs tx))"
    using assms by (auto simp: check_connector_scalars_def split: if_splits)
  then have "unat (ci_rootOutputIndex info) < unat (of_nat (length (wt_outs tx)) :: u32)"
    by (simp add: word_less_nat_alt)
  also have "\<dots> \<le> length (wt_outs tx)"
    by (simp add: unat_of_nat)
  finally show "unat (ci_rootOutputIndex info) < length (wt_outs tx)" .
  have leaves: "ci_numLeaves info \<noteq> 0" "\<not> ci_numLeaves info > 65536"
    and radix: "\<not> ci_radix info < 2" "\<not> ci_radix info > 1024"
    and idx: "0 \<le> ci_leafIndex info" "ci_leafIndex info < uint (ci_numLeaves info)"
    using assms
    by (auto simp: check_connector_scalars_def maxConnectorTreeLeaves_def maxConnectorTreeRadix_def split: if_splits)
  show "0 < unat (ci_numLeaves info)" "unat (ci_numLeaves info) \<le> 2 ^ 16"
    using leaves by (auto simp: unat_gt_0 word_less_nat_alt)
  show "2 \<le> uint (ci_radix info)" "uint (ci_radix info) \<le> 2 ^ 10"
    using radix by (auto simp: word_less_alt)
  show "0 \<le> ci_leafIndex info" "nat (ci_leafIndex info) < unat (ci_numLeaves info)"
    using idx by (auto simp: nat_less_iff)
  show "0 < sint (ci_connectorAmount info)"
    using assms by (auto simp: check_connector_scalars_def split: if_splits)
qed

lemma AssembleTree_returns:
  assumes "2 \<le> tc_radix cfg" and "tc_weightFn cfg = None" and "\<forall>l \<in> set leaves. 0 < sint (lf_amount l)" and "length leaves \<le> fuel"
  shows "AssembleTree lib fuel cfg rootInput rootOutput leaves \<noteq> None"
proof (cases "leaves = []")
  case False
  have "weightless WeightByBtcAmount leaves = []"
    using assms(3) by (auto simp: weightless_def WeightByBtcAmount_def filter_empty_conv)
  then have "splits_by (Some WeightByBtcAmount) leaves"
    by (simp add: splits_by_def)
  then have "buildStructureRecursive lib op (nat (tc_radix cfg)) (Some WeightByBtcAmount) fuel leaves \<noteq> None" for op
    using build_returns [of "nat (tc_radix cfg)" "Some WeightByBtcAmount" leaves fuel lib op] assms(1,4) False by auto
  then show ?thesis
    using assms(1,2) False by (auto simp: AssembleTree_def BuildStructure_def Let_def DefaultRadix_def split: option.splits)
qed (simp add: AssembleTree_def)

text \<open>The client's rebuilding of a connector tree always ends: the scalars it runs on were checked.\<close>

lemma connector_tree_returns:
  assumes "check_connector_scalars tx info = None"
  shows "connector_tree lib tx txid key info \<noteq> None"
proof -
  note c = check_connector_scalars_None [OF assms]
  have "length (ToLeafDescriptors k \<lparr>cd_pkScript = b, cd_numLeaves = uint (ci_numLeaves info), cd_amount = ci_connectorAmount info\<rparr>)
      \<le> unat (ci_numLeaves info)" for k b
    by (simp add: ToLeafDescriptors_def)
  then show ?thesis
    using c(4,8) AssembleTree_returns
    by (auto simp: connector_tree_def BuildConnectorTree_def Let_def ToLeafDescriptors_def split: option.splits)
qed

lemma leaf_output_Inr:
  "leaf_output what outs found = Inr r \<Longrightarrow> None \<notin> set outs \<and>
     r = (case found of
            Some x \<Rightarrow> Some x
          | None \<Rightarrow> (case filter (\<lambda>o'. out_pkScript o' \<noteq> AnchorPkScript) (map the outs) of [] \<Rightarrow> None | o1 # _ \<Rightarrow> Some o1)) \<and>
     (found \<noteq> None \<longrightarrow> filter (\<lambda>o'. out_pkScript o' \<noteq> AnchorPkScript) (map the outs) = []) \<and>
     length (filter (\<lambda>o'. out_pkScript o' \<noteq> AnchorPkScript) (map the outs)) \<le> 1"
  by (induction what outs found rule: leaf_output.induct) (auto simp: filter_map split: if_splits option.splits)

lemma connectorLeafOutput_Inr:
  assumes "connectorLeafOutput leaf = Inr out"
  shows "filter (\<lambda>o'. out_pkScript o' \<noteq> AnchorPkScript) (map the (tn_outputs leaf)) = [out]"
proof -
  let ?f = "filter (\<lambda>o'. out_pkScript o' \<noteq> AnchorPkScript) (map the (tn_outputs leaf))"
  have "leaf_output ''connector leaf has multiple non-anchor outputs'' (tn_outputs leaf) None = Inr (Some out)"
    using assms by (auto simp: connectorLeafOutput_def split: option.splits)
  then have "Some out = (case ?f of [] \<Rightarrow> None | o1 # _ \<Rightarrow> Some o1)" "length ?f \<le> 1"
    using leaf_output_Inr by force+
  then show ?thesis
    by (cases ?f) auto
qed

lemma GetNonAnchorOutpoint_Inr:
  assumes "GetNonAnchorOutpoint lib leaf = Inr op"
  obtains tx j where "ToTx leaf = Inr tx" "j < length (wt_outs tx)"
    "op = \<lparr>op_hash = tl_txHash lib tx, op_index = of_nat j\<rparr>" "out_pkScript (wt_outs tx ! j) \<noteq> AnchorPkScript"
proof -
  obtain tx i x where tx: "ToTx leaf = Inr tx"
    and find: "find (\<lambda>(i, o'). out_pkScript o' \<noteq> AnchorPkScript) (enumerate 0 (wt_outs tx)) = Some (i, x)"
    and op: "op = \<lparr>op_hash = tl_txHash lib tx, op_index = of_nat i\<rparr>"
    using assms by (auto simp: GetNonAnchorOutpoint_def split: if_splits option.splits)
  have "(i, x) \<in> set (enumerate 0 (wt_outs tx))" "out_pkScript x \<noteq> AnchorPkScript"
    using find by (auto simp: find_Some_iff) (metis length_enumerate nth_mem)
  then show ?thesis
    using that [OF tx _ op] by (auto simp: in_set_enumerate_eq)
qed

lemma check_connector_leaf_None:
  assumes "check_connector_leaf lib info leaf = None"
  shows "\<exists>tx j. ToTx leaf = Inr tx \<and> j < length (wt_outs tx) \<and>
     ci_connectorOutpoint info = \<lparr>op_hash = tl_txHash lib tx, op_index = of_nat j\<rparr> \<and>
     wt_outs tx ! j = \<lparr>out_value = ci_connectorAmount info, out_pkScript = ci_connectorPkScript info\<rparr>"
proof -
  obtain out where out: "connectorLeafOutput leaf = Inr out" "out_value out = ci_connectorAmount info"
    "out_pkScript out = ci_connectorPkScript info" and op: "GetNonAnchorOutpoint lib leaf = Inr (ci_connectorOutpoint info)"
    using assms by (auto simp: check_connector_leaf_def split: sum.splits if_splits)
  obtain tx j where j: "ToTx leaf = Inr tx" "j < length (wt_outs tx)"
    "ci_connectorOutpoint info = \<lparr>op_hash = tl_txHash lib tx, op_index = of_nat j\<rparr>" "out_pkScript (wt_outs tx ! j) \<noteq> AnchorPkScript"
    using GetNonAnchorOutpoint_Inr [OF op] .
  have "wt_outs tx ! j \<in> set (filter (\<lambda>o'. out_pkScript o' \<noteq> AnchorPkScript) (wt_outs tx))"
    using j(2,4) by simp
  then have "wt_outs tx ! j = out"
    using connectorLeafOutput_Inr [OF out(1)] ToTx_ok [OF j(1)] by simp
  then show ?thesis
    using j out(2,3) by (metis (full_types) txOut.surjective old.unit.exhaust)
qed

lemma no_divergence:
  "treeFailed e \<noteq> Diverges" "check_connector_scalars tx info \<noteq> Some Diverges" "check_connector_leaf lib info leaf \<noteq> Some Diverges"
proof -
  have "leaf_output what outs found \<noteq> Inl Diverges" for what outs found
    by (induction what outs found rule: leaf_output.induct) auto
  then have "connectorLeafOutput l \<noteq> Inl Diverges" for l
    by (auto simp: connectorLeafOutput_def bindR_eq_Inl split: option.splits)
  moreover show fail: "treeFailed e \<noteq> Diverges" for e
    by (simp add: treeFailed_def)
  ultimately show "check_connector_leaf lib info leaf \<noteq> Some Diverges"
    by (auto simp: check_connector_leaf_def split: sum.splits)
  show "check_connector_scalars tx info \<noteq> Some Diverges"
    by (auto simp: check_connector_scalars_def)
qed

lemma verifyConnectorLeaf_None:
  assumes "verifyConnectorLeaf lib tx txid key info = None"
  obtains root leaf v where "unat (ci_rootOutputIndex info) < length (wt_outs tx)"
    "validateNodeValueConservation lib root \<lparr>op_hash = txid, op_index = ci_rootOutputIndex info\<rparr> v = None"
    "leaf \<in> set (GetLeafNodes root)" "check_connector_leaf lib info leaf = None"
proof -
  have scalars: "check_connector_scalars tx info = None"
    using assms by (simp add: verifyConnectorLeaf_def)
  obtain t root where t: "connector_tree lib tx txid key info = Some (Inr t)" "tr_root t = Some root"
    and v: "Verify lib (Some t) = None" and len: "length (GetLeafNodes root) = unat (ci_numLeaves info)"
    and leaf: "check_connector_leaf lib info (GetLeafNodes root ! nat (ci_leafIndex info)) = None"
    using assms by (auto simp: verifyConnectorLeaf_def Let_def split: option.splits sum.splits if_splits)
  obtain cfg out leaves where "AssembleTree lib (unat (ci_numLeaves info)) cfg \<lparr>op_hash = txid, op_index = ci_rootOutputIndex info\<rparr>
      (Some out) leaves = Some (Inr t)"
    using t(1) by (auto simp: connector_tree_def BuildConnectorTree_def Let_def split: option.splits if_splits)
  then have "tr_batchOutpoint t = \<lparr>op_hash = txid, op_index = ci_rootOutputIndex info\<rparr>"
    by (rule AssembleTree_Inr) simp
  then show ?thesis
    using that [OF check_connector_scalars_None(1) [OF scalars] _ _ leaf] v t(2) len check_connector_scalars_None(7) [OF scalars]
    by (auto simp: Verify_None_iff)
qed

text \<open>
  C38: The client's check of the connectors always returns, whatever numbers the operator sends, and
  a connector it accepts descends from the round's commitment transaction: a chain of
  transactions, each spending an output of the one before, leads from an
  output of the commitment transaction to the transaction whose output
  the forfeit will spend, and that output has the assigned amount and script. So no forfeit
  can be claimed unless the commitment transaction confirms.
\<close>

theorem connector_descends:
  "verifyConnectorLeaf lib tx txid key info \<noteq> Some Diverges \<and>
   (validateConnectorAncestry lib tx operatorKey mappings = None \<and> (op, mapping) \<in> set mappings \<longrightarrow>
     (\<exists>c ns ltx j. mapping = Some c \<and> unat (ci_rootOutputIndex c) < length (wt_outs tx) \<and> ns \<noteq> [] \<and>
        spend_chain lib \<lparr>op_hash = tl_txHash lib tx, op_index = ci_rootOutputIndex c\<rparr> ns \<and>
        ToTx (last ns) = Inr ltx \<and> j < length (wt_outs ltx) \<and>
        ci_connectorOutpoint c = \<lparr>op_hash = tl_txHash lib ltx, op_index = of_nat j\<rparr> \<and>
        wt_outs ltx ! j = \<lparr>out_value = ci_connectorAmount c, out_pkScript = ci_connectorPkScript c\<rparr>))"
proof (intro conjI impI)
  show "verifyConnectorLeaf lib tx txid key info \<noteq> Some Diverges"
    using connector_tree_returns [of tx info lib txid key] no_divergence
    by (cases "check_connector_scalars tx info") (auto simp: verifyConnectorLeaf_def thenErr_def Let_def split: option.splits sum.splits)
next
  assume a: "validateConnectorAncestry lib tx operatorKey mappings = None \<and> (op, mapping) \<in> set mappings"
  then obtain k c where c: "mapping = Some c" "verifyConnectorLeaf lib tx (tl_txHash lib tx) k c = None"
    by (auto simp: validateConnectorAncestry_def split: if_splits option.splits dest!: bspec)
  obtain root leaf v where idx: "unat (ci_rootOutputIndex c) < length (wt_outs tx)"
    and v: "validateNodeValueConservation lib root \<lparr>op_hash = tl_txHash lib tx, op_index = ci_rootOutputIndex c\<rparr> v = None"
    and leaf: "leaf \<in> set (GetLeafNodes root)" "check_connector_leaf lib c leaf = None"
    using verifyConnectorLeaf_None [OF c(2)] .
  obtain ns where "spend_chain lib \<lparr>op_hash = tl_txHash lib tx, op_index = ci_rootOutputIndex c\<rparr> (root # ns)" "last (root # ns) = leaf"
    using leaf_chain [OF v leaf(1)] by blast
  then show "\<exists>c ns ltx j. mapping = Some c \<and> unat (ci_rootOutputIndex c) < length (wt_outs tx) \<and> ns \<noteq> [] \<and>
        spend_chain lib \<lparr>op_hash = tl_txHash lib tx, op_index = ci_rootOutputIndex c\<rparr> ns \<and>
        ToTx (last ns) = Inr ltx \<and> j < length (wt_outs ltx) \<and>
        ci_connectorOutpoint c = \<lparr>op_hash = tl_txHash lib ltx, op_index = of_nat j\<rparr> \<and>
        wt_outs ltx ! j = \<lparr>out_value = ci_connectorAmount c, out_pkScript = ci_connectorPkScript c\<rparr>"
    using check_connector_leaf_None [OF leaf(2)] c(1) idx by (metis list.distinct(1))
qed

section \<open>The operator's own batch\<close>

text \<open>\<open>musig2.AggregateKeys\<close> is called with sorting, so it does not depend on the order of the keys.\<close>

definition order_free :: "treeLib \<Rightarrow> bool" where
  "order_free lib \<longleftrightarrow> (\<forall>ks ks' root. mset ks = mset ks' \<longrightarrow> tl_aggregate lib ks root = tl_aggregate lib ks' root)"

lemma root_cosigners:
  assumes "distinct (map (\<lambda>v. al_xOnly (tl_ark lib) (owner_key v)) vtxos)" and "operator_apart lib op vtxos" and "vtxos \<noteq> []"
    and "struct_ok lib op r s" and "mset (struct_leaves s) = mset (map (vtxo_struct lib op) vtxos)"
  shows "mset (st_coSigners s) = mset (UniqueCosigners lib (op # map owner_key vtxos)) \<and> 2 \<le> length (st_coSigners s)"
proof -
  let ?U = "insert op (owner_key ` set vtxos)"
  note inj = keys_injective [OF assms(1,2)]
  have leaves: "set (struct_leaves s) = vtxo_struct lib op ` set vtxos"
    using arg_cong [OF assms(5), of set_mset] by simp
  have "set (st_coSigners s) = (\<Union>l \<in> set (struct_leaves s). set (st_coSigners l))"
    using struct_cosigners [OF inj assms(4) _ vtxo_cosigners_within [OF assms(5,1,2)]] by simp
  also have "\<dots> = ?U"
    using assms(3) vtxo_cosigners [OF assms(1,2)] by (auto simp: leaves)
  finally have set: "set (st_coSigners s) = ?U" .
  have "\<exists>ks. st_coSigners s = UniqueCosigners lib ks"
    using assms(4) by (cases s) (auto simp: leaf_struct_def branch_structure_def split: if_splits)
  then have dist: "distinct (st_coSigners s)"
    using distinct_UniqueCosigners by auto
  have "set (UniqueCosigners lib (op # map owner_key vtxos)) = ?U"
    using set_UniqueCosigners [of lib "op # map owner_key vtxos"] inj by simp
  then have "mset (st_coSigners s) = mset (UniqueCosigners lib (op # map owner_key vtxos))"
    using set dist distinct_UniqueCosigners by (metis set_eq_iff_mset_eq_distinct)
  moreover obtain v where v: "v \<in> set vtxos"
    using assms(3) by (cases vtxos) auto
  then have "op \<noteq> owner_key v"
    using assms(2) by (auto simp: operator_apart_def)
  then have "card {op, owner_key v} \<le> card (set (st_coSigners s))"
    using v by (intro card_mono) (auto simp: set)
  then have "2 \<le> length (st_coSigners s)"
    using \<open>op \<noteq> owner_key v\<close> distinct_card [OF dist] by simp
  ultimately show ?thesis
    by simp
qed

lemma ComputeFinalKey_many: "2 \<le> length cos \<Longrightarrow>
    ComputeFinalKey lib cos root = bindR (treeLibR (tl_aggregate lib cos root)) (\<lambda>(pre, fin). Inr fin)"
  by (cases cos rule: remdups_adj.cases) (auto simp: ComputeFinalKey_def)

lemma built_root_script:
  assumes "order_free lib" and "BuildBatchOutput lib vtxos (Some op) sweepKey sweepDelay = Inr out"
    and "ValidateVTXODescriptors lib vtxos = None" and "sweepTapData lib sweepKey sweepDelay = Inr (leaf, tweak)"
    and "struct_ok lib op r s" and "mset (struct_leaves s) = mset (map (vtxo_struct lib op) vtxos)"
    and "tn_coSigners n = st_coSigners s"
  shows "\<exists>k. ComputeFinalKey lib (tn_coSigners n) tweak = Inr k \<and> al_payToTaproot (tl_ark lib) k = Inr (out_pkScript out)"
proof -
  note v = ValidateVTXODescriptors_ok [OF assms(3)]
  obtain leaf' tweak' k where b: "sweepKey \<noteq> None" "sweepTapData lib sweepKey sweepDelay = Inr (leaf', tweak')"
    "out_value out = sum_list (map vd_amount vtxos)" "sint (out_value out) = batch_total vtxos" "operator_apart lib op vtxos"
    "\<exists>pre. tl_aggregate lib (UniqueCosigners lib (op # map owner_key vtxos)) tweak' = Inr (pre, k)"
    "al_payToTaproot (tl_ark lib) k = Inr (out_pkScript out)"
    using BuildBatchOutput_Inr [OF assms(2)] .
  have cos: "mset (st_coSigners s) = mset (UniqueCosigners lib (op # map owner_key vtxos))" "2 \<le> length (st_coSigners s)"
    using root_cosigners [OF v(3) b(5) v(1) assms(5,6)] by simp_all
  have "tl_aggregate lib (st_coSigners s) tweak = tl_aggregate lib (UniqueCosigners lib (op # map owner_key vtxos)) tweak"
    using assms(1) cos(1) unfolding order_free_def by blast
  moreover have "tweak' = tweak"
    using b(2) assms(4) by simp
  ultimately have "\<exists>pre. tl_aggregate lib (st_coSigners s) tweak = Inr (pre, k)"
    using b(6) by simp
  then show ?thesis
    using b(7) assms(7) ComputeFinalKey_many [OF cos(2)] by auto
qed

lemma built_tree_binds:
  assumes "order_free lib" and "BuildBatchOutput lib vtxos (Some op) sweepKey sweepDelay = Inr out"
    and "BuildVTXOTree lib fuel \<lparr>op_hash = tl_txHash lib tx, op_index = of_nat k\<rparr> (Some out) vtxos (Some op) sweepKey sweepDelay radix
      = Some (Inr t)"
    and "k < length (wt_outs tx)" and "length (wt_outs tx) < 2 ^ 32" and "wt_outs tx ! k = out"
    and "radix \<le> 2 ^ 32" and "batch_total vtxos \<le> 2100000000000000" and "sweepDelay \<noteq> 0"
  shows "validateVTXOTreeBinding lib tx [(int k, Some t)] = None"
    and "validateRoundSweepPolicy lib sweepKey sweepDelay [(int k, Some t)] = None" and "ValidateAnchors (Some t) = None"
proof -
  let ?in = "\<lparr>op_hash = tl_txHash lib tx, op_index = of_nat k :: u32\<rparr>"
  obtain out' leaf tweak rx s n where out: "Some out = Some out'" and sweep: "sweepTapData lib sweepKey sweepDelay = Inr (leaf, tweak)"
    and valid: "ValidateVTXODescriptors lib vtxos = None" and r: "int rx \<le> radix"
    and ok: "struct_ok lib op rx s" and leaves: "mset (struct_leaves s) = mset (map (vtxo_struct lib op) vtxos)"
    and amt': "st_amount s = out_value out'" and n: "Materialize lib tweak s ?in = Inr n"
    and t': "t = \<lparr>tr_root = Some n, tr_batchOutpoint = ?in, tr_batchOutput = Some out',
       tr_sweepTapscriptRoot = tweak, tr_sweepKey = None, tr_sweepDelay = 0\<rparr>"
    using BuildVTXOTree_Inr [OF assms(3)] .
  have amt: "st_amount s = out_value out" and t: "t = \<lparr>tr_root = Some n, tr_batchOutpoint = ?in, tr_batchOutput = Some out,
       tr_sweepTapscriptRoot = tweak, tr_sweepKey = None, tr_sweepDelay = 0\<rparr>"
    using amt' t' out by simp_all
  note v = ValidateVTXODescriptors_ok [OF valid]
  have sk: "sweepKey \<noteq> None"
    by (rule BuildBatchOutput_Inr [OF assms(2)]) assumption
  have radix: "rx \<le> 2 ^ 32"
    using r assms(7) by simp
  have fit: "amounts_fit s"
    by (rule vtxo_amounts_fit [OF leaves]) (use v(2) assms(8) in auto)
  have "0 \<le> sint (out_value out)" "sint (out_value out) \<le> 2100000000000000"
    using struct_amount_exact [OF ok fit] fit amounts_fit_nonneg [OF fit] amt by (auto simp: amounts_fit_def)
  then have vals: "ValidateValueConservation lib (Some t) = None"
    using materialized_values [OF n ok radix fit] amt by (simp add: ValidateValueConservation_def t)
  have scripts: "ValidateChildScripts lib (Some t) = None"
    using materialized_scripts [OF n ok radix] by (simp add: ValidateChildScripts_def t)
  obtain fk where "ComputeFinalKey lib (tn_coSigners n) tweak = Inr fk" "al_payToTaproot (tl_ark lib) fk = Inr (out_pkScript out)"
    using built_root_script [OF assms(1,2) valid sweep ok leaves Materialize_fields(2) [OF n]] by blast
  moreover have "tn_coSigners n \<noteq> []"
    using struct_ok_cosigners [OF ok] Materialize_fields(2) [OF n] by simp
  moreover have "unat (of_nat k :: u32) = k" "unat (of_nat (length (wt_outs tx)) :: u32) = length (wt_outs tx)"
    using assms(4,5) by (simp_all add: unat_of_nat)
  ultimately have "verifyVTXOTreeRoot lib tx (tl_txHash lib tx) (int k) (Some t) = None"
    using assms(4,6) vals scripts
    by (simp add: verifyVTXOTreeRoot_def t Let_def word_le_nat_alt uint_nat)
  then show "validateVTXOTreeBinding lib tx [(int k, Some t)] = None"
    by (simp add: validateVTXOTreeBinding_def)
  show "validateRoundSweepPolicy lib sweepKey sweepDelay [(int k, Some t)] = None"
    using sweep sk assms(9)
    by (auto simp: validateRoundSweepPolicy_def sweepTapData_def wrapR_def t Let_def split: sum.splits)
  show "ValidateAnchors (Some t) = None"
    using materialized_nodes [OF n ok radix] by (simp add: ValidateAnchors_def t)
qed

lemma built_tree_pays:
  assumes "BuildBatchOutput lib vtxos (Some op) sweepKey sweepDelay = Inr out"
    and "BuildVTXOTree lib fuel input (Some out) vtxos (Some op) sweepKey sweepDelay radix = Some (Inr t)"
    and "radix \<le> 2 ^ 32" and "batch_total vtxos \<le> 2100000000000000" and "v \<in> set vtxos" and "vr_assetRef r = []"
    and "vr_signingKey r = vd_coSignerKey v" and "Request_EffectivePkScript (tl_ark lib) r = Inr (vd_pkScript v)"
  shows "okR (validateRequestedVTXO lib (Some t) r (vd_amount v) (Some op))"
proof -
  have "operator_apart lib op vtxos"
    by (rule BuildBatchOutput_Inr [OF assms(1)]) assumption
  from owner_path_validates [OF assms(2-4) this assms(5)] show ?thesis
    using assms(6-8) by (auto simp: validateRequestedVTXO_def wrapR_def okR_iff ToLeafDescriptor_def)
qed

text \<open>
  C37: The two sides of a round agree: when the operator puts the output it builds for a batch
  into the commitment transaction and builds the tree on it, the client's checks of the tree
  accept it, for the batch's sweep key and delay, and so does every owner's search for
  its VTXO. The batch is within the money supply and the aggregation of keys does not depend on their order.
\<close>

theorem operator_batch_accepted:
  assumes "order_free lib" and "BuildBatchOutput lib vtxos (Some op) sweepKey sweepDelay = Inr out"
    and "BuildVTXOTree lib fuel \<lparr>op_hash = tl_txHash lib tx, op_index = of_nat k\<rparr> (Some out) vtxos (Some op) sweepKey sweepDelay radix
      = Some (Inr t)"
    and "k < length (wt_outs tx)" and "length (wt_outs tx) < 2 ^ 32" and "wt_outs tx ! k = out"
    and "radix \<le> 2 ^ 32" and "batch_total vtxos \<le> 2100000000000000" and "sweepDelay \<noteq> 0"
  shows "validateVTXOTreeBinding lib tx [(int k, Some t)] = None \<and>
     validateRoundSweepPolicy lib sweepKey sweepDelay [(int k, Some t)] = None \<and> ValidateAnchors (Some t) = None \<and>
     (\<forall>v \<in> set vtxos. \<forall>r. vr_assetRef r = [] \<and> vr_signingKey r = vd_coSignerKey v \<and>
        Request_EffectivePkScript (tl_ark lib) r = Inr (vd_pkScript v) \<longrightarrow>
        okR (validateRequestedVTXO lib (Some t) r (vd_amount v) (Some op)))"
  using built_tree_binds [OF assms] built_tree_pays [OF assms(2,3,7,8)] by blast

section \<open>A small batch\<close>

text \<open>A library whose aggregation adds the bytes of the keys.\<close>

definition ex_round_lib :: treeLib where
  "ex_round_lib = ex_tx_lib\<lparr>tl_ark := ex_ark, tl_aggregate := (\<lambda>ks root. Inr ([], sum_list (map sum_list ks) # root))\<rparr>"

lemma ex_round_lib_laws: "order_free ex_round_lib" "keys_combine ex_round_lib"
proof -
  have "sum_list (map sum_list ks) = (\<Sum>k \<in># mset ks. sum_list k)" for ks :: "byte list list"
    by (simp only: mset_map [symmetric] sum_mset_sum_list)
  then show "order_free ex_round_lib"
    unfolding order_free_def ex_round_lib_def by simp
  show "keys_combine ex_round_lib"
    by (simp add: keys_combine_def ex_round_lib_def ex_ark_def)
qed

definition ex_connector :: connectorLeafInfo where
  "ex_connector = \<lparr>ci_leafIndex = 0, ci_connectorOutpoint = \<lparr>op_hash = 2000, op_index = 0\<rparr>, ci_connectorPkScript = [0x51, 5],
     ci_connectorAmount = 330, ci_vtxoAmount = 0, ci_rootOutputIndex = 0, ci_numLeaves = 1, ci_radix = 2\<rparr>"

definition ex_commitment :: "txOut \<Rightarrow> wireTx" where
  "ex_commitment out = \<lparr>wt_version = 2, wt_lockTime = 0,
     wt_ins = [\<lparr>in_prevout = \<lparr>op_hash = 5, op_index = 1\<rparr>, in_signatureScript = [], in_witness = [], in_sequence = 0\<rparr>], wt_outs = [out]\<rparr>"

lemma ex_connector_verified:
  "validateConnectorAncestry ex_round_lib (ex_commitment \<lparr>out_value = 330, out_pkScript = [0x51, 5]\<rparr>) (Some [9])
     [(\<lparr>op_hash = 9, op_index = 9\<rparr>, Some ex_connector)] = None"
proof -
  let ?tx = "ex_commitment \<lparr>out_value = 330, out_pkScript = [0x51, 5]\<rparr>"
  let ?n = "TreeNode \<lparr>op_hash = tl_txHash ex_round_lib ?tx, op_index = 0\<rparr>
    [Some \<lparr>out_value = 330, out_pkScript = [0x51, 5]\<rparr>, Some AnchorOutput] [[9]] [] 330 None (Some [9])"
  let ?t = "\<lparr>tr_root = Some ?n, tr_batchOutpoint = \<lparr>op_hash = tl_txHash ex_round_lib ?tx, op_index = 0\<rparr>,
    tr_batchOutput = Some \<lparr>out_value = 330, out_pkScript = [0x51, 5]\<rparr>,
    tr_sweepTapscriptRoot = [], tr_sweepKey = None, tr_sweepDelay = 0\<rparr>"
  have "connector_tree ex_round_lib ?tx (tl_txHash ex_round_lib ?tx) [9] ex_connector = Some (Inr ?t)"
    by (simp add: connector_tree_def ex_connector_def ex_commitment_def BuildConnectorTree_def ValidateConnectorDescriptor_def
        ex_round_lib_def ex_tx_lib_def AssembleTree_def ToLeafDescriptors_def DefaultRadix_def BuildStructure_def
        buildLeafStructure_def UniqueCosigners_def materializeLeaf_def ComputeFinalKey_def ex_ark_def Let_def)
  moreover have "check_connector_scalars ?tx ex_connector = None"
    by (simp add: check_connector_scalars_def ex_connector_def ex_commitment_def maxConnectorTreeLeaves_def maxConnectorTreeRadix_def)
  moreover have "validateNodeValueConservation ex_round_lib ?n (tn_input ?n) 330 = None"
    unfolding value_conserved_iff [of ex_round_lib ?n] by (simp add: TXID_def ToTx_def sum_outputs_ok AnchorOutput_def del: sum_outputs.simps)
  then have "Verify ex_round_lib (Some ?t) = None"
    unfolding Verify_None_iff by (simp del: validateNodeValueConservation.simps)
  moreover have "check_connector_leaf ex_round_lib ex_connector ?n = None"
    by (simp add: check_connector_leaf_def GetNonAnchorOutpoint_def IsLeaf_def ToTx_def connectorLeafOutput_def AnchorOutput_def
        AnchorPkScript_def ex_connector_def ex_round_lib_def ex_tx_lib_def)
  ultimately show ?thesis
    by (simp add: validateConnectorAncestry_def verifyConnectorLeaf_def ex_connector_def)
qed

theorem connector_descends_witness:
  "\<exists>ns. ns \<noteq> [] \<and> spend_chain ex_round_lib
     \<lparr>op_hash = tl_txHash ex_round_lib (ex_commitment \<lparr>out_value = 330, out_pkScript = [0x51, 5]\<rparr>), op_index = 0\<rparr> ns"
  using connector_descends [of ex_round_lib "ex_commitment \<lparr>out_value = 330, out_pkScript = [0x51, 5]\<rparr>" 0 "[9]" ex_connector "Some [9]"
      "[(\<lparr>op_hash = 9, op_index = 9\<rparr>, Some ex_connector)]" "\<lparr>op_hash = 9, op_index = 9\<rparr>" "Some ex_connector"]
    ex_connector_verified
  by (auto simp: ex_connector_def)

definition ex_batch :: "vtxoDescriptor list" where
  "ex_batch = [(ex_vtxo_of 900 2)\<lparr>vd_policyTemplate := ex_policy, vd_pkScript := [0x51, 1]\<rparr>, ex_vtxo_of 100 3]"

definition ex_vtxo_request :: vtxoRequest where
  "ex_vtxo_request = (ex_round_request 900)\<lparr>vr_policyTemplate := ex_policy, vr_signingKey := Some [2]\<rparr>"

lemma ex_batch_valid: "ValidateVTXODescriptors ex_round_lib ex_batch = None"
  by (simp add: ValidateVTXODescriptors_def ex_batch_def ex_vtxo_of_def ex_round_lib_def ex_tx_lib_def ex_ark_def)

lemma ex_request_script: "Request_EffectivePkScript ex_ark ex_vtxo_request = Inr [0x51, 1]"
proof -
  have "PkScript ex_ark (Some ex_template) = Inr [0x51, 1]"
  proof -
    have "okR (Compile ex_ark (Some ex_template))"
      unfolding Compile_ok
      by (simp add: ex_template_def LeafTemplate_Script_def ex_ark_def scriptChecksig_def validateCSVLock_def SequenceLockTimeMask_def)
    then obtain c where c: "Compile ex_ark (Some ex_template) = Inr c"
      by (auto simp: okR_iff)
    then have "cp_internalKey c = al_numsKey ex_ark"
      by (auto simp: Compile_def dest: BuildTree_Inr(2) split: if_splits)
    then have "OutputKey ex_ark c = [1]"
      by (simp add: OutputKey_def ex_ark_def)
    then show ?thesis
      using c by (simp add: PkScript_def ex_ark_def)
  qed
  then show ?thesis
    using ex_policy_decodes
    by (simp add: Request_EffectivePkScript_def Request_DecodePolicyTemplate_def Request_EffectivePolicyTemplate_def
        ex_vtxo_request_def ex_round_request_def)
qed

lemma ex_batch_output: "\<exists>out. BuildBatchOutput ex_round_lib ex_batch (Some [9]) (Some [8]) 1008 = Inr out"
  by (simp add: BuildBatchOutput_def BuildBatchOutputSpec_def sweepTapData_def UnilateralCSVTimeoutTapLeaf_def
      ex_batch_def ex_vtxo_of_def ex_round_lib_def ex_tx_lib_def ex_ark_def validateCSVLock_def
      SequenceLockTimeMask_def scriptChecksig_def max_int64_def Let_def)

lemma ex_batch_tree:
  assumes "BuildBatchOutput ex_round_lib ex_batch (Some [9]) (Some [8]) 1008 = Inr out"
  shows "\<exists>t. BuildVTXOTree ex_round_lib 2 input (Some out) ex_batch (Some [9]) (Some [8]) 1008 2 = Some (Inr t)"
proof -
  obtain leaf tweak k where b: "Some [8] \<noteq> (None :: pubKey option)" "sweepTapData ex_round_lib (Some [8]) 1008 = Inr (leaf, tweak)"
    "out_value out = sum_list (map vd_amount ex_batch)" "sint (out_value out) = batch_total ex_batch"
    "operator_apart ex_round_lib [9] ex_batch"
    "\<exists>pre. tl_aggregate ex_round_lib (UniqueCosigners ex_round_lib ([9] # map owner_key ex_batch)) tweak = Inr (pre, k)"
    "al_payToTaproot (tl_ark ex_round_lib) k = Inr (out_pkScript out)"
    using BuildBatchOutput_Inr [OF assms] .
  show ?thesis
    by (rule BuildVTXOTree_total [OF ex_round_lib_laws(2) ex_batch_valid _ b(1,2,3)]) (simp_all add: ex_batch_def)
qed

theorem operator_batch_accepted_witness:
  "\<exists>out t. BuildBatchOutput ex_round_lib ex_batch (Some [9]) (Some [8]) 1008 = Inr out \<and>
     validateVTXOTreeBinding ex_round_lib (ex_commitment out) [(0, Some t)] = None \<and>
     okR (validateRequestedVTXO ex_round_lib (Some t) ex_vtxo_request 900 (Some [9]))"
proof -
  obtain out where out: "BuildBatchOutput ex_round_lib ex_batch (Some [9]) (Some [8]) 1008 = Inr out"
    using ex_batch_output ..
  let ?tx = "ex_commitment out"
  obtain t where t: "BuildVTXOTree ex_round_lib 2 \<lparr>op_hash = tl_txHash ex_round_lib ?tx, op_index = of_nat 0\<rparr> (Some out) ex_batch
      (Some [9]) (Some [8]) 1008 2 = Some (Inr t)"
    using ex_batch_tree [OF out] by blast
  have v: "hd ex_batch \<in> set ex_batch" "vr_assetRef ex_vtxo_request = []" "vr_signingKey ex_vtxo_request = vd_coSignerKey (hd ex_batch)"
    "Request_EffectivePkScript (tl_ark ex_round_lib) ex_vtxo_request = Inr (vd_pkScript (hd ex_batch))" "vd_amount (hd ex_batch) = 900"
    using ex_request_script by (simp_all add: ex_batch_def ex_vtxo_of_def ex_vtxo_request_def ex_round_request_def ex_round_lib_def)
  have "batch_total ex_batch \<le> 2100000000000000"
    by (simp add: batch_total_def ex_batch_def ex_vtxo_of_def)
  then have "validateVTXOTreeBinding ex_round_lib ?tx [(0, Some t)] = None"
    "okR (validateRequestedVTXO ex_round_lib (Some t) ex_vtxo_request (vd_amount (hd ex_batch)) (Some [9]))"
    using operator_batch_accepted [OF ex_round_lib_laws(1) out t] v(1-4) by (simp_all add: ex_commitment_def)
  then show ?thesis
    using out v(5) by auto
qed

definition ex_received :: "txOut \<Rightarrow> txTree \<Rightarrow> commitmentReceived" where
  "ex_received out t = \<lparr>cr_roundID = [7], cr_commitmentTx = \<lparr>pk_unsignedTx = ex_commitment out, pk_witnessUtxos = []\<rparr>,
     cr_txid = tl_txHash ex_round_lib (ex_commitment out), cr_vtxoTreePaths = [(0, Some t)], cr_treeCosignKey = Some [9],
     cr_connectorOperatorKey = None, cr_sweepKey = Some [8], cr_sweepDelay = 1008, cr_flowVersion = 0, cr_forfeitKey = None,
     cr_intents = ex_intents\<lparr>it_vtxos := [ex_vtxo_request], it_leaves := []\<rparr>, cr_quote = None\<rparr>"

theorem accepted_commitment_pays_witness:
  "\<exists>out t indices trees ct. commitment_checks (ex_round_env\<lparr>re_lib := ex_round_lib\<rparr>) (ex_received out t) [] = Inr (indices, trees) \<and>
     pays_request (ex_round_env\<lparr>re_lib := ex_round_lib\<rparr>) (ex_received out t) 0 ct"
proof -
  let ?env = "ex_round_env\<lparr>re_lib := ex_round_lib\<rparr>"
  obtain out where out: "BuildBatchOutput ex_round_lib ex_batch (Some [9]) (Some [8]) 1008 = Inr out"
    using ex_batch_output ..
  let ?tx = "ex_commitment out"
  obtain t where t: "BuildVTXOTree ex_round_lib 2 \<lparr>op_hash = tl_txHash ex_round_lib ?tx, op_index = of_nat 0\<rparr> (Some out) ex_batch
      (Some [9]) (Some [8]) 1008 2 = Some (Inr t)"
    using ex_batch_tree [OF out] by blast
  have total: "batch_total ex_batch \<le> 2100000000000000"
    by (simp add: batch_total_def ex_batch_def ex_vtxo_of_def)
  note binds = built_tree_binds [OF ex_round_lib_laws(1) out t _ _ _ _ total]
  have "vd_amount (hd ex_batch) = 900" "vd_coSignerKey (hd ex_batch) = Some [2]" "vd_pkScript (hd ex_batch) = [0x51, 1]"
    "hd ex_batch \<in> set ex_batch"
    by (simp_all add: ex_batch_def ex_vtxo_of_def)
  then have "okR (validateRequestedVTXO ex_round_lib (Some t) ex_vtxo_request 900 (Some [9]))"
    using built_tree_pays [OF out t _ total, of "hd ex_batch" ex_vtxo_request] ex_request_script
    by (simp add: ex_vtxo_request_def ex_round_request_def ex_round_lib_def)
  then obtain ct where ct: "validateRequestedVTXO ex_round_lib (Some t) ex_vtxo_request 900 (Some [9]) = Inr ct"
    by (auto simp: okR_iff)
  have "\<exists>indices trees. commitment_checks ?env (ex_received out t) [] = Inr (indices, trees)"
    using binds ct
    by (simp add: commitment_checks_def ex_received_def ex_quote_defs ValidateDelayParameters_def MaxReasonableDelay_def
        validateBoardingInputs_def outpointToIdx_def put_def ex_commitment_def toR_def refuse_def refuseR_def wrapR_def
        quoteVTXOAmount_def ex_vtxo_request_def ex_round_request_def validateConnectorAncestry_def Let_def)
  then obtain indices trees where ok: "commitment_checks ?env (ex_received out t) [] = Inr (indices, trees)"
    by blast
  then show ?thesis
    using accepted_commitment_pays [OF ok] by (auto simp: Let_def ex_received_def)
qed

end
