(* ===== verification/Spec2Isabelle.thy ===== *)
theory Spec2Isabelle
  imports Planner_Facts Vtxo_Facts Round_Commitment_Facts
begin

text \<open>
  A development for the client side of an Ark implementation: the daemon that holds
  virtual transaction outputs (VTXOs), takes part in the operator's rounds, and can leave to the
  chain on its own.

  \<^bold>\<open>The program.\<close> A VTXO is a leaf of a tree of presigned transactions whose root spends one
  output of the operator's commitment transaction (\<open>src/lib/tree\<close>). Its output script is a
  taproot policy compiled from a small language (\<open>src/lib/arkscript\<close>). The client joins a
  round (\<open>src/round\<close>): it sends what it brings and what it wants, judges the operator's
  fee quote, checks the commitment transaction and its trees, and signs. Each VTXO has a state machine
  (\<open>src/vtxo\<close>) that refreshes it before it expires, signs the forfeit of the old
  VTXO (\<open>src/lib/tx\<close>), or starts a unilateral exit. An exit publishes the transactions of the path in
  dependency order: the recovery proof and session (\<open>src/lib/recovery\<close>) track
  them and the planner (\<open>src/unrollplan\<close>) says what to do next.

  \<^bold>\<open>The theories.\<close> Each models the files named in its own opening text.
  \<^item> \<open>Prelude\<close>: results, checks in sequence, the iteration order of Go maps as a
    schedule, bounds of machine integers.
  \<^item> \<open>Tree_Queue\<close>: the queue of \<open>lib/tree/queue.go\<close> with the interface
    \<open>fifo_queue\<close>, interpreted on it.
  \<^item> \<open>Recovery_Proof\<close>, \<open>Recovery_Graph\<close>: the transaction graph of \<open>proof.go\<close>, its validation, layers
    and ancestors. \<open>Recovery_Session\<close>, \<open>Session_Facts\<close>: the session of \<open>session.go\<close> and \<open>state.go\<close>.
    \<open>Unroll_Planner\<close>, \<open>Planner_Facts\<close>: \<open>planner.go\<close> and its agreement with the session.
  \<^item> \<open>Ark_Script\<close>, \<open>Ark_Codec\<close>, \<open>Ark_Tree\<close>, \<open>Ark_Policy\<close> and their fact theories: the policy language, its
    binary encodings, the taproot tree with control blocks, validation, and the standard VTXO and
    vHTLC policies. \<open>Vtxo_Policy\<close>: the template stored with a VTXO.
  \<^item> \<open>Forfeit_Tx\<close>: builder and validator of the forfeit transaction. \<open>Vtxo_Expiry\<close>: expiry
    thresholds. \<open>Vtxo_Forfeit\<close>, \<open>Vtxo_FSM\<close>, \<open>Vtxo_Facts\<close>: forfeit signing, the state machine of a VTXO and
    its actor's choice between an exit and a cooperative refresh.
  \<^item> \<open>Tree_Node\<close>: nodes and trees with traversal, extraction, validation and signatures.
    \<open>Tree_Build\<close>: partitioning, structure, materialization, batches and connectors.
    \<open>Tree_Partition\<close>, \<open>Tree_Facts\<close>, \<open>Tree_Walks\<close>, \<open>Tree_Build_Facts\<close>, \<open>Tree_Valid\<close>, \<open>Tree_Batch\<close>: their properties.
  \<^item> \<open>Batch_Schedule\<close>: the operator's timetable, its published slots and the slot a client's attempt is pinned
    to (\<open>lib/batchschedule\<close>, \<open>round/scheduled_registration.go\<close>). \<open>Round_Types\<close>: the data of a round. \<open>Round_Quote\<close>, \<open>Round_Quote_Facts\<close>: the change marker and the
    acceptance of a quote. \<open>Round_Commitment\<close>, \<open>Round_Commitment_Facts\<close>: the checks of the
    commitment transaction.

  \<^bold>\<open>How the code is rendered.\<close> Definitions keep the names of the source. A struct is a record, an enum
  or a sealed interface a datatype; nil pointers are \<open>None\<close>. A function returning a value and an error is a
  sum with the error on the left; a bare error is an option. Integers keep their width and wrap;
  \<open>sint\<close> and \<open>uint\<close> read them. A method that changes its receiver returns the
  new one. Loops are recursions; a loop over a Go map takes the order in which it happens to visit the
  keys, as a schedule or as the order of an association list.

  \<^bold>\<open>Parameters.\<close> Code outside the repository is a field of a record that the definitions take:
  \<open>arkLib\<close> (script building, hashes, key tweaks, variable length integers of btcd), \<open>cryptoLib\<close>
  (signatures), \<open>treeLib\<close> (transaction ids, signature hashes, MuSig2 aggregation), \<open>vtxoEnv\<close> and \<open>roundEnv\<close>
  (wallet, signer, stores, clock). What a theorem needs of them is a named hypothesis stating documented
  behaviour: \<open>wire_laws\<close>, \<open>key_laws\<close>, \<open>script_laws\<close>, \<open>taproot_laws\<close>, \<open>keys_combine\<close>, \<open>order_free\<close>; the witnesses
  instantiate them with small concrete libraries.

  \<^bold>\<open>What is shown.\<close> Recovery: a proof has exactly the layers of its graph, whatever the map order;
  a session confirms ancestors before descendants, never loses progress, completes when every step succeeds,
  and survives export and reload unless it failed with an empty text; at every height the planner shows
  the frontiers, timelock and sweep decision of the session, or fails on the same overflow.
  Policies: encodings round-trip, spend paths commit to the output script, accepted policies
  give the operator no unilateral leaf. VTXOs: the stored row agrees with the state; signed forfeits pass the
  round's validation and no sequence of events leads from them to an exit but a deliberate unroll or the
  release of the round; a critical block starts the exit unless the wallet assessed it as infeasible;
  a coin seen expired stays quarantined; the admission check agrees with the machine on every state.
  Trees: what the assembler builds is valid, accepted signatures verify, structure building returns
  exactly when at most one leaf has no positive amount. Rounds: an accepted quote is
  fair over the integers, an accepted commitment transaction pays every request by a
  funded path, accepted connectors descend from it, and the operator's own batch is accepted; the
  slots of a timetable are the next ones on its grid and pass the client's check of a published list.

  \<^bold>\<open>Bounds and fuel.\<close> The structure recursion of a tree takes fuel, since it need not end; as many steps as
  there are leaves are enough whenever it ends, and the client's rebuilding of a
  connector tree uses exactly that. All other recursions have termination proofs.
  Values are bounded by the money supply of 21 million bitcoin where a sum must not wrap. Control blocks
  are parsed back for proofs of at most 128 siblings, which trees of up to \<open>2 ^ 128\<close> leaves have.

  \<^bold>\<open>Not modelled.\<close> The actors, stores, transports and timers around the state machines are concurrent
  plumbing over goroutines, SQL and gRPC. MuSig2 sessions and PSBT handling are calls
  of btcd and lnd. Asset trees and asset VTXOs depend on the Taproot Assets daemon; the
  model refuses an asset request. The wait of a client for its slot, the retry cooldown and the
  refresh of the operator's terms before an automatic refresh are steps of the actors. Logging and formatting are left out.
\<close>

end
